(* ===== verification/Prelude.thy ===== *)
theory Prelude
  imports Main "HOL-Library.Word" "HOL-Library.Multiset"
begin

text \<open>
  The shared vocabulary of the development: the machine integers of the Rust sources, the
  build profile (which decides whether integer overflow panics and whether
  \<^verbatim>\<open>debug_assert!\<close> is compiled in), panics as values, and the transition-system contract that
  the stateful components (server, client) are instances of.

  A Rust function that may panic is modelled by a HOL function into \<open>'a outcome\<close>:
  \<open>Done x\<close> when it returns \<open>x\<close>, \<open>Panic r\<close> when it unwinds. A \<^verbatim>\<open>Result<T, E>\<close> is the sum
  \<open>'e + 'a\<close> with \<open>Inl\<close> for \<^verbatim>\<open>Err\<close>.
\<close>

named_theorems outcome_simps \<open>evaluation and inversion of the outcome combinators\<close>

section \<open>Machine integers and strings\<close>

type_synonym u8 = "8 word"
type_synonym u32 = "32 word"
type_synonym u64 = "64 word"
type_synonym bytes = "8 word list"

section \<open>Build profile and panics\<close>

text \<open>
  The workspace sets no \<^verbatim>\<open>[profile.*]\<close> keys, so Cargo's defaults hold: the dev profile compiles
  integer overflow checks and debug assertions in, the release profile compiles both out and
  arithmetic wraps around.
\<close>

datatype profile = Dev | Release

datatype panic =
    ArithmeticOverflow
  | DivideByZero
  | TickRateNotPositive
  | TickMismatch u64 u64
  | StepInputsUnsorted
  | MaxSessionsExceeded
  | TestPlayerIdsExhausted
  | UnknownSession
  | DurationOutOfRange

datatype 'a outcome = Done 'a | Panic panic

fun obind :: "'a outcome \<Rightarrow> ('a \<Rightarrow> 'b outcome) \<Rightarrow> 'b outcome" where
  "obind (Done x) f = f x"
| "obind (Panic r) f = Panic r"

fun is_done :: "'a outcome \<Rightarrow> bool" where
  "is_done (Done x) = True"
| "is_done (Panic r) = False"

lemma obind_Done_iff [outcome_simps]:
  "obind m f = Done y \<longleftrightarrow> (\<exists>x. m = Done x \<and> f x = Done y)"
  by (cases m) auto

lemma obind_Panic_iff [outcome_simps]:
  "obind m f = Panic r \<longleftrightarrow> m = Panic r \<or> (\<exists>x. m = Done x \<and> f x = Panic r)"
  by (cases m) auto

lemma is_done_iff [outcome_simps]: "is_done m \<longleftrightarrow> (\<exists>x. m = Done x)"
  by (cases m) auto

lemma outcome_if_Done_iff [outcome_simps]:
  "(if b then Panic r else m) = Done y \<longleftrightarrow> \<not> b \<and> m = Done y"
  by auto

text \<open>The \<^verbatim>\<open>?\<close> operator on a \<^verbatim>\<open>Result\<close> inside code that may also panic.\<close>

fun try_bind :: "'e + 'a \<Rightarrow> ('a \<Rightarrow> ('e + 'b) outcome) \<Rightarrow> ('e + 'b) outcome" where
  "try_bind (Inl e) f = Done (Inl e)"
| "try_bind (Inr x) f = f x"

lemma try_bind_Inr_iff [outcome_simps]:
  "try_bind m f = Done (Inr y) \<longleftrightarrow> (\<exists>x. m = Inr x \<and> f x = Done (Inr y))"
  by (cases m) auto

lemma try_bind_Panic_iff [outcome_simps]:
  "try_bind m f = Panic r \<longleftrightarrow> (\<exists>x. m = Inr x \<and> f x = Panic r)"
  by (cases m) auto

text \<open>A loop that returns early with the first error it meets.\<close>

fun first_error :: "('a \<Rightarrow> 'e option) \<Rightarrow> 'a list \<Rightarrow> 'e option" where
  "first_error f [] = None"
| "first_error f (x # xs) = (case f x of Some e \<Rightarrow> Some e | None \<Rightarrow> first_error f xs)"

lemma first_error_None_iff [outcome_simps]: "first_error f xs = None \<longleftrightarrow> (\<forall>x \<in> set xs. f x = None)"
  by (induction xs) (auto split: option.split)

text \<open>\<^verbatim>\<open>format!\<close> of an unsigned integer, in decimal and in hexadecimal.\<close>

definition digit_char :: "nat \<Rightarrow> char" where
  "digit_char d = (if d < 10 then char_of (48 + d) else char_of (87 + d))"

fun digits :: "nat \<Rightarrow> nat \<Rightarrow> string" where
  "digits base n =
     (if base < 2 \<or> n < base then [digit_char n]
      else digits base (n div base) @ [digit_char (n mod base)])"

declare digits.simps [simp del]

definition decimal :: "'a::len word \<Rightarrow> string" where
  "decimal w = digits 10 (unat w)"

definition hex :: "'a::len word \<Rightarrow> string" where
  "hex w = ''0x'' @ digits 16 (unat w)"

text \<open>\<^verbatim>\<open>a + b\<close> on unsigned integers: a panic on overflow in the dev profile, wrap-around in release.\<close>

definition checked_plus :: "profile \<Rightarrow> 'a::len word \<Rightarrow> 'a word \<Rightarrow> 'a word outcome" where
  "checked_plus p a b =
     (if p = Dev \<and> 2 ^ LENGTH('a) \<le> unat a + unat b then Panic ArithmeticOverflow
      else Done (a + b))"

lemma checked_plus_Done [outcome_simps]:
  "checked_plus p a b = Done c \<longleftrightarrow>
     c = a + b \<and> (p = Dev \<longrightarrow> unat a + unat b < 2 ^ LENGTH('a))"
  for a b c :: "'a::len word"
  by (auto simp: checked_plus_def not_le)

lemma checked_plus_fits:
  "unat a + unat b < 2 ^ LENGTH('a) \<Longrightarrow> checked_plus p a b = Done (a + b)"
  for a b :: "'a::len word"
  by (simp add: checked_plus_def)

lemma unat_plus_fits:
  "unat a + unat b < 2 ^ LENGTH('a) \<Longrightarrow> unat (a + b) = unat a + unat b"
  for a b :: "'a::len word"
  by (simp add: unat_word_ariths)

text \<open>The half-open Rust range \<^verbatim>\<open>a..b\<close> of ticks, as the list its iterator yields.\<close>

definition tick_range :: "u64 \<Rightarrow> u64 \<Rightarrow> u64 list" where
  "tick_range a b = map of_nat [unat a..<unat b]"

lemma set_tick_range: "set (tick_range a b) = {t. a \<le> t \<and> t < b}"
proof -
  have "t \<in> of_nat ` {unat a..<unat b} \<longleftrightarrow> a \<le> t \<and> t < b" for t :: u64
  proof
    assume "t \<in> of_nat ` {unat a..<unat b}"
    then obtain n where n: "t = of_nat n" "unat a \<le> n" "n < unat b" by auto
    have "unat b < 2 ^ 64" using unsigned_less[of b] by simp
    with n(3) have "n < 2 ^ 64" by linarith
    then have "unat t = n" using n(1) by (simp add: unat_of_nat take_bit_nat_eq_self)
    with n show "a \<le> t \<and> t < b" by (simp add: word_le_nat_alt word_less_nat_alt)
  next
    assume "a \<le> t \<and> t < b"
    then have "unat t \<in> {unat a..<unat b}" by (simp add: word_le_nat_alt word_less_nat_alt)
    moreover have "t = of_nat (unat t)" by simp
    ultimately show "t \<in> of_nat ` {unat a..<unat b}" by (rule rev_image_eqI)
  qed
  then show ?thesis by (auto simp: tick_range_def)
qed

lemma length_tick_range [simp]: "length (tick_range a b) = unat b - unat a"
  by (simp add: tick_range_def)

lemma tick_range_empty: "b \<le> a \<Longrightarrow> tick_range a b = []"
  by (simp add: tick_range_def word_le_nat_alt)

lemma tick_range_snoc:
  assumes "a \<le> b" and "unat b + 1 < 2 ^ 64"
  shows "tick_range a (b + 1) = tick_range a b @ [b]"
proof -
  have "unat (b + 1) = unat b + 1"
    using assms(2) by (simp add: unat_word_ariths)
  then show ?thesis
    using assms(1) by (simp add: tick_range_def word_le_nat_alt)
qed

lemma tick_range_Cons:
  assumes "a < b"
  shows "tick_range a b = a # tick_range (a + 1) b"
proof -
  have "unat b < 2 ^ 64" using unsigned_less[of b] by simp
  with assms have "unat a + 1 < 2 ^ 64" by (simp add: word_less_nat_alt)
  then have "unat (a + 1) = unat a + 1" by (simp add: unat_word_ariths)
  with assms show ?thesis by (simp add: tick_range_def word_less_nat_alt upt_conv_Cons)
qed

lemma tick_less_max: "unat t < 2 ^ 64 - 1" if "t < c" for t c :: u64
proof -
  have "unat c < 2 ^ 64" using unsigned_less[of c] by simp
  with that show ?thesis by (simp add: word_less_nat_alt)
qed

lemma tick_Suc:
  fixes t c :: u64
  assumes "t < c"
  shows "unat (t + 1) = unat t + 1" "t + 1 \<le> c"
proof -
  show "unat (t + 1) = unat t + 1"
    using tick_less_max[OF assms] by (simp add: unat_word_ariths)
  then show "t + 1 \<le> c" using assms by (simp add: word_le_nat_alt word_less_nat_alt)
qed

section \<open>Lists\<close>

text \<open>A concatenation of records of one fixed width determines the records.\<close>

lemma concat_fixed_width:
  assumes width: "\<And>x. length (f x) = Suc n"
  shows "concat (map f xs) = concat (map f ys) \<longleftrightarrow> map f xs = map f ys"
proof (induction xs arbitrary: ys)
  case Nil
  have "f y \<noteq> []" for y using width[of y] by auto
  then show ?case by (cases ys) auto
next
  case (Cons x xs)
  have "f x \<noteq> []" using width[of x] by auto
  then show ?case using Cons.IH by (cases ys) (auto simp: width)
qed

text \<open>Numbering from one: the identifiers a counter that starts at 1 hands out.\<close>

lemma unat_of_nat_small: "n < 2 ^ LENGTH('a) \<Longrightarrow> unat (of_nat n :: 'a::len word) = n"
  by (simp add: unat_of_nat take_bit_nat_eq_self)

lemma distinct_of_nat_upt:
  "m \<le> 2 ^ LENGTH('a) \<Longrightarrow> distinct (map (of_nat :: nat \<Rightarrow> 'a::len word) [k..<m])"
  by (auto simp: distinct_map inj_on_def dest!: arg_cong[where f = unat] simp: unat_of_nat_small)

lemma sorted_of_nat_upt:
  "m \<le> 2 ^ LENGTH('a) \<Longrightarrow> sorted (map (of_nat :: nat \<Rightarrow> 'a::len word) [k..<m])"
  by (auto simp: sorted_iff_nth_mono word_le_nat_alt unat_of_nat_small simp del: of_nat_add)

section \<open>Transition systems and their invariants\<close>

text \<open>
  The contract between a stateful component and the properties proved of every state it can
  reach: an initial state, labelled steps that may be refused (or panic), and a predicate that
  holds initially and is kept by every step.
\<close>

fun run_events :: "('s \<Rightarrow> 'e \<Rightarrow> 's outcome) \<Rightarrow> 's \<Rightarrow> 'e list \<Rightarrow> 's outcome" where
  "run_events step s [] = Done s"
| "run_events step s (e # es) = obind (step s e) (\<lambda>s'. run_events step s' es)"

lemma run_events_append:
  "run_events step s (es @ fs) = obind (run_events step s es) (\<lambda>s'. run_events step s' fs)"
proof (induction es arbitrary: s)
  case Nil
  then show ?case by simp
next
  case (Cons e es)
  then show ?case by (cases "step s e") simp_all
qed

locale transition_system =
  fixes step :: "'s \<Rightarrow> 'e \<Rightarrow> 's outcome"
    and start :: "'s \<Rightarrow> bool"
    and inv :: "'s \<Rightarrow> bool"
  assumes start_inv: "start s \<Longrightarrow> inv s"
    and step_inv: "inv s \<Longrightarrow> step s e = Done s' \<Longrightarrow> inv s'"
begin

lemma run_inv: "inv s \<Longrightarrow> run_events step s es = Done s' \<Longrightarrow> inv s'"
proof (induction es arbitrary: s)
  case Nil
  then show ?case by simp
next
  case (Cons e es)
  then show ?case by (auto simp: outcome_simps intro: step_inv)
qed

lemma reachable_inv: "start s \<Longrightarrow> run_events step s es = Done s' \<Longrightarrow> inv s'"
  by (blast intro: run_inv start_inv)

end

text \<open>A transition system with a quantity that never decreases along a run.\<close>

locale monotone_system = transition_system step start inv
  for step :: "'s \<Rightarrow> 'e \<Rightarrow> 's outcome" and start :: "'s \<Rightarrow> bool" and inv :: "'s \<Rightarrow> bool" +
  fixes gauge :: "'s \<Rightarrow> nat"
  assumes step_gauge: "inv s \<Longrightarrow> step s e = Done s' \<Longrightarrow> gauge s \<le> gauge s'"
begin

lemma run_gauge: "inv s \<Longrightarrow> run_events step s es = Done s' \<Longrightarrow> gauge s \<le> gauge s'"
proof (induction es arbitrary: s)
  case Nil
  then show ?case by simp
next
  case (Cons e es)
  from Cons.prems(2) obtain u where u: "step s e = Done u" "run_events step u es = Done s'"
    by (auto simp: outcome_simps)
  have "gauge u \<le> gauge s'"
    using Cons.IH u step_inv[OF Cons.prems(1) u(1)] by blast
  with step_gauge[OF Cons.prems(1) u(1)] show ?case by simp
qed

end

end
