(* ===== verification/F64.thy ===== *)
theory F64
  imports Prelude
begin

text \<open>
  Rust's primitive \<^verbatim>\<open>f64\<close>: IEEE-754 binary64, as bit patterns (\<open>to_bits\<close>), with the operations
  the sources use: \<^verbatim>\<open>+\<close>, \<^verbatim>\<open>*\<close>, \<^verbatim>\<open>/\<close>, \<^verbatim>\<open>sqrt\<close>, the comparisons, \<^verbatim>\<open>is_nan\<close>, \<^verbatim>\<open>is_infinite\<close> and
  \<^verbatim>\<open>f64::from(u32)\<close>, all rounding to nearest, ties to even, on exact integer arithmetic.

  A finite pattern stands for \<open>\<plusminus> sig * 2 ^ exp * 2 powi (-1074)\<close>, where \<open>sig\<close> and \<open>exp\<close> are read
  off its low 63 bits (the magnitude); magnitudes are ordered as the values they stand for.
  The bit pattern of a NaN that an operation returns is not specified by Rust; the model
  returns the quiet NaN that \<^verbatim>\<open>canonicalize_f64\<close> maps every NaN to.
\<close>

type_synonym f64 = "64 word"

section \<open>Reading a pattern\<close>

definition f64_neg :: "f64 \<Rightarrow> bool" where
  "f64_neg x \<longleftrightarrow> 2 ^ 63 \<le> unat x"

definition f64_mag :: "f64 \<Rightarrow> nat" where
  "f64_mag x = unat x mod 2 ^ 63"

definition inf_mag :: nat where
  "inf_mag = 2047 * 2 ^ 52"

definition mag_sig :: "nat \<Rightarrow> nat" where
  "mag_sig m = (if m < 2 ^ 52 then m else 2 ^ 52 + m mod 2 ^ 52)"

definition mag_exp :: "nat \<Rightarrow> nat" where
  "mag_exp m = (if m < 2 ^ 52 then 0 else m div 2 ^ 52 - 1)"

definition f64_is_nan :: "f64 \<Rightarrow> bool" where
  "f64_is_nan x \<longleftrightarrow> inf_mag < f64_mag x"

definition f64_is_infinite :: "f64 \<Rightarrow> bool" where
  "f64_is_infinite x \<longleftrightarrow> f64_mag x = inf_mag"

definition f64_is_finite :: "f64 \<Rightarrow> bool" where
  "f64_is_finite x \<longleftrightarrow> f64_mag x < inf_mag"

definition f64_pack :: "bool \<Rightarrow> nat \<Rightarrow> f64" where
  "f64_pack s m = of_nat (if s then 2 ^ 63 + m else m)"

definition f64_nan :: f64 where "f64_nan = 0x7ff8000000000000"
definition f64_zero :: f64 where "f64_zero = 0"
definition f64_one :: f64 where "f64_one = 0x3ff0000000000000"

section \<open>Comparisons\<close>

definition f64_ord :: "f64 \<Rightarrow> int" where
  "f64_ord x = (if f64_neg x then - int (f64_mag x) else int (f64_mag x))"

definition f64_eq :: "f64 \<Rightarrow> f64 \<Rightarrow> bool" where
  "f64_eq x y \<longleftrightarrow> \<not> f64_is_nan x \<and> \<not> f64_is_nan y \<and> f64_ord x = f64_ord y"

definition f64_le :: "f64 \<Rightarrow> f64 \<Rightarrow> bool" where
  "f64_le x y \<longleftrightarrow> \<not> f64_is_nan x \<and> \<not> f64_is_nan y \<and> f64_ord x \<le> f64_ord y"

definition f64_gt :: "f64 \<Rightarrow> f64 \<Rightarrow> bool" where
  "f64_gt x y \<longleftrightarrow> \<not> f64_is_nan x \<and> \<not> f64_is_nan y \<and> f64_ord y < f64_ord x"

section \<open>Rounding\<close>

text \<open>The number of binary digits, 32 at a time where possible.\<close>

fun bitlen :: "nat \<Rightarrow> nat" where
  "bitlen n =
     (if n = 0 then 0
      else if 2 ^ 32 \<le> n then 32 + bitlen (n div 2 ^ 32)
      else Suc (bitlen (n div 2)))"

declare bitlen.simps [simp del]

text \<open>\<open>m div 2 ^ k\<close>, rounded to nearest, ties to even.\<close>

definition round_up :: "nat \<Rightarrow> nat \<Rightarrow> nat \<Rightarrow> bool" where
  "round_up d r h \<longleftrightarrow> h < 2 * r \<or> 2 * r = h \<and> odd d"

definition rne_shift :: "nat \<Rightarrow> nat \<Rightarrow> nat" where
  "rne_shift m k =
     (if round_up (m div 2 ^ k) (m mod 2 ^ k) (2 ^ k) then m div 2 ^ k + 1 else m div 2 ^ k)"

text \<open>
  The magnitude nearest to \<open>m * 2 powi e\<close>: the unit in the last place is \<open>2 powi q\<close>, where \<open>q\<close>
  keeps 53 significant digits but never goes below the subnormal spacing \<open>-1074\<close>; a carry out
  of the significand moves to the next exponent by itself; too large is infinity.
\<close>

definition round_ulp :: "nat \<Rightarrow> int \<Rightarrow> int" where
  "round_ulp m e = max (e + int (bitlen m) - 53) (-1074)"

definition round_at :: "int \<Rightarrow> nat \<Rightarrow> int \<Rightarrow> nat" where
  "round_at q m e =
     nat (q + 1074) * 2 ^ 52 + (if q \<le> e then m * 2 ^ nat (e - q) else rne_shift m (nat (q - e)))"

definition round_mag :: "nat \<Rightarrow> int \<Rightarrow> nat" where
  "round_mag m e = (if m = 0 then 0 else min inf_mag (round_at (round_ulp m e) m e))"

definition f64_round :: "bool \<Rightarrow> nat \<Rightarrow> int \<Rightarrow> f64" where
  "f64_round s m e = f64_pack s (round_mag m e)"

section \<open>Arithmetic\<close>

definition f64_sig :: "f64 \<Rightarrow> nat" where
  "f64_sig x = mag_sig (f64_mag x)"

definition f64_exp :: "f64 \<Rightarrow> int" where
  "f64_exp x = int (mag_exp (f64_mag x)) - 1074"

definition f64_scaled :: "f64 \<Rightarrow> int \<Rightarrow> int" where
  "f64_scaled x e = (if f64_neg x then -1 else 1) * (int (f64_sig x) * 2 ^ nat (f64_exp x - e))"

definition f64_of_sum :: "bool \<Rightarrow> int \<Rightarrow> int \<Rightarrow> f64" where
  "f64_of_sum z s e = (if s = 0 then f64_pack z 0 else f64_round (s < 0) (nat \<bar>s\<bar>) e)"

definition f64_add_at :: "f64 \<Rightarrow> f64 \<Rightarrow> int \<Rightarrow> f64" where
  "f64_add_at x y e = f64_of_sum (f64_neg x \<and> f64_neg y) (f64_scaled x e + f64_scaled y e) e"

definition f64_add :: "f64 \<Rightarrow> f64 \<Rightarrow> f64" where
  "f64_add x y =
     (if f64_is_nan x \<or> f64_is_nan y then f64_nan
      else if f64_is_infinite x then
        (if f64_is_infinite y \<and> f64_neg x \<noteq> f64_neg y then f64_nan else x)
      else if f64_is_infinite y then y
      else f64_add_at x y (min (f64_exp x) (f64_exp y)))"

definition f64_mul :: "f64 \<Rightarrow> f64 \<Rightarrow> f64" where
  "f64_mul x y =
     (if f64_is_nan x \<or> f64_is_nan y then f64_nan
      else if f64_is_infinite x \<or> f64_is_infinite y then
        (if f64_mag x = 0 \<or> f64_mag y = 0 then f64_nan
         else f64_pack (f64_neg x \<noteq> f64_neg y) inf_mag)
      else f64_round (f64_neg x \<noteq> f64_neg y) (f64_sig x * f64_sig y) (f64_exp x + f64_exp y))"

text \<open>
  Quotient and square root are computed to more than 60 digits, with one more digit that
  records whether anything was cut off; that digit breaks every tie the right way.
\<close>

definition div_sticky :: "nat \<Rightarrow> nat \<Rightarrow> nat" where
  "div_sticky n d = 2 * (n div d) + (if n mod d = 0 then 0 else 1)"

definition f64_div :: "f64 \<Rightarrow> f64 \<Rightarrow> f64" where
  "f64_div x y =
     (if f64_is_nan x \<or> f64_is_nan y then f64_nan
      else if f64_is_infinite x then
        (if f64_is_infinite y then f64_nan else f64_pack (f64_neg x \<noteq> f64_neg y) inf_mag)
      else if f64_is_infinite y then f64_pack (f64_neg x \<noteq> f64_neg y) 0
      else if f64_mag y = 0 then
        (if f64_mag x = 0 then f64_nan else f64_pack (f64_neg x \<noteq> f64_neg y) inf_mag)
      else f64_round (f64_neg x \<noteq> f64_neg y)
             (div_sticky (f64_sig x * 2 ^ 120) (f64_sig y)) (f64_exp x - f64_exp y - 121))"

definition isqrt_digit :: "nat \<Rightarrow> nat \<Rightarrow> nat" where
  "isqrt_digit n r = (if (r + 1) * (r + 1) \<le> n then r + 1 else r)"

fun isqrt :: "nat \<Rightarrow> nat" where
  "isqrt n = (if n = 0 then 0 else isqrt_digit n (2 * isqrt (n div 4)))"

declare isqrt.simps [simp del]

definition sqrt_sticky :: "nat \<Rightarrow> nat \<Rightarrow> nat" where
  "sqrt_sticky n r = 2 * r + (if r * r = n then 0 else 1)"

definition sqrt_of :: "nat \<Rightarrow> int \<Rightarrow> f64" where
  "sqrt_of n e = f64_round False (sqrt_sticky n (isqrt n)) (e div 2 - 1)"

definition f64_sqrt :: "f64 \<Rightarrow> f64" where
  "f64_sqrt x =
     (if f64_is_nan x then f64_nan
      else if f64_mag x = 0 then x
      else if f64_neg x then f64_nan
      else if f64_is_infinite x then x
      else if even (f64_exp x) then sqrt_of (f64_sig x * 2 ^ 120) (f64_exp x - 120)
      else sqrt_of (f64_sig x * 2 ^ 121) (f64_exp x - 121))"

definition f64_of_u32 :: "u32 \<Rightarrow> f64" where
  "f64_of_u32 n = f64_round False (unat n) 0"

text \<open>Evaluation on closed patterns.\<close>

lemmas f64_read_eval =
  f64_neg_def f64_mag_def f64_is_nan_def f64_is_infinite_def f64_is_finite_def inf_mag_def
  mag_sig_def mag_exp_def f64_sig_def f64_exp_def f64_ord_def f64_scaled_def

lemmas f64_eval =
  f64_read_eval f64_pack_def f64_nan_def f64_zero_def f64_one_def
  f64_eq_def f64_le_def f64_gt_def
  bitlen.simps round_up_def rne_shift_def round_ulp_def round_at_def round_mag_def f64_round_def
  f64_of_sum_def f64_add_at_def f64_add_def f64_mul_def div_sticky_def f64_div_def
  isqrt_digit_def isqrt.simps sqrt_sticky_def sqrt_of_def f64_sqrt_def f64_of_u32_def

end
