(* ===== verification/F64_Facts.thy ===== *)
theory F64_Facts
  imports F64 Complex_Main
begin

text \<open>
  Facts about the binary64 model. \<open>units n\<close> is the value of magnitude \<open>n\<close> counted in multiples
  of the smallest subnormal \<open>2 powi (-1074)\<close>; it is strictly increasing in \<open>n\<close>. \<open>rounds_to v n\<close>
  says that \<open>n\<close> is the correctly rounded magnitude of the real value \<open>v\<close> (nearest, ties to
  even, infinity from half a unit past the largest finite value on). Every rounding of the
  model satisfies it, rounding is monotone, and exact on representable values.
\<close>

section \<open>Packing and reading\<close>

lemma f64_mag_lt: "f64_mag x < 2 ^ 63"
  by (simp add: f64_mag_def)

lemma unat_pack:
  assumes "m < 2 ^ 63"
  shows "unat (f64_pack s m) = (if s then 2 ^ 63 + m else m)"
proof -
  have "(if s then 2 ^ 63 + m else m) < 2 ^ 64" using assms by auto
  then show ?thesis
    unfolding f64_pack_def unat_of_nat by (simp add: take_bit_nat_eq_self)
qed

lemma mag_pack [simp]: "m < 2 ^ 63 \<Longrightarrow> f64_mag (f64_pack s m) = m"
  by (simp add: f64_mag_def unat_pack)

lemma neg_pack [simp]: "m < 2 ^ 63 \<Longrightarrow> f64_neg (f64_pack s m) = s"
  by (simp add: f64_neg_def unat_pack)

lemma pack_read: "f64_pack (f64_neg x) (f64_mag x) = x"
proof -
  have lt: "unat x < 2 ^ 64" using unsigned_less[of x] by simp
  have "(if f64_neg x then 2 ^ 63 + f64_mag x else f64_mag x) = unat x"
  proof (cases "f64_neg x")
    case True
    with lt have "f64_mag x = unat x - 2 ^ 63"
      unfolding f64_mag_def f64_neg_def by (subst mod_if) simp
    with True show ?thesis by (simp add: f64_neg_def)
  next
    case False
    then show ?thesis by (simp add: f64_mag_def f64_neg_def)
  qed
  then show ?thesis by (simp add: f64_pack_def)
qed

lemma f64_eqI:
  assumes "f64_neg x = f64_neg y" and "f64_mag x = f64_mag y"
  shows "x = y"
proof -
  have "x = f64_pack (f64_neg x) (f64_mag x)" by (rule pack_read[symmetric])
  also have "\<dots> = f64_pack (f64_neg y) (f64_mag y)" by (simp only: assms)
  also have "\<dots> = y" by (rule pack_read)
  finally show ?thesis .
qed

lemma inf_mag_lt [simp]: "inf_mag < 2 ^ 63"
  by (simp add: inf_mag_def)

lemma inf_mag_lt' [simp]: "inf_mag < 9223372036854775808"
  by (simp add: inf_mag_def)

lemma inf_mag_pos [simp]: "0 < inf_mag"
  by (simp add: inf_mag_def)

lemma finite_mag_lt: "m < inf_mag \<Longrightarrow> m < 2 ^ 63"
  by (rule less_trans[OF _ inf_mag_lt])

lemma le_inf_mag_lt: "m \<le> inf_mag \<Longrightarrow> m < 2 ^ 63"
  by (rule le_less_trans[OF _ inf_mag_lt])

lemma round_mag_le: "round_mag m e \<le> inf_mag"
  by (simp add: round_mag_def)

lemma mag_round [simp]: "f64_mag (f64_round s m e) = round_mag m e"
  unfolding f64_round_def by (rule mag_pack) (rule le_inf_mag_lt[OF round_mag_le])

lemma neg_round [simp]: "f64_neg (f64_round s m e) = s"
  unfolding f64_round_def by (rule neg_pack) (rule le_inf_mag_lt[OF round_mag_le])

lemma not_nan_round [simp]: "\<not> f64_is_nan (f64_round s m e)"
  using round_mag_le[of m e] by (simp add: f64_is_nan_def)

lemma finite_simps:
  "f64_is_finite x \<Longrightarrow> \<not> f64_is_nan x"
  "f64_is_finite x \<Longrightarrow> \<not> f64_is_infinite x"
  by (auto simp: f64_is_finite_def f64_is_nan_def f64_is_infinite_def)

lemma finite_iff: "f64_is_finite x \<longleftrightarrow> \<not> f64_is_nan x \<and> \<not> f64_is_infinite x"
  by (auto simp: f64_is_finite_def f64_is_nan_def f64_is_infinite_def)

section \<open>Magnitudes as multiples of the smallest subnormal\<close>

definition units :: "nat \<Rightarrow> nat" where
  "units n = mag_sig n * 2 ^ mag_exp n"

lemma units_at:
  assumes "d \<le> 2 ^ 53" and "q = 0 \<or> 2 ^ 52 \<le> d"
  shows "units (q * 2 ^ 52 + d) = d * 2 ^ q"
proof (cases "d < 2 ^ 52")
  case True
  with assms(2) have "q = 0" by auto
  with True show ?thesis by (simp add: units_def mag_sig_def mag_exp_def)
next
  case ge: False
  show ?thesis
  proof (cases "d = 2 ^ 53")
    case True
    then have n: "q * 2 ^ 52 + d = (q + 2) * 2 ^ 52" by simp
    have "(q + 2) * 2 ^ 52 div 2 ^ 52 = (q + 2 :: nat)" by (rule nonzero_mult_div_cancel_right) simp
    then show ?thesis unfolding n units_def mag_sig_def mag_exp_def
      using True by (simp add: power_add)
  next
    case False
    define f where "f = d - 2 ^ 52"
    have f: "d = 2 ^ 52 + f" "f < 2 ^ 52" using ge False assms(1) by (auto simp: f_def)
    have n: "q * 2 ^ 52 + d = (q + 1) * 2 ^ 52 + f" using f(1) by simp
    have "((q + 1) * 2 ^ 52 + f) div 2 ^ 52 = q + 1"
      by (subst div_mult_self3) (use f(2) in auto)
    moreover have "((q + 1) * 2 ^ 52 + f) mod 2 ^ 52 = f"
      by (subst mod_mult_self3) (use f(2) in auto)
    ultimately show ?thesis unfolding n units_def mag_sig_def mag_exp_def using f by simp
  qed
qed

text \<open>Every magnitude has such a decomposition.\<close>

lemma mag_decompose:
  fixes n :: nat
  obtains q d :: nat where "n = q * 2 ^ 52 + d" "d < 2 ^ 53" "q = 0 \<or> 2 ^ 52 \<le> d"
proof (cases "n < 2 ^ 53")
  case True
  show ?thesis by (rule that[of 0 n]) (use True in auto)
next
  case False
  define q where "q = n div 2 ^ 52 - 1"
  have "1 \<le> n div 2 ^ 52" using False by (simp add: div_greater_zero_iff Suc_leI)
  then have "n div 2 ^ 52 = q + 1" by (simp add: q_def)
  then have n: "n = q * 2 ^ 52 + (2 ^ 52 + n mod 2 ^ 52)"
    using div_mult_mod_eq[of n "2 ^ 52"] by simp
  show ?thesis
    by (rule that[OF n]) (auto intro: order.strict_trans1[OF _ mod_less_divisor])
qed

lemma units_Suc: "units n < units (Suc n)"
proof -
  obtain q d where n: "n = q * 2 ^ 52 + d" "d < 2 ^ 53" "q = 0 \<or> 2 ^ 52 \<le> d"
    by (rule mag_decompose)
  have "units n = d * 2 ^ q" unfolding n(1) by (rule units_at) (use n in auto)
  moreover have "units (Suc n) = Suc d * 2 ^ q"
    using units_at[of "Suc d" q] n by auto
  ultimately show ?thesis by simp
qed

lemma units_strict_mono: "strict_mono units"
  by (simp add: strict_mono_Suc_iff units_Suc)

lemma units_less_iff [simp]: "units m < units n \<longleftrightarrow> m < n"
  by (rule strict_mono_less[OF units_strict_mono])

lemma units_le_iff [simp]: "units m \<le> units n \<longleftrightarrow> m \<le> n"
  by (rule strict_mono_less_eq[OF units_strict_mono])

lemma units_0 [simp]: "units 0 = 0"
  by (simp add: units_def mag_sig_def)

section \<open>Binary length and integer square root\<close>

lemma bitlen_0 [simp]: "bitlen 0 = 0"
  by (simp add: bitlen.simps)

lemma bitlen_bounds: "0 < n \<Longrightarrow> 2 ^ (bitlen n - 1) \<le> n \<and> n < 2 ^ bitlen n \<and> 0 < bitlen n"
proof (induction n rule: bitlen.induct)
  case (1 n)
  have step: "2 ^ (k + bitlen (n div 2 ^ k) - 1) \<le> n \<and> n < 2 ^ (k + bitlen (n div 2 ^ k))"
    if IH: "2 ^ (bitlen (n div 2 ^ k) - 1) \<le> n div 2 ^ k \<and> n div 2 ^ k < 2 ^ bitlen (n div 2 ^ k) \<and> 0 < bitlen (n div 2 ^ k)" for k
  proof -
    let ?b = "bitlen (n div 2 ^ k)"
    have "2 ^ (?b - 1) * 2 ^ k \<le> n div 2 ^ k * 2 ^ k" using IH by simp
    also have "\<dots> \<le> n" by (rule div_times_less_eq_dividend)
    finally have "2 ^ (k + ?b - 1) \<le> n" using IH by (simp add: power_add[symmetric] add.commute)
    moreover have "n < 2 ^ ?b * 2 ^ k"
      using IH by (simp add: div_less_iff_less_mult)
    ultimately show ?thesis by (simp add: power_add mult.commute)
  qed
  show ?case
  proof (cases "2 ^ 32 \<le> n")
    case True
    then have "0 < n div 2 ^ 32" by (simp add: div_greater_zero_iff)
    with 1 True step[of 32] show ?thesis by (simp add: bitlen.simps[of n])
  next
    case False
    show ?thesis
    proof (cases "n = 1")
      case True
      then show ?thesis by (simp add: bitlen.simps)
    next
      case n: False
      with 1 have "0 < n div 2 ^ 1" by (simp add: div_greater_zero_iff)
      with 1 False step[of 1] show ?thesis by (simp add: bitlen.simps[of n])
    qed
  qed
qed

lemma bitlen_unique: "2 ^ k \<le> n \<Longrightarrow> n < 2 ^ Suc k \<Longrightarrow> bitlen n = Suc k"
proof -
  assume a: "2 ^ k \<le> n" "n < 2 ^ Suc k"
  then have "0 < n" by (metis not_gr0 not_le zero_less_numeral zero_less_power)
  from bitlen_bounds[OF this] have b: "2 ^ (bitlen n - 1) \<le> n" "n < 2 ^ bitlen n" "0 < bitlen n"
    by auto
  have "(2::nat) ^ k < 2 ^ bitlen n" "(2::nat) ^ (bitlen n - 1) < 2 ^ Suc k"
    using a b by (meson le_less_trans)+
  then have "k < bitlen n" "bitlen n - 1 < Suc k" by (simp_all only: power_strict_increasing_iff one_less_numeral_iff semiring_norm)
  with b(3) show ?thesis by linarith
qed

lemma isqrt_bounds: "isqrt n * isqrt n \<le> n \<and> n < (isqrt n + 1) * (isqrt n + 1)"
proof (induction n rule: isqrt.induct)
  case (1 n)
  show ?case
  proof (cases "n = 0")
    case True
    then show ?thesis by (simp add: isqrt.simps)
  next
    case False
    let ?r = "isqrt (n div 4)"
    have IH: "?r * ?r \<le> n div 4" "n div 4 < (?r + 1) * (?r + 1)" using 1 False by auto
    have lo: "(2 * ?r) * (2 * ?r) \<le> n" using IH(1) by simp
    have "n div 4 + 1 \<le> (?r + 1) * (?r + 1)" using IH(2) by simp
    then have hi: "n < (2 * ?r + 2) * (2 * ?r + 2)" by simp
    have eq: "isqrt n = isqrt_digit n (2 * ?r)" using False by (simp add: isqrt.simps[of n])
    show ?thesis using lo hi unfolding eq isqrt_digit_def by auto
  qed
qed

section \<open>Correct rounding\<close>

definition rounds_to :: "real \<Rightarrow> nat \<Rightarrow> bool" where
  "rounds_to v n \<longleftrightarrow>
     n \<le> inf_mag \<and>
     (n < inf_mag \<longrightarrow> 2 * v \<le> real (units n) + real (units (Suc n)) \<and>
        (2 * v = real (units n) + real (units (Suc n)) \<longrightarrow> even n)) \<and>
     (0 < n \<longrightarrow> real (units (n - 1)) + real (units n) \<le> 2 * v \<and>
        (real (units (n - 1)) + real (units n) = 2 * v \<longrightarrow> even n))"

lemma even_inf_mag: "even inf_mag"
  by (simp add: inf_mag_def)

lemma rounds_to_mono:
  assumes "v \<le> w" and v: "rounds_to v n" and w: "rounds_to w k"
  shows "n \<le> k"
proof (rule ccontr)
  assume "\<not> n \<le> k"
  then have kn: "k < n" by simp
  then have k: "k < inf_mag" using v by (simp add: rounds_to_def)
  have up: "2 * w \<le> real (units k) + real (units (Suc k))"
    and ek: "2 * w = real (units k) + real (units (Suc k)) \<Longrightarrow> even k"
    using w k by (auto simp: rounds_to_def)
  have lo: "real (units (n - 1)) + real (units n) \<le> 2 * v"
    and en: "real (units (n - 1)) + real (units n) = 2 * v \<Longrightarrow> even n"
    using v kn by (auto simp: rounds_to_def)
  have le: "units k \<le> units (n - 1)" "units (Suc k) \<le> units n" using kn by simp_all
  then have "real (units k) \<le> real (units (n - 1))" "real (units (Suc k)) \<le> real (units n)"
    by (simp_all only: of_nat_le_iff)
  with up lo \<open>v \<le> w\<close> have eq: "units k = units (n - 1)"
    "2 * w = real (units k) + real (units (Suc k))"
    "real (units (n - 1)) + real (units n) = 2 * v" by linarith+
  then have "k = n - 1" using units_le_iff by (metis le_antisym order_refl)
  with ek en eq kn show False by (auto simp: even_Suc)
qed

lemma rounds_to_unique: "rounds_to v n \<Longrightarrow> rounds_to v k \<Longrightarrow> n = k"
  by (meson le_antisym order_refl rounds_to_mono)

lemma rounds_toI:
  assumes "n \<le> inf_mag"
    and "n < inf_mag \<Longrightarrow> 2 * v < real (units n) + real (units (Suc n))"
    and "0 < n \<Longrightarrow> real (units (n - 1)) + real (units n) < 2 * v"
  shows "rounds_to v n"
  using assms by (force simp: rounds_to_def)

lemma rounds_to_exact: "n \<le> inf_mag \<Longrightarrow> rounds_to (real (units n)) n"
proof (rule rounds_toI)
  have "real (units n) < real (units (Suc n))" by (simp only: of_nat_less_iff units_Suc)
  then show "2 * real (units n) < real (units n) + real (units (Suc n))" by linarith
  assume "0 < n"
  then have "real (units (n - 1)) < real (units n)" by simp
  then show "real (units (n - 1)) + real (units n) < 2 * real (units n)" by linarith
qed

lemma rounds_to_inf:
  assumes "real (units (n - 1)) + real (units n) \<le> 2 * v" and "inf_mag < n"
  shows "rounds_to v inf_mag"
proof -
  have "inf_mag - 1 < n - 1" using assms(2) inf_mag_pos by linarith
  then have "units (inf_mag - 1) < units (n - 1)" "units inf_mag < units n"
    using assms(2) by (simp_all only: units_less_iff)
  then have "real (units (inf_mag - 1)) + real (units inf_mag) < real (units (n - 1)) + real (units n)"
    by linarith
  with assms(1) show ?thesis by (simp add: rounds_to_def even_inf_mag)
qed

text \<open>
  The value lies \<open>t\<close> of the way from a magnitude to the next; round up past the middle, and at
  the middle to even.
\<close>

lemma rounds_to_between:
  assumes lo: "real (units n) \<le> v" and hi: "v < real (units (Suc n))"
    and up: "b \<longleftrightarrow> real (units n) + real (units (Suc n)) < 2 * v \<or>
               real (units n) + real (units (Suc n)) = 2 * v \<and> odd n"
  shows "rounds_to v (min inf_mag (if b then Suc n else n))"
proof (cases b)
  case True
  have suc: "real (units (Suc n)) < real (units (Suc (Suc n)))" by (simp only: of_nat_less_iff units_Suc)
  show ?thesis
  proof (cases "Suc n \<le> inf_mag")
    case le: True
    have "2 * v < real (units (Suc n)) + real (units (Suc (Suc n)))" using hi suc by linarith
    with True up le show ?thesis by (auto simp: rounds_to_def)
  next
    case False
    then have "rounds_to v inf_mag"
      by (intro rounds_to_inf[of "Suc n"]) (use True up in auto)
    with True False show ?thesis by simp
  qed
next
  case False
  then have le: "2 * v \<le> real (units n) + real (units (Suc n))"
    and ev: "2 * v = real (units n) + real (units (Suc n)) \<Longrightarrow> even n"
    using up by auto
  have pre: "0 < n \<Longrightarrow> real (units (n - 1)) < real (units n)" by simp
  show ?thesis
  proof (cases "n \<le> inf_mag")
    case True
    have "0 < n \<Longrightarrow> real (units (n - 1)) + real (units n) < 2 * v" using pre lo by linarith
    with True False le ev show ?thesis by (force simp: rounds_to_def)
  next
    case gt: False
    then have "rounds_to v inf_mag"
    proof (intro rounds_to_inf[of n])
      have "0 < n" using gt by simp
      with pre lo show "real (units (n - 1)) + real (units n) \<le> 2 * v" by linarith
    qed (use gt in simp)
    with False gt show ?thesis by simp
  qed
qed

lemma rounds_to_fraction:
  fixes d q :: nat and t :: real
  assumes d: "d < 2 ^ 53" "q = 0 \<or> 2 ^ 52 \<le> d" and t: "0 \<le> t" "t < 1"
    and up: "b \<longleftrightarrow> 1 < 2 * t \<or> 1 = 2 * t \<and> odd d"
  shows "rounds_to ((real d + t) * 2 ^ q) (min inf_mag (q * 2 ^ 52 + (if b then d + 1 else d)))"
proof -
  let ?n = "q * 2 ^ 52 + d" and ?v = "(real d + t) * 2 ^ q"
  have un: "units ?n = d * 2 ^ q" by (rule units_at) (use d in auto)
  have us: "units (Suc ?n) = Suc d * 2 ^ q"
    using units_at[of "Suc d" q] d by auto
  have lo: "real (units ?n) \<le> ?v" unfolding un using t by (simp add: mult_right_mono)
  have "(real d + t) * 2 ^ q < (real d + 1) * 2 ^ q" by (rule mult_strict_right_mono) (use t in auto)
  then have hi: "?v < real (units (Suc ?n))" unfolding us by (simp add: algebra_simps)
  have dif: "2 * ?v - (real (units ?n) + real (units (Suc ?n))) = (2 * t - 1) * 2 ^ q"
    unfolding un us by (simp add: algebra_simps)
  have odd: "odd ?n = odd d" by simp
  have upn: "b \<longleftrightarrow> real (units ?n) + real (units (Suc ?n)) < 2 * ?v \<or>
               real (units ?n) + real (units (Suc ?n)) = 2 * ?v \<and> odd ?n"
  proof -
    have "real (units ?n) + real (units (Suc ?n)) < 2 * ?v \<longleftrightarrow> 0 < (2 * t - 1) * 2 ^ q"
      using dif by linarith
    moreover have "real (units ?n) + real (units (Suc ?n)) = 2 * ?v \<longleftrightarrow> (2 * t - 1) * 2 ^ q = 0"
      using dif by linarith
    ultimately show ?thesis
      unfolding up odd by (auto simp: zero_less_mult_iff)
  qed
  have "(if b then Suc ?n else ?n) = q * 2 ^ 52 + (if b then d + 1 else d)" by simp
  with rounds_to_between[OF lo hi upn] show ?thesis by (simp only:)
qed

lemma rounds_to_0: "rounds_to 0 0"
  using rounds_to_exact[of 0] by simp

theorem round_mag_correct: "rounds_to (real m * 2 powi (e + 1074)) (round_mag m e)"
proof (cases "m = 0")
  case True
  then show ?thesis by (simp add: round_mag_def rounds_to_0)
next
  case m: False
  define u where "u = round_ulp m e"
  define q where "q = nat (u + 1074)"
  have u: "- 1074 \<le> u" "e + int (bitlen m) - 53 \<le> u" "u = -1074 \<or> u = e + int (bitlen m) - 53"
    by (auto simp: u_def round_ulp_def)
  have q: "int q = u + 1074" using u(1) by (simp add: q_def)
  have L: "2 ^ (bitlen m - 1) \<le> m" "m < 2 ^ bitlen m" "0 < bitlen m"
    using bitlen_bounds[of m] m by auto
  show ?thesis
  proof (cases "u \<le> e")
    case True
    define j where "j = nat (e - u)"
    define d where "d = m * 2 ^ j"
    have j: "int j = e - u" using True by (simp add: j_def)
    have "d < 2 ^ bitlen m * 2 ^ j" using L by (simp add: d_def)
    also have "\<dots> \<le> 2 ^ 53" unfolding power_add[symmetric]
      by (rule power_increasing) (use u(2) j in auto)
    finally have d1: "d < 2 ^ 53" .
    have d2: "q = 0 \<or> 2 ^ 52 \<le> d"
    proof (cases "u = -1074")
      case False
      then have "bitlen m - 1 + j = 52" using u j L(3) by linarith
      then have "2 ^ 52 = 2 ^ (bitlen m - 1) * (2 ^ j :: nat)" by (metis power_add)
      also have "\<dots> \<le> d" using L(1) by (simp add: d_def)
      finally show ?thesis by simp
    qed (simp add: q_def)
    have v: "real m * 2 powi (e + 1074) = (real d + 0) * 2 ^ q"
    proof -
      have "e + 1074 = int j + int q" using j q by simp
      then show ?thesis by (simp add: d_def power_int_add)
    qed
    have "round_mag m e = min inf_mag (q * 2 ^ 52 + (if False then d + 1 else d))"
      using m True by (simp add: round_mag_def round_at_def q_def d_def j_def u_def)
    moreover have "rounds_to ((real d + 0) * 2 ^ q) (min inf_mag (q * 2 ^ 52 + (if False then d + 1 else d)))"
      by (rule rounds_to_fraction[OF d1 d2]) simp_all
    ultimately show ?thesis unfolding v by (simp only:)
  next
    case False
    define k where "k = nat (u - e)"
    define d where "d = m div 2 ^ k"
    define r where "r = m mod 2 ^ k"
    have k: "int k = u - e" using False by (simp add: k_def)
    have mk: "m = d * 2 ^ k + r" by (simp only: d_def r_def div_mult_mod_eq)
    have rk: "r < 2 ^ k" by (simp add: r_def)
    have "bitlen m \<le> 53 + k" using u(2) k by linarith
    then have "m < 2 ^ (53 + k)" using L(2) by (meson less_le_trans one_le_numeral power_increasing)
    then have d1: "d < 2 ^ 53" by (simp add: d_def power_add div_less_iff_less_mult)
    have d2: "q = 0 \<or> 2 ^ 52 \<le> d"
    proof (cases "u = -1074")
      case ne: False
      then have "bitlen m - 1 = 52 + k" using u k L(3) by linarith
      then have "2 ^ 52 * 2 ^ k \<le> m" using L(1) by (simp add: power_add)
      then show ?thesis unfolding d_def by (subst less_eq_div_iff_mult_less_eq) simp_all
    qed (simp add: q_def)
    have v: "real m * 2 powi (e + 1074) = (real d + real r / 2 ^ k) * 2 ^ q"
    proof -
      have "e + 1074 = int q - int k" using k q by simp
      then have "2 powi (e + 1074) = (2 :: real) ^ q / 2 ^ k"
        by (simp add: power_int_diff)
      moreover have "real m = real d * 2 ^ k + real r"
        unfolding mk[THEN arg_cong[where f = real]] by simp
      ultimately show ?thesis by (simp add: field_simps)
    qed
    have up: "round_up d r (2 ^ k) \<longleftrightarrow> 1 < 2 * (real r / 2 ^ k) \<or> 1 = 2 * (real r / 2 ^ k) \<and> odd d"
    proof -
      have "1 < 2 * (real r / 2 ^ k) \<longleftrightarrow> real (2 ^ k) < real (2 * r)" by (simp add: field_simps)
      moreover have "1 = 2 * (real r / 2 ^ k) \<longleftrightarrow> real (2 * r) = real (2 ^ k)" by (auto simp: field_simps)
      ultimately show ?thesis unfolding round_up_def of_nat_less_iff of_nat_eq_iff by blast
    qed
    have t: "0 \<le> real r / 2 ^ k" "real r / 2 ^ k < 1"
    proof -
      have "real r < real (2 ^ k)" using rk by (simp only: of_nat_less_iff)
      then show "real r / 2 ^ k < 1" by (simp add: divide_less_eq)
    qed simp
    have "round_mag m e = min inf_mag (q * 2 ^ 52 + (if round_up d r (2 ^ k) then d + 1 else d))"
      using m False by (simp add: round_mag_def round_at_def rne_shift_def q_def d_def r_def k_def u_def)
    then show ?thesis unfolding v using rounds_to_fraction[OF d1 d2 t up] by simp
  qed
qed

section \<open>The operations round the exact results\<close>

lemma mult_shuffle:
  fixes a b c e s t :: real
  assumes "a * b / c = e"
  shows "(s * a) * (t * b) / c = (s * t) * e"
proof -
  have "(s * a) * (t * b) / c = (s * t) * (a * b / c)" by (simp add: mult_ac)
  then show ?thesis by (simp only: assms)
qed

lemma divide_shuffle:
  fixes a b c d e s t :: real
  assumes "a / b * c = d * e"
  shows "(s * a) / (t * b) * c = s / t * d * e"
proof -
  have "(s * a) / (t * b) * c = s / t * (a / b * c)" by simp
  then show ?thesis by (simp only: assms mult.assoc)
qed

text \<open>The number of units in \<open>1.0\<close>.\<close>

definition ONE :: real where
  "ONE = 2 ^ 1074"

lemma ONE_pos [simp]: "0 < ONE"
  by (simp add: ONE_def)

lemma ONE_nonneg [simp]: "0 \<le> ONE"
  by (rule less_imp_le[OF ONE_pos])

lemma ONE_nonzero [simp]: "ONE \<noteq> 0"
  by (simp add: ONE_def)

lemma ONE_powi: "ONE = 2 powi 1074"
  by (simp add: ONE_def)

text \<open>The signed value of a pattern, in units.\<close>

definition f64_int :: "f64 \<Rightarrow> int" where
  "f64_int x = (if f64_neg x then - int (units (f64_mag x)) else int (units (f64_mag x)))"

lemma abs_f64_int: "\<bar>f64_int x\<bar> = int (units (f64_mag x))"
  by (simp add: f64_int_def)

lemma abs_f64_real: "\<bar>real_of_int (f64_int x)\<bar> = real (units (f64_mag x))"
  by (simp add: f64_int_def)

lemma f64_exp_ge: "-1074 \<le> f64_exp x"
  by (simp add: f64_exp_def)

lemma units_sig_exp: "real (units (f64_mag x)) = real (f64_sig x) * 2 powi (f64_exp x + 1074)"
  by (simp add: units_def f64_sig_def f64_exp_def)

lemma f64_scaled_value:
  assumes "e \<le> f64_exp x"
  shows "real_of_int (f64_scaled x e) * 2 powi (e + 1074) = real_of_int (f64_int x)"
proof -
  have p: "(2 :: real) ^ nat (f64_exp x - e) * 2 powi (e + 1074) = 2 powi (f64_exp x + 1074)"
  proof -
    have "(2 :: real) ^ nat (f64_exp x - e) = 2 powi (f64_exp x - e)"
      using assms by (simp add: power_int_def)
    then show ?thesis by (simp add: power_int_add[symmetric])
  qed
  show ?thesis
    unfolding f64_int_def f64_scaled_def
    by (simp add: units_sig_exp[symmetric] p[symmetric] mult.assoc units_sig_exp)
qed

lemma f64_add_correct:
  assumes x: "f64_is_finite x" and y: "f64_is_finite y"
  shows "rounds_to \<bar>real_of_int (f64_int x + f64_int y)\<bar> (f64_mag (f64_add x y))"
    and "f64_neg (f64_add x y) \<longleftrightarrow>
           f64_int x + f64_int y < 0 \<or> f64_int x + f64_int y = 0 \<and> f64_neg x \<and> f64_neg y"
    and "\<not> f64_is_nan (f64_add x y)"
proof -
  define e where "e = min (f64_exp x) (f64_exp y)"
  define s where "s = f64_scaled x e + f64_scaled y e"
  have pos: "(0 :: real) < 2 powi (e + 1074)" by simp
  have val: "real_of_int s * 2 powi (e + 1074) = real_of_int (f64_int x + f64_int y)"
    unfolding s_def of_int_add distrib_right by (simp add: f64_scaled_value e_def)
  have zero: "s = 0 \<longleftrightarrow> f64_int x + f64_int y = 0"
    using val pos by (metis mult_eq_0_iff of_int_eq_0_iff order_less_irrefl)
  have neg: "s < 0 \<longleftrightarrow> f64_int x + f64_int y < 0"
  proof -
    have "real_of_int s * 2 powi (e + 1074) < 0 * 2 powi (e + 1074) \<longleftrightarrow> real_of_int s < 0"
      by (rule mult_less_cancel_right_pos[OF pos])
    then show ?thesis unfolding val mult_zero_left of_int_less_0_iff by blast
  qed
  have add: "f64_add x y = f64_of_sum (f64_neg x \<and> f64_neg y) s e"
    using x y by (simp add: f64_add_def f64_add_at_def finite_simps e_def s_def)
  have abs: "\<bar>real_of_int (f64_int x + f64_int y)\<bar> = real (nat \<bar>s\<bar>) * 2 powi (e + 1074)"
    unfolding val[symmetric] by (simp add: abs_mult)
  show "rounds_to \<bar>real_of_int (f64_int x + f64_int y)\<bar> (f64_mag (f64_add x y))"
    using round_mag_correct[of "nat \<bar>s\<bar>" e] rounds_to_0
    unfolding add f64_of_sum_def abs by (cases "s = 0") simp_all
  show "f64_neg (f64_add x y) \<longleftrightarrow>
           f64_int x + f64_int y < 0 \<or> f64_int x + f64_int y = 0 \<and> f64_neg x \<and> f64_neg y"
    unfolding add f64_of_sum_def zero[symmetric] neg[symmetric] by auto
  show "\<not> f64_is_nan (f64_add x y)"
    unfolding add f64_of_sum_def by (auto simp: f64_is_nan_def[of "f64_pack _ 0"])
qed

lemma f64_mul_correct:
  assumes x: "f64_is_finite x" and y: "f64_is_finite y"
  shows "rounds_to (real (units (f64_mag x)) * real (units (f64_mag y)) / ONE) (f64_mag (f64_mul x y))"
    and "f64_neg (f64_mul x y) \<longleftrightarrow> f64_neg x \<noteq> f64_neg y"
    and "\<not> f64_is_nan (f64_mul x y)"
proof -
  have mul: "f64_mul x y =
      f64_round (f64_neg x \<noteq> f64_neg y) (f64_sig x * f64_sig y) (f64_exp x + f64_exp y)"
    using x y by (simp add: f64_mul_def finite_simps)
  have "(2 :: real) powi (f64_exp x + 1074) * 2 powi (f64_exp y + 1074) / ONE =
        2 powi (f64_exp x + f64_exp y + 1074)"
    unfolding ONE_powi
    by (simp add: power_int_add[symmetric] power_int_diff[symmetric] add_ac del: power_int_numeral)
  then have v: "real (units (f64_mag x)) * real (units (f64_mag y)) / ONE =
        real (f64_sig x * f64_sig y) * 2 powi (f64_exp x + f64_exp y + 1074)"
    unfolding units_sig_exp of_nat_mult by (rule mult_shuffle)
  show "rounds_to (real (units (f64_mag x)) * real (units (f64_mag y)) / ONE) (f64_mag (f64_mul x y))"
    unfolding v mul mag_round by (rule round_mag_correct)
  show "f64_neg (f64_mul x y) \<longleftrightarrow> f64_neg x \<noteq> f64_neg y" "\<not> f64_is_nan (f64_mul x y)"
    by (simp_all only: mul neg_round not_nan_round not_False_eq_True)
qed

lemma f64_zero_simps [simp]:
  "f64_mag f64_zero = 0" "\<not> f64_neg f64_zero" "f64_is_finite f64_zero" "\<not> f64_is_nan f64_zero"
  "f64_int f64_zero = 0"
  by (simp_all add: f64_zero_def f64_mag_def f64_neg_def f64_is_finite_def f64_is_nan_def f64_int_def)

lemma f64_mul_zero_left:
  assumes "f64_is_finite y"
  shows "f64_mul f64_zero y = f64_pack (f64_neg y) 0"
proof (rule f64_eqI)
  have "rounds_to 0 (f64_mag (f64_mul f64_zero y))"
    using f64_mul_correct(1)[OF f64_zero_simps(3) assms] by simp
  then have "f64_mag (f64_mul f64_zero y) = 0"
    using rounds_to_0 rounds_to_unique by blast
  then show "f64_mag (f64_mul f64_zero y) = f64_mag (f64_pack (f64_neg y) 0)" by simp
qed (use f64_mul_correct(2)[OF f64_zero_simps(3) assms] in simp)

text \<open>Adding \<open>+0.0\<close> changes nothing but the sign of a negative zero.\<close>

lemma f64_add_zero_right:
  assumes x: "f64_is_finite x" and nz: "\<not> (f64_mag x = 0 \<and> f64_neg x)"
  shows "f64_add x f64_zero = x"
proof (rule f64_eqI)
  note add = f64_add_correct[OF x f64_zero_simps(3)]
  have "rounds_to (real (units (f64_mag x))) (f64_mag x)"
    by (rule rounds_to_exact) (use x in \<open>simp add: f64_is_finite_def\<close>)
  moreover have "rounds_to (real (units (f64_mag x))) (f64_mag (f64_add x f64_zero))"
    using add(1) by (simp add: abs_f64_real)
  ultimately show "f64_mag (f64_add x f64_zero) = f64_mag x"
    by (blast intro: rounds_to_unique)
  have "units (f64_mag x) = 0 \<longleftrightarrow> f64_mag x = 0"
    using units_le_iff[of "f64_mag x" 0] by (simp del: units_le_iff)
  then show "f64_neg (f64_add x f64_zero) = f64_neg x"
    using nz add(2) by (auto simp: f64_int_def split: if_splits)
qed

section \<open>Division and square root\<close>

text \<open>
  A result cut off after many digits, with a last digit that says whether anything was cut off,
  rounds as the exact result does.
\<close>

lemma round_mag_sticky:
  assumes exact: "even n \<Longrightarrow> w = real n"
    and cut: "odd n \<Longrightarrow> real n - 1 < w \<and> w < real n + 1"
    and big: "2 ^ 56 \<le> n"
  shows "rounds_to (w * 2 powi (e + 1074)) (round_mag n e)"
proof (cases "even n")
  case True
  then show ?thesis using exact round_mag_correct by simp
next
  case False
  define u where "u = round_ulp n e"
  define q where "q = nat (u + 1074)"
  define k where "k = nat (u - e)"
  define d where "d = n div 2 ^ k"
  define r where "r = n mod 2 ^ k"
  have n0: "n \<noteq> 0" using big by auto
  have L: "2 ^ (bitlen n - 1) \<le> n" "n < 2 ^ bitlen n"
    using bitlen_bounds[of n] n0 by auto
  have "(2 :: nat) ^ 56 < 2 ^ bitlen n" using big L(2) by linarith
  then have L57: "57 \<le> bitlen n" by (simp only: power_strict_increasing_iff one_less_numeral_iff semiring_norm)
  have u: "- 1074 \<le> u" "e + int (bitlen n) - 53 \<le> u" "u = -1074 \<or> u = e + int (bitlen n) - 53"
    by (auto simp: u_def round_ulp_def)
  have q: "int q = u + 1074" using u(1) by (simp add: q_def)
  have ku: "int k = u - e" "4 \<le> k" using u(2) L57 by (auto simp: k_def)
  have mk: "n = d * 2 ^ k + r" by (simp only: d_def r_def div_mult_mod_eq)
  have rk: "r < 2 ^ k" by (simp add: r_def)
  obtain h :: nat where h: "2 ^ k = 4 * h"
    using ku(2) le_imp_power_dvd[of 2 k "2 :: nat"] by (auto elim!: dvdE)
  have odd_r: "odd r" using False mk h by simp
  have r2: "r \<noteq> 2 * h" "r + 1 \<le> 4 * h" "1 \<le> r" using odd_r rk h by (auto intro: Suc_leI odd_pos)
  define t where "t = (w - real d * 2 ^ k) / 2 ^ k"
  have twk: "t * 2 ^ k = w - real d * 2 ^ k" by (simp add: t_def)
  have nr: "real n = real d * 2 ^ k + real r" unfolding mk[THEN arg_cong[where f = real]] by simp
  have hr: "(2 :: real) ^ k = 4 * real h"
    using h[THEN arg_cong[where f = real]] by simp
  have tb: "real r - 1 < t * 2 ^ k" "t * 2 ^ k < real r + 1"
    using cut[OF False] by (auto simp: twk nr)
  have hpos: "0 < 4 * real h" using r2 by (cases h) auto
  note cancel = mult_less_cancel_right_pos[OF hpos]
  have d1: "d < 2 ^ 53"
  proof -
    have "bitlen n \<le> 53 + k" using u(2) ku by linarith
    then have "n < 2 ^ (53 + k)" using L(2) by (meson less_le_trans one_le_numeral power_increasing)
    then show ?thesis by (simp add: d_def power_add div_less_iff_less_mult)
  qed
  have d2: "q = 0 \<or> 2 ^ 52 \<le> d"
  proof (cases "u = -1074")
    case ne: False
    then have "bitlen n - 1 = 52 + k" using u ku L57 by linarith
    then have "2 ^ 52 * 2 ^ k \<le> n" using L(1) by (simp add: power_add)
    then show ?thesis unfolding d_def by (subst less_eq_div_iff_mult_less_eq) simp_all
  qed (simp add: q_def)
  have t01: "0 \<le> t" "t < 1"
  proof -
    have "real r + 1 \<le> 4 * real h" "1 \<le> real r" using r2(2,3) by linarith+
    then have lo: "0 < t * (4 * real h)" and hi: "t * (4 * real h) < 1 * (4 * real h)"
      using tb unfolding hr by linarith+
    show "0 \<le> t" using lo hpos by (simp add: zero_less_mult_iff)
    show "t < 1" using hi unfolding cancel .
  qed
  have up: "round_up d r (2 ^ k) \<longleftrightarrow> 1 < 2 * t \<or> 1 = 2 * t \<and> odd d"
  proof (cases "2 * h < r")
    case True
    then have "1 / 2 * (4 * real h) < t * (4 * real h)" using tb unfolding hr by linarith
    then have "1 / 2 < t" unfolding cancel .
    with True show ?thesis unfolding round_up_def h by simp
  next
    case lt: False
    with r2(1) have "r + 1 \<le> 2 * h" by linarith
    then have "t * (4 * real h) < 1 / 2 * (4 * real h)" using tb unfolding hr by linarith
    then have "t < 1 / 2" unfolding cancel .
    with lt r2(1) show ?thesis unfolding round_up_def h by auto
  qed
  have v: "w * 2 powi (e + 1074) = (real d + t) * 2 ^ q"
  proof -
    have "e + 1074 = int q - int k" using ku q by simp
    then have "2 powi (e + 1074) = (2 :: real) ^ q / 2 ^ k" by (simp add: power_int_diff)
    moreover have "w = (real d + t) * 2 ^ k" using twk by (simp add: algebra_simps)
    ultimately show ?thesis by simp
  qed
  have "round_mag n e = min inf_mag (q * 2 ^ 52 + (if round_up d r (2 ^ k) then d + 1 else d))"
    using n0 ku by (simp add: round_mag_def round_at_def rne_shift_def q_def d_def r_def k_def u_def)
  then show ?thesis unfolding v using rounds_to_fraction[OF d1 d2 t01 up] by simp
qed

lemma f64_sig_pos: "f64_mag x \<noteq> 0 \<Longrightarrow> 0 < f64_sig x"
  by (simp add: f64_sig_def mag_sig_def)

lemma f64_sig_lt: "f64_sig x < 2 ^ 53"
proof -
  have "f64_mag x mod 2 ^ 52 < (2 ^ 52 :: nat)" by simp
  then show ?thesis unfolding f64_sig_def mag_sig_def by auto
qed

lemma f64_div_correct:
  assumes x: "f64_is_finite x" and y: "f64_is_finite y" and y0: "f64_mag y \<noteq> 0"
  shows "rounds_to (real (units (f64_mag x)) / real (units (f64_mag y)) * ONE) (f64_mag (f64_div x y))"
    and "\<not> f64_is_nan (f64_div x y)"
proof -
  let ?s = "f64_sig x" and ?d = "f64_sig y" and ?e = "f64_exp x - f64_exp y - 121"
  let ?n = "?s * 2 ^ 120"
  have div: "f64_div x y = f64_round (f64_neg x \<noteq> f64_neg y) (div_sticky ?n ?d) ?e"
    using x y y0 by (simp add: f64_div_def finite_simps)
  have d0: "0 < ?d" using y0 by (rule f64_sig_pos)
  define w where "w = 2 * (real ?n / real ?d)"
  have v: "real (units (f64_mag x)) / real (units (f64_mag y)) * ONE = w * 2 powi (?e + 1074)"
  proof -
    have a: "(2 :: real) powi (f64_exp x + 1074) / 2 powi (f64_exp y + 1074) * ONE =
          2 powi 121 * 2 powi (?e + 1074)"
      unfolding ONE_powi
      by (simp add: power_int_add[symmetric] power_int_diff[symmetric] add.commute del: power_int_numeral)
    have b: "w = real ?s / real ?d * 2 powi 121" by (simp add: w_def field_simps)
    from divide_shuffle[OF a] show ?thesis unfolding units_sig_exp b .
  qed
  have qr: "real ?n = real (?n div ?d) * real ?d + real (?n mod ?d)"
    by (metis div_mult_mod_eq of_nat_add of_nat_mult)
  have "rounds_to (w * 2 powi (?e + 1074)) (round_mag (div_sticky ?n ?d) ?e)"
  proof (cases "?s = 0")
    case True
    then show ?thesis by (simp add: w_def div_sticky_def round_mag_def rounds_to_0)
  next
    case False
    show ?thesis
    proof (rule round_mag_sticky)
      assume "even (div_sticky ?n ?d)"
      then have "?n mod ?d = 0" by (simp add: div_sticky_def split: if_splits)
      with qr d0 show "w = real (div_sticky ?n ?d)"
        by (simp add: w_def div_sticky_def field_simps)
    next
      assume "odd (div_sticky ?n ?d)"
      then have r: "0 < ?n mod ?d" by (simp add: div_sticky_def split: if_splits)
      have "?n mod ?d < ?d" using d0 by simp
      then have "real (?n mod ?d) < real ?d" by (simp only: of_nat_less_iff)
      then have "real (?n div ?d) < real ?n / real ?d" "real ?n / real ?d < real (?n div ?d) + 1"
        using r d0 qr by (simp_all add: field_simps)
      then show "real (div_sticky ?n ?d) - 1 < w \<and> w < real (div_sticky ?n ?d) + 1"
        using r by (simp add: w_def div_sticky_def)
    next
      have "2 ^ 67 * ?d \<le> 2 ^ 67 * 2 ^ 53" using f64_sig_lt[of y] by simp
      also have "\<dots> \<le> ?n" using False by simp
      finally have "2 ^ 67 \<le> ?n div ?d" by (subst less_eq_div_iff_mult_less_eq) (use d0 in auto)
      then show "2 ^ 56 \<le> div_sticky ?n ?d" by (simp add: div_sticky_def)
    qed
  qed
  then show "rounds_to (real (units (f64_mag x)) / real (units (f64_mag y)) * ONE) (f64_mag (f64_div x y))"
    unfolding v div mag_round .
  show "\<not> f64_is_nan (f64_div x y)" unfolding div by simp
qed

lemma sqrt_of_correct:
  assumes n: "2 ^ 120 \<le> n" and e: "even e"
  shows "rounds_to (sqrt (real n * 2 powi (e + 2148))) (f64_mag (sqrt_of n e))"
proof -
  let ?r = "isqrt n"
  have r: "?r * ?r \<le> n" "n < (?r + 1) * (?r + 1)" using isqrt_bounds[of n] by auto
  have lo: "real ?r \<le> sqrt (real n)"
  proof (rule real_le_rsqrt)
    have "real (?r * ?r) \<le> real n" using r(1) by (simp only: of_nat_le_iff)
    then show "(real ?r)\<^sup>2 \<le> real n" by (simp add: power2_eq_square)
  qed
  have hi: "sqrt (real n) < real ?r + 1"
  proof -
    have "real n < (real ?r + 1)\<^sup>2"
    proof -
      have "real n < real ((?r + 1) * (?r + 1))" using r(2) by (simp only: of_nat_less_iff)
      then show ?thesis by (simp only: power2_eq_square of_nat_mult of_nat_add of_nat_1)
    qed
    then show ?thesis by (simp add: real_less_lsqrt)
  qed
  obtain j where j: "e = 2 * j" using e by (elim evenE)
  have ed: "e div 2 - 1 + 1074 = j + 1073" by (simp add: j)
  have v: "sqrt (real n * 2 powi (e + 2148)) = 2 * sqrt (real n) * 2 powi (e div 2 - 1 + 1074)"
  proof -
    have dbl: "e + 2148 = (j + 1074) + (j + 1074)" by (simp add: j)
    have "(2 :: real) powi (e + 2148) = 2 powi (j + 1074) * 2 powi (j + 1074)"
      unfolding dbl by (rule power_int_add) simp
    then have "sqrt (real n * 2 powi (e + 2148)) = sqrt (real n) * 2 powi (j + 1074)"
      by (simp add: real_sqrt_mult)
    moreover have "(2 :: real) powi (j + 1074) = 2 * 2 powi (j + 1073)"
      using power_int_add[of "2 :: real" 1 "j + 1073"] by (simp add: add_ac)
    ultimately show ?thesis unfolding ed by simp
  qed
  have "rounds_to (2 * sqrt (real n) * 2 powi (e div 2 - 1 + 1074)) (round_mag (sqrt_sticky n ?r) (e div 2 - 1))"
  proof (rule round_mag_sticky)
    assume "even (sqrt_sticky n ?r)"
    then have "?r * ?r = n" by (simp add: sqrt_sticky_def split: if_splits)
    then have "sqrt (real n) = real ?r"
      by (metis abs_of_nat of_nat_mult real_sqrt_abs2)
    with \<open>?r * ?r = n\<close> show "2 * sqrt (real n) = real (sqrt_sticky n ?r)"
      by (simp add: sqrt_sticky_def)
  next
    assume "odd (sqrt_sticky n ?r)"
    then have ne: "?r * ?r \<noteq> n" by (simp add: sqrt_sticky_def split: if_splits)
    have "real ?r \<noteq> sqrt (real n)"
    proof
      assume "real ?r = sqrt (real n)"
      then have "real (?r * ?r) = real n" by simp
      then show False using ne by (simp only: of_nat_eq_iff)
    qed
    with lo hi ne show "real (sqrt_sticky n ?r) - 1 < 2 * sqrt (real n) \<and>
        2 * sqrt (real n) < real (sqrt_sticky n ?r) + 1"
      by (simp add: sqrt_sticky_def)
  next
    have "(2 ^ 60) * (2 ^ 60) = (2 ^ 120 :: nat)" by simp
    also have "\<dots> < (?r + 1) * (?r + 1)" by (rule le_less_trans[OF n r(2)])
    finally have "2 ^ 60 < ?r + 1" by (meson mult_le_mono not_le)
    then show "2 ^ 56 \<le> sqrt_sticky n ?r" by (simp add: sqrt_sticky_def)
  qed
  then show ?thesis unfolding v sqrt_of_def mag_round .
qed

lemma f64_sqrt_correct:
  assumes x: "f64_is_finite x" and x0: "f64_mag x \<noteq> 0" and pos: "\<not> f64_neg x"
  shows "rounds_to (sqrt (real (units (f64_mag x)) * ONE)) (f64_mag (f64_sqrt x))"
    and "\<not> f64_is_nan (f64_sqrt x)" and "\<not> f64_neg (f64_sqrt x)"
proof -
  define k :: nat where "k = (if even (f64_exp x) then 120 else 121)"
  let ?n = "f64_sig x * 2 ^ k" and ?e = "f64_exp x - int k"
  have sqrt: "f64_sqrt x = sqrt_of ?n ?e"
    using x x0 pos by (simp add: f64_sqrt_def finite_simps k_def)
  have "even ?e" by (simp add: k_def)
  moreover have "2 ^ 120 \<le> ?n"
  proof -
    have "(2 :: nat) ^ 120 \<le> 2 ^ k" by (rule power_increasing) (auto simp: k_def)
    also have "\<dots> \<le> ?n" using f64_sig_pos[OF x0] by simp
    finally show ?thesis .
  qed
  moreover have "real ?n * 2 powi (?e + 2148) = real (units (f64_mag x)) * ONE"
  proof -
    have "(2 :: real) powi int k * 2 powi (?e + 2148) = 2 powi (f64_exp x + 1074) * ONE"
      unfolding ONE_powi
      by (simp add: power_int_add[symmetric] add.commute del: power_int_numeral power_int_of_nat)
    then show ?thesis unfolding units_sig_exp by simp
  qed
  ultimately show "rounds_to (sqrt (real (units (f64_mag x)) * ONE)) (f64_mag (f64_sqrt x))"
    using sqrt_of_correct[of ?n ?e] unfolding sqrt by simp
  show "\<not> f64_is_nan (f64_sqrt x)" "\<not> f64_neg (f64_sqrt x)"
    by (simp_all add: sqrt sqrt_of_def)
qed

end
