(* ===== verification/Sim.thy ===== *)
theory Sim
  imports F64_Facts
begin

text \<open>
  The Simulation Core, \<^verbatim>\<open>crates/sim/src/lib.rs\<close>: the world and its characters, spawning,
  \<^verbatim>\<open>advance\<close> with the movement model, and the state digest (ADR-0007). \<open>Option\<close>al and panicking
  paths are explicit: \<^verbatim>\<open>World::new\<close>, \<^verbatim>\<open>spawn_character\<close> and \<^verbatim>\<open>advance\<close> return an \<open>outcome\<close>.
  The locale \<open>sim_core\<close> is the interface through which the server and the replay verifier use a
  world.
\<close>

section \<open>Data\<close>

type_synonym Tick = u64
type_synonym PlayerId = u8
type_synonym EntityId = u64

type_synonym vec2 = "f64 \<times> f64"

record StepInput =
  si_player_id :: PlayerId
  si_move_dir :: vec2

record EntitySnapshot =
  es_entity_id :: EntityId
  es_position :: vec2
  es_velocity :: vec2

record Baseline =
  bl_tick :: Tick
  bl_entities :: "EntitySnapshot list"
  bl_digest :: u64

record Snapshot =
  sn_tick :: Tick
  sn_entities :: "EntitySnapshot list"
  sn_digest :: u64

definition MOVE_SPEED :: f64 where
  "MOVE_SPEED = 0x4014000000000000" \<comment> \<open>the bits of \<open>5.0\<close>\<close>

definition STATE_DIGEST_ALGO_ID :: string where
  "STATE_DIGEST_ALGO_ID = ''statedigest-v0-fnv1a64-le-f64canon-eidasc-posvel''"

record Character =
  ch_entity_id :: EntityId
  ch_player_id :: PlayerId
  ch_position :: vec2
  ch_velocity :: vec2

record World =
  w_tick :: Tick
  w_tick_rate_hz :: u32
  w_dt_seconds :: f64
  w_characters :: "Character list"
  w_next_entity_id :: EntityId
  w_seed :: u64

section \<open>StateDigest\<close>

unbundle bit_operations_syntax

definition FNV1A_OFFSET_BASIS :: u64 where
  "FNV1A_OFFSET_BASIS = 0xcbf29ce484222325"

definition FNV1A_PRIME :: u64 where
  "FNV1A_PRIME = 0x100000001b3"

record Fnv1a64 =
  fnv_state :: u64

definition Fnv1a64_new :: Fnv1a64 where
  "Fnv1a64_new = \<lparr>fnv_state = FNV1A_OFFSET_BASIS\<rparr>"

definition Fnv1a64_update :: "Fnv1a64 \<Rightarrow> bytes \<Rightarrow> Fnv1a64" where
  "Fnv1a64_update h bs =
     fold (\<lambda>b h. h\<lparr>fnv_state := (fnv_state h XOR ucast b) * FNV1A_PRIME\<rparr>) bs h"

definition Fnv1a64_finish :: "Fnv1a64 \<Rightarrow> u64" where
  "Fnv1a64_finish h = fnv_state h"

definition to_le_bytes :: "u64 \<Rightarrow> bytes" where
  "to_le_bytes w = map (\<lambda>i. ucast (drop_bit (8 * i) w)) [0..<8]"

definition QUIET_NAN_BITS :: u64 where
  "QUIET_NAN_BITS = 0x7ff8000000000000"

definition canonicalize_f64 :: "f64 \<Rightarrow> u64" where
  "canonicalize_f64 value =
     (if f64_is_nan value then QUIET_NAN_BITS
      else if f64_eq value f64_zero then 0
      else value)"

section \<open>Characters\<close>

definition Character_new :: "EntityId \<Rightarrow> PlayerId \<Rightarrow> Character" where
  "Character_new entity_id player_id =
     \<lparr>ch_entity_id = entity_id, ch_player_id = player_id,
      ch_position = (f64_zero, f64_zero), ch_velocity = (f64_zero, f64_zero)\<rparr>"

definition to_snapshot :: "Character \<Rightarrow> EntitySnapshot" where
  "to_snapshot c =
     \<lparr>es_entity_id = ch_entity_id c, es_position = ch_position c, es_velocity = ch_velocity c\<rparr>"

definition clamp_magnitude :: "vec2 \<Rightarrow> f64 \<Rightarrow> vec2" where
  "clamp_magnitude v max_magnitude =
     (let magnitude_sq = f64_add (f64_mul (fst v) (fst v)) (f64_mul (snd v) (snd v));
          max_sq = f64_mul max_magnitude max_magnitude
      in if f64_le magnitude_sq max_sq then v
         else let magnitude = f64_sqrt magnitude_sq;
                  scale = f64_div max_magnitude magnitude
              in (f64_mul (fst v) scale, f64_mul (snd v) scale))"

section \<open>World\<close>

definition World_new :: "u64 \<Rightarrow> u32 \<Rightarrow> World outcome" where
  "World_new seed tick_rate_hz =
     (if 0 < tick_rate_hz then
        Done \<lparr>w_tick = 0, w_tick_rate_hz = tick_rate_hz,
              w_dt_seconds = f64_div f64_one (f64_of_u32 tick_rate_hz),
              w_characters = [], w_next_entity_id = 1, w_seed = seed\<rparr>
      else Panic TickRateNotPositive)"

definition spawn_character :: "profile \<Rightarrow> World \<Rightarrow> PlayerId \<Rightarrow> (World \<times> EntityId) outcome" where
  "spawn_character p w player_id =
     (let entity_id = w_next_entity_id w in
      obind (checked_plus p (w_next_entity_id w) 1) (\<lambda>next_entity_id.
        let w = w\<lparr>w_next_entity_id := next_entity_id\<rparr>;
            characters = w_characters w @ [Character_new entity_id player_id];
            w = w\<lparr>w_characters := sort_key ch_entity_id characters\<rparr>
        in Done (w, entity_id)))"

definition sorted_entity_snapshots :: "World \<Rightarrow> EntitySnapshot list" where
  "sorted_entity_snapshots w = map to_snapshot (w_characters w)"

definition hash_character :: "Character \<Rightarrow> Fnv1a64 \<Rightarrow> Fnv1a64" where
  "hash_character c h0 =
     (let h1 = Fnv1a64_update h0 (to_le_bytes (ch_entity_id c));
          h2 = Fnv1a64_update h1 (to_le_bytes (canonicalize_f64 (fst (ch_position c))));
          h3 = Fnv1a64_update h2 (to_le_bytes (canonicalize_f64 (snd (ch_position c))));
          h4 = Fnv1a64_update h3 (to_le_bytes (canonicalize_f64 (fst (ch_velocity c))))
      in Fnv1a64_update h4 (to_le_bytes (canonicalize_f64 (snd (ch_velocity c)))))"

definition state_digest :: "World \<Rightarrow> u64" where
  "state_digest w =
     (let hasher = Fnv1a64_update Fnv1a64_new (to_le_bytes (w_tick w));
          hasher = fold hash_character (w_characters w) hasher
      in Fnv1a64_finish hasher)"

definition baseline :: "World \<Rightarrow> Baseline" where
  "baseline w =
     \<lparr>bl_tick = w_tick w, bl_entities = sorted_entity_snapshots w, bl_digest = state_digest w\<rparr>"

text \<open>\<^verbatim>\<open>iter_mut().find(..)\<close> followed by a mutation: only the first match changes.\<close>

fun update_first :: "('a \<Rightarrow> bool) \<Rightarrow> ('a \<Rightarrow> 'a) \<Rightarrow> 'a list \<Rightarrow> 'a list" where
  "update_first P f [] = []"
| "update_first P f (x # xs) = (if P x then f x # xs else x # update_first P f xs)"

definition move_character :: "f64 \<Rightarrow> vec2 \<Rightarrow> Character \<Rightarrow> Character" where
  "move_character dt_seconds input_dir c =
     (let move_dir = clamp_magnitude input_dir f64_one;
          vx = f64_mul (fst move_dir) MOVE_SPEED;
          vy = f64_mul (snd move_dir) MOVE_SPEED;
          px = f64_add (fst (ch_position c)) (f64_mul vx dt_seconds);
          py = f64_add (snd (ch_position c)) (f64_mul vy dt_seconds)
      in c\<lparr>ch_velocity := (vx, vy), ch_position := (px, py)\<rparr>)"

definition apply_movement :: "StepInput \<Rightarrow> World \<Rightarrow> World" where
  "apply_movement input w =
     w\<lparr>w_characters :=
         update_first (\<lambda>c. ch_player_id c = si_player_id input)
           (move_character (w_dt_seconds w) (si_move_dir input)) (w_characters w)\<rparr>"

definition advance :: "profile \<Rightarrow> World \<Rightarrow> Tick \<Rightarrow> StepInput list \<Rightarrow> (World \<times> Snapshot) outcome" where
  "advance p w tick step_inputs =
     (if tick \<noteq> w_tick w then Panic (TickMismatch (w_tick w) tick)
      else if p = Dev \<and> \<not> sorted (map si_player_id step_inputs) then Panic StepInputsUnsorted
      else let w = fold apply_movement step_inputs w in
        obind (checked_plus p (w_tick w) 1) (\<lambda>tick'.
          let w = w\<lparr>w_tick := tick'\<rparr>
          in Done (w, \<lparr>sn_tick = w_tick w, sn_entities = sorted_entity_snapshots w,
                       sn_digest = state_digest w\<rparr>)))"

section \<open>Canonical float bits\<close>

lemma f64_eq_zero_iff: "f64_eq x f64_zero \<longleftrightarrow> \<not> f64_is_nan x \<and> f64_mag x = 0"
  by (auto simp: f64_eq_def f64_ord_def)

lemma f64_eq_iff:
  assumes "\<not> f64_is_nan x" and "\<not> f64_is_nan y"
  shows "f64_eq x y \<longleftrightarrow> x = y \<or> f64_mag x = 0 \<and> f64_mag y = 0"
  using assms by (auto simp: f64_eq_def f64_ord_def intro: f64_eqI split: if_splits)

lemma quiet_nan_is_nan: "f64_is_nan QUIET_NAN_BITS"
  by (simp add: QUIET_NAN_BITS_def f64_read_eval)

lemma canonicalize_cases:
  "f64_is_nan x \<Longrightarrow> canonicalize_f64 x = QUIET_NAN_BITS"
  "\<not> f64_is_nan x \<Longrightarrow> f64_mag x = 0 \<Longrightarrow> canonicalize_f64 x = 0"
  "\<not> f64_is_nan x \<Longrightarrow> f64_mag x \<noteq> 0 \<Longrightarrow> canonicalize_f64 x = x"
  by (simp_all add: canonicalize_f64_def f64_eq_zero_iff)

lemma canonicalize_same_class:
  "f64_is_nan (canonicalize_f64 x) \<longleftrightarrow> f64_is_nan x"
  "f64_mag (canonicalize_f64 x) = 0 \<longleftrightarrow> f64_mag x = 0"
proof -
  have "f64_mag 0 = 0" "\<not> f64_is_nan 0" using f64_zero_simps by (simp_all add: f64_zero_def)
  moreover have "f64_is_nan x \<Longrightarrow> f64_mag x \<noteq> 0" "f64_mag QUIET_NAN_BITS \<noteq> 0"
    using quiet_nan_is_nan by (auto simp: f64_is_nan_def)
  ultimately show "f64_is_nan (canonicalize_f64 x) \<longleftrightarrow> f64_is_nan x"
    and "f64_mag (canonicalize_f64 x) = 0 \<longleftrightarrow> f64_mag x = 0"
    by (cases "f64_is_nan x"; cases "f64_mag x = 0"; simp add: canonicalize_cases quiet_nan_is_nan)+
qed

lemma canonicalize_zero [simp]: "canonicalize_f64 0 = 0"
  by (simp add: canonicalize_f64_def f64_eq_def f64_zero_def f64_read_eval)

lemma canonicalize_idem [simp]: "canonicalize_f64 (canonicalize_f64 x) = canonicalize_f64 x"
proof (cases "f64_is_nan x")
  case True
  then show ?thesis by (simp add: canonicalize_cases quiet_nan_is_nan)
next
  case False
  then show ?thesis
    by (cases "f64_mag x = 0") (simp_all add: canonicalize_cases canonicalize_same_class)
qed

lemma canonicalize_eq_iff:
  "canonicalize_f64 x = canonicalize_f64 y \<longleftrightarrow> f64_is_nan x \<and> f64_is_nan y \<or> f64_eq x y"
proof (cases "f64_is_nan x \<or> f64_is_nan y")
  case True
  then show ?thesis
    by (metis canonicalize_cases(1) canonicalize_same_class(1) f64_eq_def)
next
  case False
  then have n: "\<not> f64_is_nan x" "\<not> f64_is_nan y" by auto
  then show ?thesis
    by (metis canonicalize_cases(2,3) canonicalize_same_class(2) f64_eq_iff)
qed

section \<open>The byte hasher\<close>

text \<open>
  The digest feeds the hasher field by field. An incremental hasher gives the same result for
  every way of cutting its input into pieces, which is what makes the digest a function of one
  byte string.
\<close>

locale byte_hasher =
  fixes update :: "'h \<Rightarrow> bytes \<Rightarrow> 'h"
  assumes update_nil: "update h [] = h"
    and update_append: "update h (xs @ ys) = update (update h xs) ys"
begin

lemma update_pieces: "fold (\<lambda>c h. update h (enc c)) cs h = update h (concat (map enc cs))"
  by (induction cs arbitrary: h) (simp_all add: update_nil update_append)

end

interpretation fnv: byte_hasher Fnv1a64_update
  by unfold_locales (simp_all add: Fnv1a64_update_def)

definition fnv_byte :: "u64 \<Rightarrow> 8 word \<Rightarrow> u64" where
  "fnv_byte s b = (s XOR ucast b) * FNV1A_PRIME"

lemma Fnv1a64_update_state: "fnv_state (Fnv1a64_update h bs) = foldl fnv_byte (fnv_state h) bs"
  unfolding Fnv1a64_update_def by (induction bs arbitrary: h) (simp_all add: fnv_byte_def)

text \<open>The reference: FNV-1a of a whole byte string, as its published definition reads.\<close>

definition fnv1a64 :: "bytes \<Rightarrow> u64" where
  "fnv1a64 bs = foldl fnv_byte 0xcbf29ce484222325 bs"

lemma finish_update_new: "Fnv1a64_finish (Fnv1a64_update Fnv1a64_new bs) = fnv1a64 bs"
  by (simp add: Fnv1a64_finish_def Fnv1a64_update_state Fnv1a64_new_def fnv1a64_def
      FNV1A_OFFSET_BASIS_def)

text \<open>The prime is odd, so one round is a bijection of the state, and injective in the byte.\<close>

lemma prime_mult_inject [simp]: "x * FNV1A_PRIME = y * FNV1A_PRIME \<longleftrightarrow> x = y"
proof
  have inv: "FNV1A_PRIME * 0xce965057aff6957b = 1" by (simp add: FNV1A_PRIME_def)
  assume "x * FNV1A_PRIME = y * FNV1A_PRIME"
  then have "x * (FNV1A_PRIME * 0xce965057aff6957b) = y * (FNV1A_PRIME * 0xce965057aff6957b)"
    by (simp only: mult.assoc[symmetric])
  then show "x = y" by (simp add: inv)
qed simp

lemma xor_right_cancel [simp]: "(a XOR c) = (b XOR c) \<longleftrightarrow> a = b" for a b c :: "'a::len word"
  by (metis xor.assoc xor_self_eq xor.right_neutral)

lemma xor_left_cancel [simp]: "(c XOR a) = (c XOR b) \<longleftrightarrow> a = b" for a b c :: "'a::len word"
  by (metis xor.commute xor_right_cancel)

lemma fnv_byte_state_inject [simp]: "fnv_byte s b = fnv_byte t b \<longleftrightarrow> s = t"
  by (simp add: fnv_byte_def)

lemma ucast_byte_inject [simp]: "(ucast a :: u64) = ucast b \<longleftrightarrow> a = b" for a b :: "8 word"
  by transfer simp

lemma fnv_byte_inject [simp]: "fnv_byte s b = fnv_byte s c \<longleftrightarrow> b = c"
  by (simp add: fnv_byte_def)

lemma fnv_rest_inject: "foldl fnv_byte s bs = foldl fnv_byte t bs \<longleftrightarrow> s = t"
  by (induction bs arbitrary: s t) simp_all

lemma fnv1a64_one_byte: "fnv1a64 (xs @ b # ys) = fnv1a64 (xs @ c # ys) \<longleftrightarrow> b = c"
  by (simp add: fnv1a64_def fnv_rest_inject)

section \<open>The digested byte string\<close>

lemma length_to_le_bytes [simp]: "length (to_le_bytes w) = 8"
  by (simp add: to_le_bytes_def)

lemma bit_to_le_bytes: "n < 64 \<Longrightarrow> bit (to_le_bytes w ! (n div 8)) (n mod 8) = bit w n"
proof -
  assume "n < 64"
  then have "n div 8 < 8" by simp
  then have "[0..<8] ! (n div 8) = n div 8" by simp
  then show ?thesis using \<open>n div 8 < 8\<close> by (simp add: to_le_bytes_def bit_ucast_iff bit_drop_bit_eq)
qed

lemma to_le_bytes_inject [simp]: "to_le_bytes v = to_le_bytes w \<longleftrightarrow> v = w"
proof
  assume eq: "to_le_bytes v = to_le_bytes w"
  show "v = w"
  proof (rule bit_word_eqI)
    fix n
    assume "n < LENGTH(64)"
    then show "bit v n = bit w n" using bit_to_le_bytes[of n v] bit_to_le_bytes[of n w] eq by simp
  qed
qed simp

definition digest_fields :: "Character \<Rightarrow> u64 list" where
  "digest_fields c =
     [ch_entity_id c,
      canonicalize_f64 (fst (ch_position c)), canonicalize_f64 (snd (ch_position c)),
      canonicalize_f64 (fst (ch_velocity c)), canonicalize_f64 (snd (ch_velocity c))]"

definition character_bytes :: "Character \<Rightarrow> bytes" where
  "character_bytes c = concat (map to_le_bytes (digest_fields c))"

definition world_bytes :: "World \<Rightarrow> bytes" where
  "world_bytes w = to_le_bytes (w_tick w) @ concat (map character_bytes (w_characters w))"

lemma length_character_bytes: "length (character_bytes c) = Suc 39"
  by (simp add: character_bytes_def digest_fields_def)

lemma character_bytes_inject:
  "character_bytes c = character_bytes d \<longleftrightarrow> digest_fields c = digest_fields d"
  by (simp add: character_bytes_def digest_fields_def)

lemma hash_character_bytes: "hash_character c h = Fnv1a64_update h (character_bytes c)"
  by (simp add: hash_character_def character_bytes_def digest_fields_def fnv.update_append fnv.update_nil)

lemma digest_world_bytes: "state_digest w = fnv1a64 (world_bytes w)"
proof -
  have hash: "hash_character = (\<lambda>c h. Fnv1a64_update h (character_bytes c))"
    by (simp add: fun_eq_iff hash_character_bytes)
  show ?thesis
    unfolding state_digest_def Let_def hash fnv.update_pieces fnv.update_append[symmetric]
      finish_update_new world_bytes_def by (rule refl)
qed

text \<open>Equal canonical bits: the same number, or both NaN.\<close>

definition same_f64 :: "f64 \<Rightarrow> f64 \<Rightarrow> bool" where
  "same_f64 x y \<longleftrightarrow> f64_is_nan x \<and> f64_is_nan y \<or> f64_eq x y"

definition same_vec2 :: "vec2 \<Rightarrow> vec2 \<Rightarrow> bool" where
  "same_vec2 u v \<longleftrightarrow> same_f64 (fst u) (fst v) \<and> same_f64 (snd u) (snd v)"

definition same_character :: "Character \<Rightarrow> Character \<Rightarrow> bool" where
  "same_character c d \<longleftrightarrow> ch_entity_id c = ch_entity_id d \<and>
     same_vec2 (ch_position c) (ch_position d) \<and> same_vec2 (ch_velocity c) (ch_velocity d)"

lemma digest_fields_eq_iff: "digest_fields c = digest_fields d \<longleftrightarrow> same_character c d"
  by (auto simp: digest_fields_def same_character_def same_vec2_def same_f64_def canonicalize_eq_iff)

lemma map_eq_list_all2: "map f xs = map f ys \<longleftrightarrow> list_all2 (\<lambda>x y. f x = f y) xs ys"
  by (simp add: list_all2_conv_all_nth list_eq_iff_nth_eq) (metis length_map nth_map)

lemma world_bytes_eq_iff:
  "world_bytes v = world_bytes w \<longleftrightarrow>
     w_tick v = w_tick w \<and> list_all2 same_character (w_characters v) (w_characters w)"
  by (simp add: world_bytes_def concat_fixed_width[OF length_character_bytes] map_eq_list_all2
      character_bytes_inject digest_fields_eq_iff)

lemma same_state_same_digest:
  "w_tick v = w_tick w \<Longrightarrow> list_all2 same_character (w_characters v) (w_characters w) \<Longrightarrow>
     state_digest v = state_digest w"
  by (metis digest_world_bytes world_bytes_eq_iff)

section \<open>The world invariant\<close>

abbreviation w_players :: "World \<Rightarrow> PlayerId list" where
  "w_players w \<equiv> map ch_player_id (w_characters w)"

definition world_wf :: "World \<Rightarrow> bool" where
  "world_wf w \<longleftrightarrow>
     0 < w_tick_rate_hz w \<and> w_dt_seconds w = f64_div f64_one (f64_of_u32 (w_tick_rate_hz w)) \<and>
     map ch_entity_id (w_characters w) = map of_nat [1..<Suc (length (w_characters w))] \<and>
     w_next_entity_id w = of_nat (Suc (length (w_characters w))) \<and>
     Suc (length (w_characters w)) < 2 ^ 64"

lemma World_new_Done: "World_new seed hz = Done w \<Longrightarrow>
    world_wf w \<and> w_tick w = 0 \<and> w_characters w = [] \<and> w_tick_rate_hz w = hz \<and> w_seed w = seed"
  by (auto simp: World_new_def world_wf_def split: if_splits)

lemma World_new_panics_iff: "World_new seed hz = Panic r \<longleftrightarrow> hz = 0 \<and> r = TickRateNotPositive"
  by (auto simp: World_new_def word_gt_0)

lemma spawn_character_eq:
  assumes wf: "world_wf w" and room: "length (w_characters w) + 2 < 2 ^ 64"
  shows "spawn_character p w pid =
    Done (w\<lparr>w_next_entity_id := w_next_entity_id w + 1,
            w_characters := w_characters w @ [Character_new (w_next_entity_id w) pid]\<rparr>,
          w_next_entity_id w)"
proof -
  let ?n = "length (w_characters w)"
  have next_id: "unat (w_next_entity_id w) = Suc ?n" and
    ids: "map ch_entity_id (w_characters w) = map of_nat [1..<Suc ?n]"
    using wf by (simp_all add: world_wf_def unat_of_nat_small del: of_nat_Suc)
  have "sorted (map ch_entity_id (w_characters w @ [Character_new (w_next_entity_id w) pid]))"
    using sorted_of_nat_upt[of "Suc (Suc ?n)" 1, where 'a = 64] wf room
    by (simp add: ids Character_new_def world_wf_def)
  moreover have "checked_plus p (w_next_entity_id w) 1 = Done (w_next_entity_id w + 1)"
    by (rule checked_plus_fits) (use next_id room in simp)
  ultimately show ?thesis by (simp add: spawn_character_def Let_def sort_key_id_if_sorted)
qed

lemma spawn_character_wf:
  assumes wf: "world_wf w" and room: "length (w_characters w) + 2 < 2 ^ 64"
    and spawn: "spawn_character p w pid = Done (w', e)"
  shows "world_wf w'" "e = of_nat (Suc (length (w_characters w)))"
    "w_players w' = w_players w @ [pid]" "w_tick w' = w_tick w"
    "w_characters w' = w_characters w @ [Character_new e pid]"
  using wf room spawn by (auto simp: spawn_character_eq world_wf_def Character_new_def)

section \<open>Movement\<close>

lemma move_character_ids [simp]:
  "ch_entity_id (move_character dt d c) = ch_entity_id c"
  "ch_player_id (move_character dt d c) = ch_player_id c"
  by (simp_all add: move_character_def Let_def)

lemma map_update_first:
  "(\<And>x. g (f x) = g x) \<Longrightarrow> map g (update_first P f xs) = map g xs"
  by (induction xs) auto

lemma length_update_first [simp]: "length (update_first P f xs) = length xs"
  by (induction xs) auto

lemma update_first_key:
  "distinct (map k xs) \<Longrightarrow> update_first (\<lambda>x. k x = a) f xs = map (\<lambda>x. if k x = a then f x else x) xs"
proof (induction xs)
  case (Cons x xs)
  have "k y \<noteq> k x" if "y \<in> set xs" for y using Cons.prems that by (auto simp: image_iff)
  with Cons show ?case by (auto intro!: map_idI[symmetric])
qed simp

lemma apply_movement_simps [simp]:
  "w_tick (apply_movement i w) = w_tick w" "w_tick_rate_hz (apply_movement i w) = w_tick_rate_hz w"
  "w_dt_seconds (apply_movement i w) = w_dt_seconds w"
  "w_next_entity_id (apply_movement i w) = w_next_entity_id w"
  "w_seed (apply_movement i w) = w_seed w"
  "map ch_entity_id (w_characters (apply_movement i w)) = map ch_entity_id (w_characters w)"
  "w_players (apply_movement i w) = w_players w"
  "length (w_characters (apply_movement i w)) = length (w_characters w)"
  by (simp_all add: apply_movement_def map_update_first)

lemma fold_movement_simps [simp]:
  "w_tick (fold apply_movement is w) = w_tick w"
  "w_tick_rate_hz (fold apply_movement is w) = w_tick_rate_hz w"
  "w_dt_seconds (fold apply_movement is w) = w_dt_seconds w"
  "w_next_entity_id (fold apply_movement is w) = w_next_entity_id w"
  "w_seed (fold apply_movement is w) = w_seed w"
  "map ch_entity_id (w_characters (fold apply_movement is w)) = map ch_entity_id (w_characters w)"
  "w_players (fold apply_movement is w) = w_players w"
  "length (w_characters (fold apply_movement is w)) = length (w_characters w)"
  by (induction "is" arbitrary: w) simp_all

text \<open>What one tick does to one character: its player's input, if there is one, moves it.\<close>

definition intent :: "StepInput list \<Rightarrow> PlayerId \<Rightarrow> vec2 option" where
  "intent is = map_of (map (\<lambda>i. (si_player_id i, si_move_dir i)) is)"

definition moved :: "f64 \<Rightarrow> (PlayerId \<Rightarrow> vec2 option) \<Rightarrow> Character \<Rightarrow> Character" where
  "moved dt f c = (case f (ch_player_id c) of None \<Rightarrow> c | Some d \<Rightarrow> move_character dt d c)"

lemma moved_ids [simp]:
  "ch_entity_id (moved dt f c) = ch_entity_id c" "ch_player_id (moved dt f c) = ch_player_id c"
  by (simp_all add: moved_def split: option.split)

lemma fold_apply_movement:
  "distinct (w_players w) \<Longrightarrow> distinct (map si_player_id is) \<Longrightarrow>
     fold apply_movement is w =
       w\<lparr>w_characters := map (moved (w_dt_seconds w) (intent is)) (w_characters w)\<rparr>"
proof (induction "is" arbitrary: w)
  case Nil
  then show ?case by (simp add: intent_def moved_def map_idI)
next
  case (Cons i "is")
  let ?dt = "w_dt_seconds w" and ?f = "intent is"
  have none: "?f (si_player_id i) = None"
    using Cons.prems(2) by (auto simp: intent_def map_of_eq_None_iff)
  have step: "apply_movement i w = w\<lparr>w_characters := map
      (\<lambda>c. if ch_player_id c = si_player_id i then move_character ?dt (si_move_dir i) c else c)
      (w_characters w)\<rparr>"
    using Cons.prems(1) by (simp add: apply_movement_def update_first_key)
  have "fold apply_movement (i # is) w = (apply_movement i w)\<lparr>w_characters :=
      map (moved ?dt ?f) (w_characters (apply_movement i w))\<rparr>"
    using Cons.IH[of "apply_movement i w"] Cons.prems by simp
  also have "\<dots> = w\<lparr>w_characters := map (moved ?dt (intent (i # is))) (w_characters w)\<rparr>"
    using none by (auto simp: step moved_def intent_def)
  finally show ?case .
qed

lemma intent_mset:
  assumes "distinct (map si_player_id is)" and "mset is = mset is'"
  shows "intent is = intent is'"
proof -
  have "mset (map si_player_id is) = mset (map si_player_id is')" using assms(2) by simp
  then have "distinct (map si_player_id is')" using assms(1) mset_eq_imp_distinct_iff by blast
  moreover have "set is = set is'" using assms(2) by (rule mset_eq_setD)
  ultimately show ?thesis
    unfolding intent_def using assms(1) by (subst map_of_inject_set) (simp_all add: comp_def)
qed

section \<open>advance\<close>

lemma advance_panics_iff:
  "advance p w t is = Panic r \<longleftrightarrow>
     t \<noteq> w_tick w \<and> r = TickMismatch (w_tick w) t \<or>
     t = w_tick w \<and> p = Dev \<and> \<not> sorted (map si_player_id is) \<and> r = StepInputsUnsorted \<or>
     t = w_tick w \<and> p = Dev \<and> sorted (map si_player_id is) \<and> unat t = 2 ^ 64 - 1 \<and>
       r = ArithmeticOverflow"
proof -
  have lt: "unat (w_tick w) < 2 ^ 64" using unsigned_less[of "w_tick w"] by simp
  show ?thesis using lt by (auto simp: advance_def Let_def checked_plus_def)
qed

lemma advance_Done_iff:
  "advance p w t is = Done (w', s) \<longleftrightarrow>
     t = w_tick w \<and> (p = Dev \<longrightarrow> sorted (map si_player_id is) \<and> unat t < 2 ^ 64 - 1) \<and>
     w' = (fold apply_movement is w)\<lparr>w_tick := t + 1\<rparr> \<and>
     s = \<lparr>sn_tick = t + 1, sn_entities = sorted_entity_snapshots w', sn_digest = state_digest w'\<rparr>"
  by (auto simp: advance_def Let_def checked_plus_def not_le)

lemma advance_wf:
  assumes "advance p w t is = Done (w', s)"
  shows "world_wf w' \<longleftrightarrow> world_wf w" "w_players w' = w_players w" "w_tick w' = w_tick w + 1"
    "w_tick_rate_hz w' = w_tick_rate_hz w" "w_seed w' = w_seed w" "t = w_tick w"
    "length (w_characters w') = length (w_characters w)"
  using assms by (simp_all add: advance_Done_iff world_wf_def)

section \<open>The simulation core as its clients use it\<close>

text \<open>
  The server and the replay verifier rely on this of a world: \<open>advance\<close> refuses any tick but the
  current one, succeeds on ordered inputs while the tick counter has room, moves the tick by one
  and leaves the population alone. Everything a tick loop needs follows.
\<close>

definition advance_with ::
  "('w \<Rightarrow> u64 \<Rightarrow> 'i list \<Rightarrow> ('w \<times> 's) outcome) \<Rightarrow> (u64 \<Rightarrow> 'i list) \<Rightarrow> 'w \<Rightarrow> u64 \<Rightarrow> 'w outcome" where
  "advance_with adv f w t = obind (adv w t (f t)) (\<lambda>r. Done (fst r))"

locale sim_core =
  fixes tick_of :: "'w \<Rightarrow> u64"
    and advance :: "'w \<Rightarrow> u64 \<Rightarrow> 'i list \<Rightarrow> ('w \<times> 's) outcome"
    and ordered :: "'i list \<Rightarrow> bool"
    and population :: "'w \<Rightarrow> 'p"
  assumes advance_mismatch: "t \<noteq> tick_of w \<Longrightarrow> advance w t xs = Panic (TickMismatch (tick_of w) t)"
    and advance_total: "ordered xs \<Longrightarrow> unat (tick_of w) < 2 ^ 64 - 1 \<Longrightarrow>
          is_done (advance w (tick_of w) xs)"
    and advance_tick: "advance w t xs = Done (w', s) \<Longrightarrow> tick_of w' = tick_of w + 1"
    and advance_population: "advance w t xs = Done (w', s) \<Longrightarrow> population w' = population w"
begin

lemma run_ticks:
  assumes "\<And>t. ordered (f t)" and "tick_of w \<le> c"
  shows "\<exists>w'. run_events (advance_with advance f) w (tick_range (tick_of w) c) = Done w' \<and>
    tick_of w' = c \<and> population w' = population w"
  using assms(2)
proof (induction "unat c - unat (tick_of w)" arbitrary: w)
  case 0
  then have "tick_of w = c" by (simp add: word_le_nat_alt word_unat_eq_iff)
  then show ?case by (simp add: tick_range_empty)
next
  case (Suc n)
  then have lt: "tick_of w < c" by (simp add: word_less_nat_alt)
  from advance_total[OF assms(1)[of "tick_of w"] tick_less_max[OF lt]]
  obtain u s where u: "advance w (tick_of w) (f (tick_of w)) = Done (u, s)"
    by (auto simp: is_done_iff)
  note after = advance_tick[OF u] advance_population[OF u]
  have n: "n = unat c - unat (tick_of u)" using Suc.hyps(2) after tick_Suc(1)[OF lt] by simp
  have le: "tick_of u \<le> c" using after tick_Suc(2)[OF lt] by simp
  show ?case using Suc.hyps(1)[OF n le] lt u after by (auto simp: tick_range_Cons advance_with_def)
qed

lemma run_ticks_mismatch:
  "t \<noteq> tick_of w \<Longrightarrow> t < c \<Longrightarrow>
     run_events (advance_with advance f) w (tick_range t c) = Panic (TickMismatch (tick_of w) t)"
  by (simp add: tick_range_Cons advance_with_def advance_mismatch)

end

interpretation sim: sim_core w_tick "advance p" "\<lambda>is. sorted (map si_player_id is)"
    "\<lambda>w. (w_players w, map ch_entity_id (w_characters w), w_tick_rate_hz w, w_seed w)" for p
proof unfold_locales
  show "t \<noteq> w_tick w \<Longrightarrow> advance p w t xs = Panic (TickMismatch (w_tick w) t)" for t w xs
    by (simp add: advance_def)
  show "sorted (map si_player_id xs) \<Longrightarrow> unat (w_tick w) < 2 ^ 64 - 1 \<Longrightarrow>
      is_done (advance p w (w_tick w) xs)" for xs w
    by (cases "advance p w (w_tick w) xs") (auto simp: advance_panics_iff)
qed (auto simp: advance_Done_iff)

section \<open>Properties\<close>

text \<open>
  C1. The incrementally computed state digest is the FNV-1a 64 hash of one byte string: the tick
  and then each character's id, position and velocity, little-endian, floats canonicalized.
\<close>

theorem state_digest_is_fnv1a64: "state_digest w = fnv1a64 (world_bytes w)"
  by (rule digest_world_bytes)

text \<open>
  C2. Two worlds feed the digest the same bytes exactly when they have the same tick and,
  character by character, the same id and the same position and velocity up to the sign of zero
  and the payload of NaN: canonicalization forgets nothing else, and no field can run into the
  next. In particular such worlds have the same digest.
\<close>

theorem digest_bytes_canonical:
  "world_bytes v = world_bytes w \<longleftrightarrow>
     w_tick v = w_tick w \<and> list_all2 same_character (w_characters v) (w_characters w)"
  by (rule world_bytes_eq_iff)

text \<open>
  Worlds whose digested bytes differ in exactly one byte never collide.
\<close>

theorem digest_detects_one_byte:
  assumes "world_bytes v = xs @ b # ys" and "world_bytes w = xs @ c # ys" and "b \<noteq> c"
  shows "state_digest v \<noteq> state_digest w"
  using assms by (simp add: digest_world_bytes fnv1a64_one_byte)

definition empty_world :: "u64 \<Rightarrow> World" where
  "empty_world t = \<lparr>w_tick = t, w_tick_rate_hz = 30, w_dt_seconds = f64_zero, w_characters = [],
     w_next_entity_id = 1, w_seed = 0\<rparr>"

lemma world_bytes_empty_world: "world_bytes (empty_world t) = to_le_bytes t"
  by (simp add: world_bytes_def empty_world_def)

theorem digest_detects_one_byte_witness:
  "state_digest (empty_world 1) \<noteq> state_digest (empty_world 2)"
  by (rule digest_detects_one_byte[of _ "[]" 1 "[0, 0, 0, 0, 0, 0, 0]" _ 2])
     (simp_all add: world_bytes_empty_world to_le_bytes_def upt_rec drop_bit_eq_div)

text \<open>A two-player world in which hypotheses can be discharged.\<close>

definition demo_world :: World where
  "demo_world = \<lparr>w_tick = 41, w_tick_rate_hz = 30,
     w_dt_seconds = f64_div f64_one (f64_of_u32 30),
     w_characters = [Character_new 1 7, Character_new 2 3],
     w_next_entity_id = 3, w_seed = 0\<rparr>"

definition demo_inputs :: "StepInput list" where
  "demo_inputs =
     [\<lparr>si_player_id = 3, si_move_dir = (f64_one, f64_zero)\<rparr>,
      \<lparr>si_player_id = 7, si_move_dir = (f64_zero, f64_one)\<rparr>]"

lemma demo_world_wf: "world_wf demo_world"
  by (simp add: world_wf_def demo_world_def Character_new_def upt_rec)

lemma demo_world_players: "w_players demo_world = [7, 3]" "w_tick demo_world = 41"
  "length (w_characters demo_world) = 2"
  by (simp_all add: demo_world_def Character_new_def)

lemma demo_inputs_wf: "distinct (map si_player_id demo_inputs)" "sorted (map si_player_id demo_inputs)"
  by (simp_all add: demo_inputs_def)

text \<open>
  Spawning succeeds while ids last, hands out the next unused id counting from one, keeps the
  characters in spawn order (which is id order) and puts the new one at rest at the origin.
\<close>

theorem spawn_assigns_next_id:
  assumes "world_wf w" and "length (w_characters w) + 2 < 2 ^ 64"
  shows "\<exists>w' e. spawn_character p w pid = Done (w', e) \<and> world_wf w' \<and>
    e = of_nat (Suc (length (w_characters w))) \<and> e \<notin> set (map ch_entity_id (w_characters w)) \<and>
    w_characters w' = w_characters w @ [Character_new e pid] \<and> w_tick w' = w_tick w"
proof -
  from spawn_character_eq[OF assms, of p pid] obtain w' e
    where sp: "spawn_character p w pid = Done (w', e)" by simp
  note after = spawn_character_wf[OF assms sp]
  have "distinct (map ch_entity_id (w_characters w'))"
    using distinct_of_nat_upt[where 'a = 64, of "Suc (length (w_characters w'))" 1] after(1)
    by (simp add: world_wf_def)
  then show ?thesis using sp after by (auto simp: Character_new_def)
qed

theorem spawn_assigns_next_id_witness:
  "\<exists>w' e. spawn_character Dev demo_world 9 = Done (w', e) \<and> world_wf w' \<and> e = of_nat (Suc 2) \<and>
    e \<notin> set (map ch_entity_id (w_characters demo_world)) \<and>
    w_characters w' = w_characters demo_world @ [Character_new e 9] \<and> w_tick w' = 41"
  using spawn_assigns_next_id[OF demo_world_wf, of Dev 9] by (simp add: demo_world_players)

text \<open>
  C3. What \<open>advance\<close> returns: it is called at the current tick, moves exactly the characters whose
  players have an input, leaves every other character as it is, increments the tick, and the
  snapshot it returns is the baseline of the new state.
\<close>

theorem advance_moves_addressed_characters:
  assumes "distinct (w_players w)" and "distinct (map si_player_id is)"
    and "advance p w t is = Done (w', s)"
  shows "t = w_tick w \<and>
    w' = w\<lparr>w_tick := t + 1, w_characters := map (moved (w_dt_seconds w) (intent is)) (w_characters w)\<rparr> \<and>
    (sn_tick s, sn_entities s, sn_digest s) =
      (bl_tick (baseline w'), bl_entities (baseline w'), bl_digest (baseline w'))"
  using assms by (simp add: advance_Done_iff fold_apply_movement baseline_def)

theorem advance_moves_addressed_characters_witness:
  "w_characters (fst (case advance Dev demo_world 41 demo_inputs of Done r \<Rightarrow> r)) =
     map (moved (w_dt_seconds demo_world) (intent demo_inputs)) (w_characters demo_world)"
proof -
  have "is_done (advance Dev demo_world (w_tick demo_world) demo_inputs)"
    by (rule sim.advance_total) (simp_all add: demo_inputs_wf demo_world_players)
  then obtain w' s where adv: "advance Dev demo_world 41 demo_inputs = Done (w', s)"
    by (auto simp: is_done_iff demo_world_players)
  show ?thesis
    using advance_moves_addressed_characters[OF _ _ adv]
    by (simp add: adv demo_world_players demo_inputs_wf)
qed

text \<open>
  C4. \<open>advance\<close> fails exactly on a wrong tick, in the dev profile also on unsorted inputs and when
  the tick counter would overflow; nothing else makes it panic.
\<close>

theorem advance_panics_exactly:
  "advance p w t is = Panic r \<longleftrightarrow>
     t \<noteq> w_tick w \<and> r = TickMismatch (w_tick w) t \<or>
     t = w_tick w \<and> p = Dev \<and> \<not> sorted (map si_player_id is) \<and> r = StepInputsUnsorted \<or>
     t = w_tick w \<and> p = Dev \<and> sorted (map si_player_id is) \<and> unat t = 2 ^ 64 - 1 \<and>
       r = ArithmeticOverflow"
  by (rule advance_panics_iff)

text \<open>
  The order in which inputs of distinct players arrive does not matter, neither when they are
  sorted first, as both callers do, nor without sorting where the assertion is compiled out.
\<close>

theorem advance_input_order_irrelevant:
  assumes "distinct (w_players w)" and "distinct (map si_player_id is)" and "mset is = mset is'"
  shows "advance Release w t is = advance Release w t is' \<and>
    advance p w t (sort_key si_player_id is) = advance p w t (sort_key si_player_id is')"
proof -
  have d': "distinct (map si_player_id js) \<and> intent js = intent is" if "mset js = mset is" for js
  proof
    have "mset (map si_player_id js) = mset (map si_player_id is)" using that by simp
    then show "distinct (map si_player_id js)" using assms(2) mset_eq_imp_distinct_iff by blast
    then show "intent js = intent is" by (rule intent_mset) (rule that)
  qed
  have moves: "fold apply_movement js w = fold apply_movement is w" if "mset js = mset is" for js
    using d'[OF that] assms(1,2) by (simp add: fold_apply_movement)
  have eq: "fold apply_movement is' w = fold apply_movement is w"
    "fold apply_movement (sort_key si_player_id is) w = fold apply_movement is w"
    "fold apply_movement (sort_key si_player_id is') w = fold apply_movement is w"
    by (rule moves, simp add: assms(3))+
  show ?thesis by (simp add: advance_def eq)
qed

theorem advance_input_order_irrelevant_witness:
  "advance Release demo_world 41 demo_inputs = advance Release demo_world 41 (rev demo_inputs)"
  using advance_input_order_irrelevant[of demo_world demo_inputs "rev demo_inputs" 41]
  by (simp add: demo_world_players demo_inputs_wf)

end
