(* ===== verification/F64_Bounds.thy ===== *)
theory F64_Bounds
  imports F64_Facts
begin

text \<open>
  Bounds on the results of the arithmetic used to normalise a movement direction: products with
  a factor of at most one, sums of squares, the square root of a sum of squares against its
  terms, and a component multiplied by the reciprocal of, or divided by, the vector's length.
\<close>

section \<open>Products with a factor of at most one\<close>

lemma f64_one_simps [simp]:
  "f64_is_finite f64_one" "\<not> f64_neg f64_one" "\<not> f64_is_nan f64_one" "f64_mag f64_one \<noteq> 0"
  by (simp_all add: f64_read_eval f64_one_def)

lemma mag_one: "f64_mag f64_one = 1023 * 2 ^ 52"
  by (simp add: f64_mag_def f64_one_def)

lemma units_pow2: "real (units (Suc q * 2 ^ 52)) = 2 ^ (52 + q)"
proof -
  have "units (q * 2 ^ 52 + 2 ^ 52) = 2 ^ 52 * 2 ^ q" by (rule units_at) simp_all
  moreover have "q * 2 ^ 52 + 2 ^ 52 = Suc q * 2 ^ 52" by simp
  ultimately have "units (Suc q * 2 ^ 52) = 2 ^ (52 + q)" by (simp only: power_add)
  then show ?thesis by simp
qed

lemma units_one: "real (units (f64_mag f64_one)) = ONE"
  using units_pow2[of 1022] by (simp add: mag_one ONE_def)

lemma units_inf: "real (units inf_mag) = 2 ^ 2098"
  using units_pow2[of 2046] by (simp add: inf_mag_def)

lemma finite_mag: "f64_is_finite x \<Longrightarrow> f64_mag x \<le> inf_mag"
  by (simp add: f64_is_finite_def)

lemma rounds_to_mag: "f64_is_finite x \<Longrightarrow> rounds_to (real (units (f64_mag x))) (f64_mag x)"
  by (rule rounds_to_exact) (rule finite_mag)

lemma le_inf_not_nan: "f64_mag x \<le> inf_mag \<longleftrightarrow> \<not> f64_is_nan x"
  by (auto simp: f64_is_nan_def)

lemma mag_le_finite: "f64_mag x \<le> f64_mag y \<Longrightarrow> f64_is_finite y \<Longrightarrow> f64_is_finite x"
  by (simp add: f64_is_finite_def)

lemma mul_commute_mag:
  "f64_is_finite x \<Longrightarrow> f64_is_finite y \<Longrightarrow> f64_mag (f64_mul x y) = f64_mag (f64_mul y x)"
  using f64_mul_correct(1)[of x y] f64_mul_correct(1)[of y x] by (simp add: mult.commute rounds_to_unique)

lemma mul_le_right:
  assumes x: "f64_is_finite x" and y: "f64_is_finite y" and le: "f64_mag x \<le> f64_mag f64_one"
  shows "f64_mag (f64_mul x y) \<le> f64_mag y"
proof (rule rounds_to_mono[OF _ f64_mul_correct(1)[OF x y] rounds_to_mag[OF y]])
  have "real (units (f64_mag x)) \<le> ONE"
    unfolding units_one[symmetric] using le by (simp only: of_nat_le_iff units_le_iff)
  then have "real (units (f64_mag x)) * real (units (f64_mag y)) \<le> ONE * real (units (f64_mag y))"
    by (rule mult_right_mono) simp
  then show "real (units (f64_mag x)) * real (units (f64_mag y)) / ONE \<le> real (units (f64_mag y))"
    by (simp add: divide_le_eq mult.commute)
qed

lemma mul_le_left:
  "f64_is_finite x \<Longrightarrow> f64_is_finite y \<Longrightarrow> f64_mag y \<le> f64_mag f64_one \<Longrightarrow>
     f64_mag (f64_mul x y) \<le> f64_mag x"
  using mul_le_right[of y x] mul_commute_mag[of x y] by simp

section \<open>Squares and their sums\<close>

text \<open>Squares are never negative, and the sum of two non-negative numbers is at least each.\<close>

lemma square_nonneg:
  "f64_is_finite x \<Longrightarrow> \<not> f64_neg (f64_mul x x) \<and> \<not> f64_is_nan (f64_mul x x)"
  using f64_mul_correct(2,3)[of x x] by simp

lemma add_nonneg:
  assumes x: "\<not> f64_neg x" "\<not> f64_is_nan x" and y: "\<not> f64_neg y" "\<not> f64_is_nan y"
  shows "\<not> f64_neg (f64_add x y)" "\<not> f64_is_nan (f64_add x y)"
    and "f64_mag x \<le> f64_mag (f64_add x y)" "f64_mag y \<le> f64_mag (f64_add x y)"
proof -
  have "\<not> f64_neg (f64_add x y) \<and> \<not> f64_is_nan (f64_add x y) \<and>
        f64_mag x \<le> f64_mag (f64_add x y) \<and> f64_mag y \<le> f64_mag (f64_add x y)"
  proof (cases "f64_is_finite x \<and> f64_is_finite y")
    case True
    then have fx: "f64_is_finite x" and fy: "f64_is_finite y" by auto
    note add = f64_add_correct[OF fx fy]
    have s: "\<bar>real_of_int (f64_int x + f64_int y)\<bar> =
        real (units (f64_mag x)) + real (units (f64_mag y))"
      using x y by (simp add: f64_int_def)
    have "f64_mag x \<le> f64_mag (f64_add x y)"
      by (rule rounds_to_mono[OF _ rounds_to_mag[OF fx] add(1)]) (unfold s, simp)
    moreover have "f64_mag y \<le> f64_mag (f64_add x y)"
      by (rule rounds_to_mono[OF _ rounds_to_mag[OF fy] add(1)]) (unfold s, simp)
    moreover have "\<not> f64_neg (f64_add x y)" using add(2) x y by (simp add: f64_int_def)
    ultimately show ?thesis using add(3) by blast
  next
    case False
    then have "f64_is_infinite x \<or> f64_is_infinite y" using x y by (auto simp: finite_iff)
    then have "f64_add x y = (if f64_is_infinite x then x else y)"
      using x y by (auto simp: f64_add_def)
    moreover have "f64_mag x \<le> inf_mag" "f64_mag y \<le> inf_mag" using x y by (simp_all add: le_inf_not_nan)
    ultimately show ?thesis
      using x y \<open>f64_is_infinite x \<or> f64_is_infinite y\<close> by (auto simp: f64_is_infinite_def)
  qed
  then show "\<not> f64_neg (f64_add x y)" "\<not> f64_is_nan (f64_add x y)"
    and "f64_mag x \<le> f64_mag (f64_add x y)" "f64_mag y \<le> f64_mag (f64_add x y)"
    by auto
qed

text \<open>The least magnitude above one has a square above one, hence so has every larger one.\<close>

lemma square_above_one:
  assumes x: "f64_is_finite x" and sq: "f64_mag (f64_mul x x) \<le> f64_mag f64_one"
  shows "f64_mag x \<le> f64_mag f64_one"
proof (rule ccontr)
  let ?c = "0x3ff0000000000001 :: f64"
  assume "\<not> f64_mag x \<le> f64_mag f64_one"
  moreover have cm: "f64_mag ?c = Suc (f64_mag f64_one)" by (simp add: f64_mag_def f64_one_def)
  ultimately have "units (f64_mag ?c) \<le> units (f64_mag x)" by simp
  then have "real (units (f64_mag ?c)) \<le> real (units (f64_mag x))" by (simp only: of_nat_le_iff)
  then have "real (units (f64_mag ?c)) * real (units (f64_mag ?c)) / ONE \<le>
             real (units (f64_mag x)) * real (units (f64_mag x)) / ONE"
    by (simp add: divide_right_mono mult_mono less_imp_le)
  moreover have fc: "f64_is_finite ?c" by (simp add: f64_read_eval)
  ultimately have "f64_mag (f64_mul ?c ?c) \<le> f64_mag (f64_mul x x)"
    using rounds_to_mono f64_mul_correct(1)[OF fc fc] f64_mul_correct(1)[OF x x] by blast
  moreover have "f64_mul ?c ?c = 0x3ff0000000000002" by (simp add: f64_eval)
  ultimately show False using sq by (simp add: f64_mag_def f64_one_def)
qed

section \<open>The square root of a number at least as large as a square\<close>

lemma sqrt_ge_one:
  assumes s: "f64_is_finite s" "\<not> f64_neg s" and ge: "f64_mag f64_one \<le> f64_mag s"
  shows "f64_mag f64_one \<le> f64_mag (f64_sqrt s)"
proof (rule rounds_to_mono[OF _ rounds_to_mag])
  have "f64_mag s \<noteq> 0" using ge by (metis f64_one_simps(4) le_zero_eq)
  then show "rounds_to (sqrt (real (units (f64_mag s)) * ONE)) (f64_mag (f64_sqrt s))"
    using f64_sqrt_correct(1) s by blast
  have "ONE \<le> real (units (f64_mag s))"
    unfolding units_one[symmetric] using ge by (simp only: of_nat_le_iff units_le_iff)
  then have "ONE * ONE \<le> real (units (f64_mag s)) * ONE" by (simp add: mult_right_mono)
  then have "ONE \<le> sqrt (real (units (f64_mag s)) * ONE)"
    by (simp add: real_le_rsqrt power2_eq_square)
  then show "real (units (f64_mag f64_one)) \<le> sqrt (real (units (f64_mag s)) * ONE)"
    unfolding units_one .
qed simp

lemma sqrt_le_huge:
  assumes s: "f64_is_finite s" "\<not> f64_neg s" "f64_mag s \<noteq> 0"
  shows "real (units (f64_mag (f64_sqrt s))) \<le> 2 ^ 1586"
proof -
  have u: "real (units (1535 * 2 ^ 52)) = 2 ^ 1586" using units_pow2[of 1534] by simp
  have "f64_mag (f64_sqrt s) \<le> 1535 * 2 ^ 52"
  proof (rule rounds_to_mono)
    show "rounds_to (sqrt (real (units (f64_mag s)) * ONE)) (f64_mag (f64_sqrt s))"
      by (rule f64_sqrt_correct(1)[OF s(1,3,2)])
    show "rounds_to (real (units (1535 * 2 ^ 52))) (1535 * 2 ^ 52)"
      by (rule rounds_to_exact) (simp add: inf_mag_def)
    have "real (units (f64_mag s)) \<le> 2 ^ 2098"
      unfolding units_inf[symmetric] using s(1) by (simp only: of_nat_le_iff units_le_iff finite_mag)
    then have "real (units (f64_mag s)) * ONE \<le> 2 ^ 2098 * ONE" by (simp add: mult_right_mono)
    also have "2 ^ 2098 * ONE = (2 ^ 1586)\<^sup>2"
      by (simp only: ONE_def power_add[symmetric] power_mult[symmetric]) simp
    finally show "sqrt (real (units (f64_mag s)) * ONE) \<le> real (units (1535 * 2 ^ 52))"
      unfolding u by (simp add: real_le_lsqrt)
  qed
  then have "units (f64_mag (f64_sqrt s)) \<le> units (1535 * 2 ^ 52)" by (simp only: units_le_iff)
  then show ?thesis unfolding u[symmetric] by (simp only: of_nat_le_iff)
qed

text \<open>Rounding a number of normal size errs by at most one part in \<open>2 ^ 53\<close>.\<close>

lemma units_gap:
  obtains q d where "n = q * 2 ^ 52 + d" "d < 2 ^ 53" "q = 0 \<or> 2 ^ 52 \<le> d"
    "real (units n) = real d * 2 ^ q" "real (units (Suc n)) = real (units n) + 2 ^ q"
proof -
  obtain q d where n: "n = q * 2 ^ 52 + d" "d < 2 ^ 53" "q = 0 \<or> 2 ^ 52 \<le> d"
    by (rule mag_decompose)
  have u: "units n = d * 2 ^ q" unfolding n(1) by (rule units_at) (use n in auto)
  have "units (q * 2 ^ 52 + Suc d) = Suc d * 2 ^ q" by (rule units_at) (use n in auto)
  then have "units (Suc n) = d * 2 ^ q + 2 ^ q" by (simp add: n(1))
  then have s: "real (units (Suc n)) = real (units n) + 2 ^ q" unfolding u by simp
  have "real (units n) = real d * 2 ^ q" unfolding u by simp
  from that[OF n this s] show thesis .
qed

lemma normal_gap:
  assumes "q = 0 \<or> (2 :: nat) ^ 52 \<le> d" and "real d * 2 ^ q \<le> w" and "2 ^ 52 \<le> w"
  shows "(2 :: real) ^ q \<le> w / 2 ^ 52"
proof (cases "q = 0")
  case False
  then have "(2 :: real) ^ 52 \<le> real d"
    using assms(1) by (metis of_nat_le_iff of_nat_numeral of_nat_power)
  then have "2 ^ 52 * 2 ^ q \<le> real d * (2 :: real) ^ q" by (rule mult_right_mono) simp
  also note assms(2)
  finally show ?thesis by (simp add: le_divide_eq mult.commute)
qed (use assms in simp)

lemma rounds_to_not_below:
  assumes r: "rounds_to w k" and k: "k < inf_mag" and w: "2 ^ 52 \<le> w"
  shows "w - w / 2 ^ 53 \<le> real (units k)"
proof (cases "w \<le> real (units k)")
  case True
  moreover have "0 \<le> w / 2 ^ 53" using w by simp
  ultimately show ?thesis by linarith
next
  case False
  obtain q d where qd: "q = 0 \<or> 2 ^ 52 \<le> d" "real (units k) = real d * 2 ^ q"
    "real (units (Suc k)) = real (units k) + 2 ^ q"
    using units_gap[of k] by metis
  have "2 ^ q \<le> w / 2 ^ 52" by (rule normal_gap[OF qd(1)]) (use False qd(2) w in linarith)+
  moreover have "2 * w \<le> real (units k) + real (units (Suc k))" using r k by (simp add: rounds_to_def)
  ultimately show ?thesis using qd(3) by simp
qed

lemma rounds_to_not_above:
  assumes r: "rounds_to w k" and w: "2 ^ 52 \<le> w"
  shows "real (units k) \<le> w + w / 2 ^ 53"
proof (cases k)
  case 0
  with w show ?thesis by simp
next
  case (Suc j)
  obtain q d where qd: "q = 0 \<or> 2 ^ 52 \<le> d" "real (units j) = real d * 2 ^ q"
    "real (units (Suc j)) = real (units j) + 2 ^ q"
    using units_gap[of j] by metis
  have mid: "real (units j) + real (units (Suc j)) \<le> 2 * w" using r Suc by (simp add: rounds_to_def)
  moreover have "(0 :: real) < 2 ^ q" by simp
  ultimately have "2 ^ q \<le> w / 2 ^ 52" by (intro normal_gap[OF qd(1)]) (use qd w in linarith)+
  with mid qd(3) Suc show ?thesis by simp
qed

lemma square_of_power:
  assumes q: "1022 \<le> q" and k: "rounds_to (2 ^ (52 + q) * 2 ^ (52 + q) / ONE) k" "k < inf_mag"
  shows "2 ^ (52 + q) * 2 ^ (52 + q) / ONE \<le> real (units k)"
proof -
  let ?K = "Suc (2 * q - 1022) * 2 ^ 52"
  have e: "52 + q + (52 + q) = 52 + (2 * q - 1022) + 1074" using q by simp
  have u: "real (units ?K) = 2 ^ (52 + q) * 2 ^ (52 + q) / ONE"
    unfolding units_pow2 ONE_def power_add[symmetric] e by (simp only: power_add) simp
  have "min inf_mag ?K \<le> k"
  proof (rule rounds_to_mono[OF _ rounds_to_exact k(1)])
    have "units (min inf_mag ?K) \<le> units ?K" by (simp only: units_le_iff min.cobounded2)
    then show "real (units (min inf_mag ?K)) \<le> 2 ^ (52 + q) * 2 ^ (52 + q) / ONE"
      unfolding u[symmetric] by (simp only: of_nat_le_iff)
  qed simp
  with k(2) have "?K \<le> k" by linarith
  then have "units ?K \<le> units k" by (simp only: units_le_iff)
  then show ?thesis unfolding u[symmetric] by (simp only: of_nat_le_iff)
qed

lemma half_ulp_squared:
  fixes d P :: real
  assumes d: "2 ^ 52 \<le> d" "d \<le> 2 ^ 53 - 1" and P: "0 < P"
  shows "((d - 1 / 2) * P)\<^sup>2 < (d * P) * (d * P) - (d * P) * (d * P) / 2 ^ 53"
proof -
  have "d * d \<le> d * (2 ^ 53 - 1)" using d by (intro mult_left_mono) auto
  moreover have "d * (2 ^ 53 - 1) = 9007199254740992 * d - d" by (simp add: algebra_simps)
  moreover have "4503599627370496 \<le> d" using d(1) by simp
  ultimately have "d * d + 2251799813685248 < 9007199254740992 * d" by linarith
  then have "d * d / 2 ^ 53 + 1 / 4 < d" by (simp add: mult.commute)
  then have "(d - 1 / 2) * (d - 1 / 2) < d * d - d * d / 2 ^ 53" by (simp add: algebra_simps)
  then have "(d - 1 / 2) * (d - 1 / 2) * (P * P) < (d * d - d * d / 2 ^ 53) * (P * P)"
    using P by (intro mult_strict_right_mono) auto
  then show ?thesis by (simp add: power2_eq_square algebra_simps)
qed

text \<open>
  If \<open>s\<close> is at least the rounded square of \<open>x\<close>, and \<open>x\<close> exceeds one, the rounded root of \<open>s\<close>
  is at least \<open>x\<close>: the rounding of the square costs less than the rounding of the root gives back.
\<close>

lemma sqrt_ge:
  assumes x: "f64_is_finite x" "f64_mag f64_one < f64_mag x"
    and s: "f64_is_finite s" "\<not> f64_neg s" and le: "f64_mag (f64_mul x x) \<le> f64_mag s"
  shows "f64_mag x \<le> f64_mag (f64_sqrt s)"
proof -
  let ?m = "f64_mag x" and ?k = "f64_mag (f64_mul x x)"
  let ?w = "real (units ?m) * real (units ?m) / ONE"
  let ?v = "sqrt (real (units (f64_mag s)) * ONE)"
  obtain q d where qd: "?m = q * 2 ^ 52 + d" "d < 2 ^ 53" "q = 0 \<or> 2 ^ 52 \<le> d"
    and um: "real (units ?m) = real d * 2 ^ q" using units_gap[of ?m] by metis
  have q: "1022 \<le> q" using x(2) qd(1,2) by (simp add: mag_one)
  have mul: "rounds_to ?w ?k" by (rule f64_mul_correct(1)[OF x(1) x(1)])
  have k: "?k < inf_mag" using le s(1) by (simp add: f64_is_finite_def)
  have ks: "real (units ?k) \<le> real (units (f64_mag s))" using le by (simp only: of_nat_le_iff units_le_iff)
  have "ONE \<le> real (units ?m)"
    unfolding units_one[symmetric] using x(2) by (simp only: of_nat_le_iff units_le_iff less_imp_le)
  then have "ONE * ONE \<le> real (units ?m) * real (units ?m)" by (simp add: mult_mono less_imp_le)
  then have w1: "ONE \<le> ?w" by (simp add: le_divide_eq)
  have w52: "2 ^ 52 \<le> ?w" by (rule order_trans[OF _ w1]) (simp add: ONE_def)
  have "f64_mag f64_one \<le> ?k"
    by (rule rounds_to_mono[OF _ rounds_to_mag mul]) (simp_all add: units_one w1)
  then have s0: "f64_mag s \<noteq> 0" using le by (simp add: mag_one)
  note root = f64_sqrt_correct(1)[OF s(1) s0 s(2)]
  show ?thesis
  proof (cases "d = 2 ^ 52")
    case True
    then have u: "real (units ?m) = 2 ^ (52 + q)" using um by (simp add: power_add)
    have "?w \<le> real (units ?k)" using square_of_power[OF q] mul k unfolding u by blast
    then have "?w \<le> real (units (f64_mag s))" using ks by (rule order_trans)
    then have "real (units ?m) * real (units ?m) \<le> real (units (f64_mag s)) * ONE"
      by (simp add: divide_le_eq)
    then have "real (units ?m) \<le> ?v" by (simp add: real_le_rsqrt power2_eq_square)
    then show ?thesis by (rule rounds_to_mono[OF _ rounds_to_mag[OF x(1)] root])
  next
    case False
    then have d: "2 ^ 52 < d" using qd(3) q by simp
    show ?thesis
    proof (rule ccontr)
      let ?n = "f64_mag (f64_sqrt s)"
      assume "\<not> ?m \<le> ?n"
      then have n: "?n \<le> ?m - 1" "Suc ?n \<le> ?m" "?n < inf_mag" using x(1) by (simp_all add: f64_is_finite_def)
      have "?m - 1 = q * 2 ^ 52 + (d - 1)" using qd(1) d by simp
      moreover have "units (q * 2 ^ 52 + (d - 1)) = (d - 1) * 2 ^ q"
        by (rule units_at, use qd(2) in simp, rule disjI2, use d in simp)
      ultimately have um1: "real (units (?m - 1)) = (real d - 1) * 2 ^ q" using d by (simp add: of_nat_diff)
      have "real (units ?n) \<le> real (units (?m - 1))" "real (units (Suc ?n)) \<le> real (units ?m)"
        using n by (simp_all only: of_nat_le_iff units_le_iff)
      moreover have "2 * ?v \<le> real (units ?n) + real (units (Suc ?n))" using root n(3) by (simp add: rounds_to_def)
      ultimately have v: "?v \<le> (real d - 1 / 2) * 2 ^ q" unfolding um um1 by (simp add: algebra_simps)
      have "?v * ?v \<le> ((real d - 1 / 2) * 2 ^ q)\<^sup>2"
        unfolding power2_eq_square by (rule mult_mono[OF v v]) (use d in \<open>auto intro: mult_nonneg_nonneg less_imp_le\<close>)
      then have "real (units (f64_mag s)) * ONE \<le> ((real d - 1 / 2) * 2 ^ q)\<^sup>2" by simp
      moreover have "real d \<le> 2 ^ 53 - 1" "2 ^ 52 \<le> real d" using qd(2) d by simp_all
      moreover have "?w - ?w / 2 ^ 53 \<le> real (units (f64_mag s))"
        using rounds_to_not_below[OF mul k w52] ks by (rule order_trans)
      then have "(?w - ?w / 2 ^ 53) * ONE \<le> real (units (f64_mag s)) * ONE" by (rule mult_right_mono) simp
      then have "(real d * 2 ^ q) * (real d * 2 ^ q) - (real d * 2 ^ q) * (real d * 2 ^ q) / 2 ^ 53
                   \<le> real (units (f64_mag s)) * ONE"
        unfolding um by (simp add: field_simps)
      ultimately show False using half_ulp_squared[of "real d" "2 ^ q"] by simp
    qed
  qed
qed

section \<open>A component against the length of its vector\<close>

text \<open>Divided by the length, as the server's buffer does.\<close>

lemma div_le_one:
  assumes x: "f64_is_finite x" and m: "f64_is_finite m" "f64_mag m \<noteq> 0" and le: "f64_mag x \<le> f64_mag m"
  shows "f64_mag (f64_div x m) \<le> f64_mag f64_one"
proof (rule rounds_to_mono[OF _ f64_div_correct(1)[OF x m] rounds_to_mag[OF f64_one_simps(1)]])
  have "units 0 < units (f64_mag m)" using m(2) by (simp only: units_less_iff)
  then have "0 < real (units (f64_mag m))" by simp
  moreover have "real (units (f64_mag x)) \<le> real (units (f64_mag m))"
    using le by (simp only: of_nat_le_iff units_le_iff)
  ultimately have "real (units (f64_mag x)) / real (units (f64_mag m)) \<le> 1" by simp
  then have "real (units (f64_mag x)) / real (units (f64_mag m)) * ONE \<le> 1 * ONE"
    by (rule mult_right_mono) simp
  then show "real (units (f64_mag x)) / real (units (f64_mag m)) * ONE \<le> real (units (f64_mag f64_one))"
    by (simp add: units_one)
qed

text \<open>Multiplied by the rounded reciprocal of the length, as the simulation core does.\<close>

lemma tie_above_one: "rounds_to (ONE + ONE / 2 ^ 53) (f64_mag f64_one)"
proof -
  define e where "e = ONE / 2 ^ 53"
  have arith: "a < b \<Longrightarrow> 0 < c \<Longrightarrow> a + b < 2 * (b + c)" for a b c :: real by simp
  have up: "real (units (Suc (f64_mag f64_one))) = ONE + ONE / 2 ^ 52"
  proof -
    have "units (1022 * 2 ^ 52 + (2 ^ 52 + 1)) = (2 ^ 52 + 1) * 2 ^ 1022" by (rule units_at) simp_all
    then have "units (Suc (f64_mag f64_one)) = (2 ^ 52 + 1) * 2 ^ 1022" by (simp add: mag_one)
    then show ?thesis by (simp add: ONE_def)
  qed
  have "units (f64_mag f64_one - 1) < units (f64_mag f64_one)" by (simp add: mag_one)
  then have "real (units (f64_mag f64_one - 1)) < ONE" unfolding units_one[symmetric] by (simp only: of_nat_less_iff)
  moreover have "0 < e" unfolding e_def by (rule divide_pos_pos) simp_all
  ultimately have "real (units (f64_mag f64_one - 1)) + ONE < 2 * (ONE + e)" by (rule arith)
  moreover have "even (f64_mag f64_one)" "f64_mag f64_one \<le> inf_mag" by (simp_all add: mag_one inf_mag_def)
  ultimately show ?thesis
    unfolding rounds_to_def units_one up e_def by simp
qed

lemma reciprocal_le_one:
  assumes m: "f64_is_finite m" and ge: "f64_mag f64_one \<le> f64_mag m"
    and small: "real (units (f64_mag m)) \<le> 2 ^ 1586"
    and x: "f64_is_finite x" and le: "f64_mag x \<le> f64_mag m"
  shows "f64_mag (f64_div f64_one m) \<le> f64_mag f64_one"
    and "f64_mag (f64_mul x (f64_div f64_one m)) \<le> f64_mag f64_one"
proof -
  let ?u = "real (units (f64_mag m))" and ?r = "f64_div f64_one m"
  have m0: "f64_mag m \<noteq> 0" using ge by (simp add: mag_one)
  show r1: "f64_mag ?r \<le> f64_mag f64_one" by (rule div_le_one[OF f64_one_simps(1) m m0 ge])
  then have r: "f64_is_finite ?r" by (rule mag_le_finite) simp
  have "ONE \<le> ?u" unfolding units_one[symmetric] using ge by (simp only: of_nat_le_iff units_le_iff)
  then have u: "0 < ?u" using ONE_pos by linarith
  have "2 ^ 52 * 2 ^ 1586 \<le> ONE * ONE" by (simp add: ONE_def)
  moreover have "2 ^ 52 * ?u \<le> 2 ^ 52 * 2 ^ 1586" using small by simp
  ultimately have "2 ^ 52 \<le> ONE / ?u * ONE" using u by (simp add: le_divide_eq)
  then have "real (units (f64_mag ?r)) \<le> ONE / ?u * ONE + ONE / ?u * ONE / 2 ^ 53"
    using rounds_to_not_above f64_div_correct(1)[OF f64_one_simps(1) m m0] unfolding units_one by blast
  moreover have "real (units (f64_mag x)) \<le> ?u" using le by (simp only: of_nat_le_iff units_le_iff)
  ultimately have "real (units (f64_mag x)) * real (units (f64_mag ?r)) \<le>
      ?u * (ONE / ?u * ONE + ONE / ?u * ONE / 2 ^ 53)"
    using u by (intro mult_mono) auto
  also have "\<dots> = (ONE + ONE / 2 ^ 53) * ONE" using u by (simp add: field_simps)
  finally have "real (units (f64_mag x)) * real (units (f64_mag ?r)) / ONE \<le> ONE + ONE / 2 ^ 53"
    by (simp add: divide_le_eq)
  then show "f64_mag (f64_mul x ?r) \<le> f64_mag f64_one"
    by (rule rounds_to_mono[OF _ f64_mul_correct(1)[OF x r] tie_above_one])
qed

end
