(* ===== verification/Movement.thy ===== *)
theory Movement
  imports Sim F64_Bounds
begin

text \<open>
  The movement model of \<^verbatim>\<open>apply_movement\<close> (\<^verbatim>\<open>crates/sim/src/lib.rs\<close>), at the level of binary64
  arithmetic: the clamped direction, the speed limit, finite positions, and the effect of a zero
  intent.
\<close>

section \<open>The clamped direction\<close>

lemma one_squared: "f64_mul f64_one f64_one = f64_one"
  by (simp add: f64_eval)

lemma f64_le_one_iff:
  "\<not> f64_neg s \<Longrightarrow> \<not> f64_is_nan s \<Longrightarrow> f64_le s f64_one \<longleftrightarrow> f64_mag s \<le> f64_mag f64_one"
  by (simp add: f64_le_def f64_ord_def)

lemma length_bounds:
  assumes x: "f64_is_finite x" and s: "f64_is_finite s" "\<not> f64_neg s"
    and le: "f64_mag (f64_mul x x) \<le> f64_mag s" and one: "f64_mag f64_one \<le> f64_mag s"
  shows "f64_mag x \<le> f64_mag (f64_sqrt s)"
proof (cases "f64_mag x \<le> f64_mag f64_one")
  case True
  also have "f64_mag f64_one \<le> f64_mag (f64_sqrt s)" by (rule sqrt_ge_one[OF s one])
  finally show ?thesis .
next
  case False
  then show ?thesis by (intro sqrt_ge[OF x _ s le]) simp
qed

lemma sqrt_finite:
  assumes s: "f64_is_finite s" "\<not> f64_neg s" "f64_mag s \<noteq> 0"
  shows "f64_is_finite (f64_sqrt s)"
proof (rule ccontr)
  assume "\<not> f64_is_finite (f64_sqrt s)"
  then have "units inf_mag \<le> units (f64_mag (f64_sqrt s))" by (simp add: f64_is_finite_def)
  then have "(2 :: real) ^ 2098 \<le> real (units (f64_mag (f64_sqrt s)))"
    unfolding units_inf[symmetric] by (simp only: of_nat_le_iff)
  also note sqrt_le_huge[OF s]
  finally show False by simp
qed

lemma scaled_component:
  assumes x: "f64_is_finite x" and s: "\<not> f64_neg s" "\<not> f64_is_nan s"
    and le: "f64_mag (f64_mul x x) \<le> f64_mag s" and one: "f64_mag f64_one \<le> f64_mag s"
  shows "f64_mag (f64_mul x (f64_div f64_one (f64_sqrt s))) \<le> f64_mag f64_one"
proof (cases "f64_is_finite s")
  case True
  have s0: "f64_mag s \<noteq> 0" using one by (simp add: mag_one)
  show ?thesis
    by (rule reciprocal_le_one(2)[OF sqrt_finite[OF True s(1) s0] sqrt_ge_one[OF True s(1) one]
          sqrt_le_huge[OF True s(1) s0] x length_bounds[OF x True s(1) le one]])
next
  case False
  then have inf: "f64_is_infinite s" using s by (simp add: finite_iff)
  then have "f64_mag s \<noteq> 0" by (simp add: f64_is_infinite_def)
  then have root: "f64_sqrt s = s" using s inf by (simp add: f64_sqrt_def)
  have "f64_div f64_one s = f64_zero"
    using s inf by (simp add: f64_div_def finite_simps f64_zero_def f64_pack_def)
  moreover have "f64_mag (f64_mul x f64_zero) \<le> f64_mag f64_zero"
  proof -
    have "f64_mag (f64_mul f64_zero x) = 0" using f64_mul_zero_left[OF x] by simp
    then show ?thesis using mul_commute_mag[OF x f64_zero_simps(3)] by simp
  qed
  ultimately show ?thesis unfolding root by simp
qed

lemma clamp_magnitude_components:
  assumes x: "f64_is_finite x" and y: "f64_is_finite y"
  shows "f64_mag (fst (clamp_magnitude (x, y) f64_one)) \<le> f64_mag f64_one"
    and "f64_mag (snd (clamp_magnitude (x, y) f64_one)) \<le> f64_mag f64_one"
proof -
  let ?xx = "f64_mul x x" and ?yy = "f64_mul y y"
  let ?s = "f64_add ?xx ?yy"
  have sx: "\<not> f64_neg ?xx" "\<not> f64_is_nan ?xx" and sy: "\<not> f64_neg ?yy" "\<not> f64_is_nan ?yy"
    using square_nonneg[OF x] square_nonneg[OF y] by auto
  note s = add_nonneg[OF sx sy]
  have clamp: "clamp_magnitude (x, y) f64_one =
      (if f64_mag ?s \<le> f64_mag f64_one then (x, y)
       else (f64_mul x (f64_div f64_one (f64_sqrt ?s)), f64_mul y (f64_div f64_one (f64_sqrt ?s))))"
    by (simp add: clamp_magnitude_def Let_def one_squared f64_le_one_iff[OF s(1,2)])
  have "f64_mag (fst (clamp_magnitude (x, y) f64_one)) \<le> f64_mag f64_one \<and>
        f64_mag (snd (clamp_magnitude (x, y) f64_one)) \<le> f64_mag f64_one"
  proof (cases "f64_mag ?s \<le> f64_mag f64_one")
    case True
    then show ?thesis
      using square_above_one[OF x order_trans[OF s(3)]] square_above_one[OF y order_trans[OF s(4)]]
      by (simp add: clamp)
  next
    case False
    then have one: "f64_mag f64_one \<le> f64_mag ?s" by simp
    show ?thesis
      using False scaled_component[OF x s(1,2) s(3) one] scaled_component[OF y s(1,2) s(4) one]
      by (simp add: clamp)
  qed
  then show "f64_mag (fst (clamp_magnitude (x, y) f64_one)) \<le> f64_mag f64_one"
    and "f64_mag (snd (clamp_magnitude (x, y) f64_one)) \<le> f64_mag f64_one" by auto
qed

section \<open>The time step\<close>

lemma f64_of_u32_bounds:
  assumes "0 < n"
  shows "f64_is_finite (f64_of_u32 n)" "\<not> f64_neg (f64_of_u32 n)"
    "f64_mag f64_one \<le> f64_mag (f64_of_u32 n)"
proof -
  have r: "rounds_to (real (unat n) * ONE) (f64_mag (f64_of_u32 n))"
    using round_mag_correct[of "unat n" 0] by (simp add: f64_of_u32_def ONE_powi)
  show "\<not> f64_neg (f64_of_u32 n)" by (simp add: f64_of_u32_def)
  have "1 \<le> unat n" using assms by (simp add: word_less_nat_alt)
  then have "real 1 \<le> real (unat n)" by (simp only: of_nat_le_iff)
  then have "real 1 * ONE \<le> real (unat n) * ONE" by (rule mult_right_mono) simp
  then show "f64_mag f64_one \<le> f64_mag (f64_of_u32 n)"
    by (intro rounds_to_mono[OF _ rounds_to_mag r]) (simp_all add: units_one)
  have "unat n < 2 ^ 32" using unsigned_less[of n] by simp
  then have "real (unat n) \<le> real (2 ^ 32)" by (simp only: of_nat_le_iff less_imp_le)
  then have "real (unat n) \<le> 2 ^ 32" by (simp only: of_nat_power of_nat_numeral)
  then have "real (unat n) * ONE \<le> 2 ^ 32 * ONE" by (rule mult_right_mono) simp
  also have "\<dots> = real (units (Suc 1054 * 2 ^ 52))" unfolding units_pow2 ONE_def by simp
  finally have "f64_mag (f64_of_u32 n) \<le> Suc 1054 * 2 ^ 52"
    by (rule rounds_to_mono[OF _ r rounds_to_exact]) (simp add: inf_mag_def)
  then show "f64_is_finite (f64_of_u32 n)" by (simp add: f64_is_finite_def inf_mag_def)
qed

lemma dt_bounds:
  assumes "world_wf w"
  shows "f64_is_finite (w_dt_seconds w)" "\<not> f64_neg (w_dt_seconds w)"
    "f64_mag (w_dt_seconds w) \<le> f64_mag f64_one"
proof -
  let ?r = "f64_of_u32 (w_tick_rate_hz w)"
  have dt: "w_dt_seconds w = f64_div f64_one ?r" and pos: "0 < w_tick_rate_hz w"
    using assms by (simp_all add: world_wf_def)
  note r = f64_of_u32_bounds[OF pos]
  have r0: "f64_mag ?r \<noteq> 0" using r(3) by (simp add: mag_one)
  show le: "f64_mag (w_dt_seconds w) \<le> f64_mag f64_one"
    unfolding dt by (rule div_le_one[OF f64_one_simps(1) r(1) r0 r(3)])
  then show "f64_is_finite (w_dt_seconds w)" by (rule mag_le_finite) simp
  show "\<not> f64_neg (w_dt_seconds w)"
    unfolding dt using r r0 by (simp add: f64_div_def finite_simps)
qed

section \<open>Speed limit and finite positions\<close>

lemma move_speed_simps:
  "f64_is_finite MOVE_SPEED" "real (units (f64_mag MOVE_SPEED)) = 5 * ONE"
proof -
  show "f64_is_finite MOVE_SPEED" by (simp add: MOVE_SPEED_def f64_read_eval)
  have "units (1024 * 2 ^ 52 + 5 * 2 ^ 50) = 5 * 2 ^ 50 * 2 ^ 1024" by (rule units_at) simp_all
  then have "units (f64_mag MOVE_SPEED) = 5 * 2 ^ 50 * 2 ^ 1024"
    by (simp add: MOVE_SPEED_def f64_mag_def)
  then show "real (units (f64_mag MOVE_SPEED)) = 5 * ONE" by (simp add: ONE_def)
qed

lemma displaced_finite:
  assumes p: "f64_is_finite p" and d: "f64_mag d \<le> f64_mag MOVE_SPEED"
  shows "f64_is_finite (f64_add p d)"
proof -
  let ?n = "inf_mag - 1"
  have arith: "a < b \<Longrightarrow> 0 < c \<Longrightarrow> a + b < 2 * (b + 5 * c)" for a b c :: real by simp
  have fd: "f64_is_finite d" using d move_speed_simps(1) by (rule mag_le_finite)
  have "units (2045 * 2 ^ 52 + (2 ^ 53 - 1)) = (2 ^ 53 - 1) * 2 ^ 2045" by (rule units_at) simp_all
  then have "units ?n = (2 ^ 53 - 1) * 2 ^ 2045" by (simp add: inf_mag_def)
  then have un: "real (units ?n) = 2 ^ 2098 - 2 ^ 2045" by simp
  have up: "real (units ?n) \<le> real (units ?n) + 5 * ONE" by simp
  have near: "2 * (real (units ?n) + 5 * ONE) < real (units ?n) + real (units inf_mag)"
    unfolding un units_inf ONE_def by simp
  have top: "rounds_to (real (units ?n) + 5 * ONE) ?n"
  proof (rule rounds_toI)
    have "Suc ?n = inf_mag" by simp
    then show "2 * (real (units ?n) + 5 * ONE) < real (units ?n) + real (units (Suc ?n))"
      using near by simp
    have "units (?n - 1) < units ?n" by (simp add: inf_mag_def)
    then have "real (units (?n - 1)) < real (units ?n)" by (simp only: of_nat_less_iff)
    then show "real (units (?n - 1)) + real (units ?n) < 2 * (real (units ?n) + 5 * ONE)"
      by (rule arith) simp
  qed simp
  have "\<bar>real_of_int (f64_int p + f64_int d)\<bar> \<le> real (units (f64_mag p)) + real (units (f64_mag d))"
    unfolding of_int_add abs_f64_real[symmetric] by (rule abs_triangle_ineq)
  moreover have "f64_mag p \<le> ?n" using p by (simp add: f64_is_finite_def)
  then have "real (units (f64_mag p)) \<le> real (units ?n)" by (simp only: of_nat_le_iff units_le_iff)
  moreover have "real (units (f64_mag d)) \<le> 5 * ONE"
    unfolding move_speed_simps(2)[symmetric] using d by (simp only: of_nat_le_iff units_le_iff)
  ultimately have "\<bar>real_of_int (f64_int p + f64_int d)\<bar> \<le> real (units ?n) + 5 * ONE" by linarith
  then have "f64_mag (f64_add p d) \<le> ?n"
    by (rule rounds_to_mono[OF _ f64_add_correct(1)[OF p fd] top])
  then have "f64_mag (f64_add p d) < inf_mag" using inf_mag_pos by linarith
  then show ?thesis by (simp only: f64_is_finite_def)
qed

definition finite_vec2 :: "vec2 \<Rightarrow> bool" where
  "finite_vec2 v \<longleftrightarrow> f64_is_finite (fst v) \<and> f64_is_finite (snd v)"

definition character_bounded :: "Character \<Rightarrow> bool" where
  "character_bounded c \<longleftrightarrow> finite_vec2 (ch_position c) \<and>
     f64_mag (fst (ch_velocity c)) \<le> f64_mag MOVE_SPEED \<and>
     f64_mag (snd (ch_velocity c)) \<le> f64_mag MOVE_SPEED"

lemma move_character_bounded:
  assumes dt: "f64_is_finite dt" "f64_mag dt \<le> f64_mag f64_one"
    and d: "finite_vec2 d" and c: "character_bounded c"
  shows "character_bounded (move_character dt d c)"
proof -
  have speed: "f64_mag (f64_mul u MOVE_SPEED) \<le> f64_mag MOVE_SPEED"
    if u: "f64_mag u \<le> f64_mag f64_one" for u
    by (rule mul_le_right[OF mag_le_finite[OF u f64_one_simps(1)] move_speed_simps(1) u])
  have place: "f64_is_finite (f64_add p (f64_mul (f64_mul u MOVE_SPEED) dt))"
    if u: "f64_mag u \<le> f64_mag f64_one" and p: "f64_is_finite p" for u p
  proof -
    have fv: "f64_is_finite (f64_mul u MOVE_SPEED)"
      using speed[OF u] move_speed_simps(1) by (rule mag_le_finite)
    show ?thesis by (rule displaced_finite[OF p order_trans[OF mul_le_left[OF fv dt] speed[OF u]]])
  qed
  show ?thesis
    using speed place clamp_magnitude_components[of "fst d" "snd d"] c d
    by (simp add: character_bounded_def finite_vec2_def move_character_def Let_def)
qed

definition world_bounded :: "World \<Rightarrow> bool" where
  "world_bounded w \<longleftrightarrow> (\<forall>c \<in> set (w_characters w). character_bounded c)"

lemma update_first_all:
  "(\<And>x. P x \<Longrightarrow> P (f x)) \<Longrightarrow> \<forall>x \<in> set xs. P x \<Longrightarrow> \<forall>x \<in> set (update_first Q f xs). P x"
  by (induction xs) auto

lemma apply_movement_bounded:
  assumes "world_wf w" and "finite_vec2 (si_move_dir i)" and "world_bounded w"
  shows "world_bounded (apply_movement i w)"
proof -
  note move = move_character_bounded[OF dt_bounds(1,3)[OF assms(1)] assms(2)]
  have "w_characters (apply_movement i w) =
      update_first (\<lambda>c. ch_player_id c = si_player_id i)
        (move_character (w_dt_seconds w) (si_move_dir i)) (w_characters w)"
    by (simp add: apply_movement_def)
  moreover have "\<forall>c \<in> set (update_first (\<lambda>c. ch_player_id c = si_player_id i)
      (move_character (w_dt_seconds w) (si_move_dir i)) (w_characters w)). character_bounded c"
    by (rule update_first_all) (use move assms(3) in \<open>auto simp: world_bounded_def\<close>)
  ultimately show ?thesis by (simp add: world_bounded_def)
qed

lemma apply_movement_wf: "world_wf (apply_movement i w) = world_wf w"
  by (simp add: world_wf_def)

lemma fold_movement_bounded:
  "world_wf w \<Longrightarrow> \<forall>i \<in> set is. finite_vec2 (si_move_dir i) \<Longrightarrow> world_bounded w \<Longrightarrow>
     world_bounded (fold apply_movement is w)"
  by (induction "is" arbitrary: w) (simp_all add: apply_movement_bounded apply_movement_wf)

lemma Character_new_bounded: "character_bounded (Character_new e p)"
  by (simp add: character_bounded_def finite_vec2_def Character_new_def)

section \<open>Rest\<close>

lemma add_zero_same:
  assumes x: "f64_is_finite x"
  shows "same_f64 (f64_add x f64_zero) x"
proof (cases "f64_mag x = 0 \<and> f64_neg x")
  case True
  then have "f64_int x = 0" by (simp add: f64_int_def)
  then have "rounds_to 0 (f64_mag (f64_add x f64_zero))"
    using f64_add_correct(1)[OF x f64_zero_simps(3)] by simp
  then have "f64_mag (f64_add x f64_zero) = 0" using rounds_to_0 rounds_to_unique by blast
  then show ?thesis
    using True f64_add_correct(3)[OF x f64_zero_simps(3)] finite_simps(1)[OF x]
    by (simp add: same_f64_def f64_eq_iff)
next
  case False
  then show ?thesis
    using f64_add_zero_right[OF x] finite_simps(1)[OF x] by (auto simp: same_f64_def f64_eq_iff)
qed

lemma zero_motion:
  assumes "world_wf w" and "finite_vec2 (ch_position c)"
  shows "ch_velocity (move_character (w_dt_seconds w) (f64_zero, f64_zero) c) = (f64_zero, f64_zero) \<and>
    same_vec2 (ch_position (move_character (w_dt_seconds w) (f64_zero, f64_zero) c)) (ch_position c)"
proof -
  note dt = dt_bounds[OF assms(1)]
  have clamp: "clamp_magnitude (f64_zero, f64_zero) f64_one = (f64_zero, f64_zero)"
    by (simp add: clamp_magnitude_def f64_eval)
  have v: "f64_mul f64_zero MOVE_SPEED = f64_zero" by (simp add: f64_eval MOVE_SPEED_def)
  have d: "f64_mul f64_zero (w_dt_seconds w) = f64_zero"
    using f64_mul_zero_left[OF dt(1)] dt(2) by (simp add: f64_pack_def f64_zero_def)
  show ?thesis
    using assms(2) by (simp add: move_character_def clamp v d same_vec2_def add_zero_same finite_vec2_def)
qed

section \<open>Properties\<close>

text \<open>
  Speed limit and finiteness: whatever finite directions the inputs carry, after a tick no
  velocity component exceeds \<open>MOVE_SPEED\<close> and every position is still a finite number, rounding
  included.
\<close>

theorem advance_keeps_world_bounded:
  assumes "world_wf w" and "world_bounded w" and "\<forall>i \<in> set is. finite_vec2 (si_move_dir i)"
    and "advance p w t is = Done (w', s)"
  shows "world_bounded w'"
  using fold_movement_bounded[OF assms(1,3,2)] assms(4)
  by (auto simp: advance_Done_iff world_bounded_def)

theorem advance_keeps_world_bounded_witness:
  "\<exists>w' s. advance Release demo_world 41
      [\<lparr>si_player_id = 3, si_move_dir = (0x7fefffffffffffff, 0x4008000000000000)\<rparr>] = Done (w', s) \<and>
    world_bounded w'"
proof -
  let ?is = "[\<lparr>si_player_id = 3, si_move_dir = (0x7fefffffffffffff, 0x4008000000000000)\<rparr>]"
  have "is_done (advance Release demo_world (w_tick demo_world) ?is)"
    by (rule sim.advance_total) (simp_all add: demo_world_players)
  then obtain w' s where adv: "advance Release demo_world 41 ?is = Done (w', s)"
    by (auto simp: is_done_iff demo_world_players)
  have "world_bounded w'"
    by (rule advance_keeps_world_bounded[OF demo_world_wf _ _ adv])
       (simp_all add: world_bounded_def demo_world_def Character_new_bounded finite_vec2_def f64_read_eval)
  with adv show ?thesis by blast
qed

end
