(* ===== verification/Wire.thy ===== *)
theory Wire
  imports Sim
begin

text \<open>
  The wire messages and their conversions, \<^verbatim>\<open>crates/wire/src/lib.rs\<close> and \<^verbatim>\<open>channels.rs\<close>. A protobuf
  \<^verbatim>\<open>repeated double\<close> is a list, so the conversions back to simulation types can fail; their
  errors are the sources' messages. The byte encoding itself (\<^verbatim>\<open>prost\<close>) is third-party code and
  is a parameter of the theories that send messages.
\<close>

section \<open>Channels\<close>

definition CHANNEL_REALTIME :: u8 where "CHANNEL_REALTIME = 0"
definition CHANNEL_CONTROL :: u8 where "CHANNEL_CONTROL = 1"

section \<open>Messages\<close>

type_synonym InputSeq = u64

datatype ClientHello = ClientHello

record ServerWelcome =
  sw_target_tick_floor :: Tick
  sw_tick_rate_hz :: u32
  sw_player_id :: u32
  sw_controlled_entity_id :: EntityId

record EntitySnapshotProto =
  ep_entity_id :: EntityId
  ep_position :: "f64 list"
  ep_velocity :: "f64 list"

record JoinBaseline =
  jb_tick :: Tick
  jb_entities :: "EntitySnapshotProto list"
  jb_digest :: u64

record InputCmdProto =
  ic_tick :: Tick
  ic_input_seq :: InputSeq
  ic_move_dir :: "f64 list"

record SnapshotProto =
  sp_tick :: Tick
  sp_entities :: "EntitySnapshotProto list"
  sp_digest :: u64
  sp_target_tick_floor :: Tick

record TimeSyncPing =
  ping_client_timestamp :: u64

record TimeSyncPong =
  pong_server_tick :: Tick
  pong_server_timestamp :: u64
  pong_ping_timestamp_echo :: u64

record AppliedInputProto =
  aip_tick :: Tick
  aip_player_id :: u32
  aip_move_dir :: "f64 list"
  aip_is_fallback :: bool

record PlayerEntityMapping =
  pem_player_id :: u32
  pem_entity_id :: EntityId

record TuningParameter =
  tp_key :: string
  tp_value :: f64

record BuildFingerprint =
  bf_binary_sha256 :: string
  bf_target_triple :: string
  bf_profile :: string
  bf_git_commit :: string

record ReplayArtifact =
  ra_replay_format_version :: u32
  ra_initial_baseline :: "JoinBaseline option"
  ra_seed :: u64
  ra_rng_algorithm :: string
  ra_tick_rate_hz :: u32
  ra_state_digest_algo_id :: string
  ra_entity_spawn_order :: "u32 list"
  ra_player_entity_mapping :: "PlayerEntityMapping list"
  ra_tuning_parameters :: "TuningParameter list"
  ra_inputs :: "AppliedInputProto list"
  ra_build_fingerprint :: "BuildFingerprint option"
  ra_final_digest :: u64
  ra_checkpoint_tick :: Tick
  ra_end_reason :: string
  ra_test_mode :: bool
  ra_test_player_ids :: "u32 list"

section \<open>Conversions\<close>

text \<open>\<^verbatim>\<open>[f64; 2]::to_vec\<close> and the way back, for a list already known to have two elements.\<close>

definition to_vec :: "vec2 \<Rightarrow> f64 list" where
  "to_vec v = [fst v, snd v]"

definition vec2_of :: "f64 list \<Rightarrow> vec2" where
  "vec2_of xs = (xs ! 0, xs ! 1)"

lemma length_to_vec [simp]: "length (to_vec v) = 2"
  by (simp add: to_vec_def)

lemma vec2_of_to_vec [simp]: "vec2_of (to_vec v) = v"
  by (simp add: vec2_of_def to_vec_def)

lemma to_vec_vec2_of [simp]: "length xs = 2 \<Longrightarrow> to_vec (vec2_of xs) = xs"
  by (auto simp: to_vec_def vec2_of_def numeral_2_eq_2 length_Suc_conv)

text \<open>\<^verbatim>\<open>collect::<Result<Vec<_>, _>>()\<close>: the first error, or all values.\<close>

fun collect_results :: "('a \<Rightarrow> 'e + 'b) \<Rightarrow> 'a list \<Rightarrow> 'e + 'b list" where
  "collect_results f [] = Inr []"
| "collect_results f (x # xs) =
     (case f x of Inl e \<Rightarrow> Inl e
      | Inr y \<Rightarrow> (case collect_results f xs of Inl e \<Rightarrow> Inl e | Inr ys \<Rightarrow> Inr (y # ys)))"

lemma collect_results_Inr_iff:
  "collect_results f xs = Inr ys \<longleftrightarrow> list_all2 (\<lambda>x y. f x = Inr y) xs ys"
proof (induction xs arbitrary: ys)
  case (Cons x xs)
  show ?case
    by (cases "f x"; cases "collect_results f xs") (auto simp: list_all2_Cons1 Cons.IH[symmetric])
qed auto

lemma collect_results_Inl_iff:
  "collect_results f xs = Inl e \<longleftrightarrow>
     (\<exists>us v vs. xs = us @ v # vs \<and> (\<forall>u \<in> set us. \<exists>y. f u = Inr y) \<and> f v = Inl e)"
proof (induction xs)
  case Nil
  then show ?case by simp
next
  case (Cons x xs)
  show ?case
  proof (cases "f x")
    case (Inl d)
    show ?thesis
    proof
      assume "collect_results f (x # xs) = Inl e"
      with Inl have "x # xs = [] @ x # xs \<and> (\<forall>u \<in> set []. \<exists>y. f u = Inr y) \<and> f x = Inl e" by simp
      then show "\<exists>us v vs. x # xs = us @ v # vs \<and> (\<forall>u \<in> set us. \<exists>y. f u = Inr y) \<and> f v = Inl e"
        by blast
    next
      assume "\<exists>us v vs. x # xs = us @ v # vs \<and> (\<forall>u \<in> set us. \<exists>y. f u = Inr y) \<and> f v = Inl e"
      with Inl show "collect_results f (x # xs) = Inl e" by (auto simp: Cons_eq_append_conv)
    qed
  next
    case (Inr y)
    have "(\<exists>us v vs. x # xs = us @ v # vs \<and> (\<forall>u \<in> set us. \<exists>y. f u = Inr y) \<and> f v = Inl e) \<longleftrightarrow>
          (\<exists>us v vs. xs = us @ v # vs \<and> (\<forall>u \<in> set us. \<exists>y. f u = Inr y) \<and> f v = Inl e)" (is "?L = ?R")
    proof
      assume ?L
      then obtain us v vs where split: "x # xs = us @ v # vs" "\<forall>u \<in> set us. \<exists>y. f u = Inr y" "f v = Inl e"
        by blast
      with Inr obtain us' where "us = x # us'" by (cases us) auto
      with split show ?R by auto
    next
      assume ?R
      then obtain us v vs where "xs = us @ v # vs" "\<forall>u \<in> set us. \<exists>y. f u = Inr y" "f v = Inl e" by blast
      with Inr have "x # xs = (x # us) @ v # vs \<and> (\<forall>u \<in> set (x # us). \<exists>y. f u = Inr y) \<and> f v = Inl e"
        by simp
      then show ?L by blast
    qed
    have "collect_results f (x # xs) = Inl e \<longleftrightarrow> collect_results f xs = Inl e"
      using Inr by (simp split: sum.split)
    then show ?thesis
      using \<open>?L \<longleftrightarrow> ?R\<close> Cons.IH by simp
  qed
qed

definition EntitySnapshotProto_from :: "EntitySnapshot \<Rightarrow> EntitySnapshotProto" where
  "EntitySnapshotProto_from e =
     \<lparr>ep_entity_id = es_entity_id e, ep_position = to_vec (es_position e),
      ep_velocity = to_vec (es_velocity e)\<rparr>"

definition EntitySnapshot_try_from :: "EntitySnapshotProto \<Rightarrow> string + EntitySnapshot" where
  "EntitySnapshot_try_from e =
     (if length (ep_position e) \<noteq> 2 then Inl ''position must have exactly 2 elements''
      else if length (ep_velocity e) \<noteq> 2 then Inl ''velocity must have exactly 2 elements''
      else Inr \<lparr>es_entity_id = ep_entity_id e, es_position = vec2_of (ep_position e),
                es_velocity = vec2_of (ep_velocity e)\<rparr>)"

definition JoinBaseline_from :: "Baseline \<Rightarrow> JoinBaseline" where
  "JoinBaseline_from b =
     \<lparr>jb_tick = bl_tick b, jb_entities = map EntitySnapshotProto_from (bl_entities b),
      jb_digest = bl_digest b\<rparr>"

definition Baseline_try_from :: "JoinBaseline \<Rightarrow> string + Baseline" where
  "Baseline_try_from b =
     (case collect_results EntitySnapshot_try_from (jb_entities b) of
        Inl e \<Rightarrow> Inl e
      | Inr entities \<Rightarrow> Inr \<lparr>bl_tick = jb_tick b, bl_entities = entities, bl_digest = jb_digest b\<rparr>)"

definition SnapshotProto_from :: "Snapshot \<Rightarrow> SnapshotProto" where
  "SnapshotProto_from s =
     \<lparr>sp_tick = sn_tick s, sp_entities = map EntitySnapshotProto_from (sn_entities s),
      sp_digest = sn_digest s, sp_target_tick_floor = 0\<rparr>"

definition Snapshot_try_from :: "SnapshotProto \<Rightarrow> string + Snapshot" where
  "Snapshot_try_from s =
     (case collect_results EntitySnapshot_try_from (sp_entities s) of
        Inl e \<Rightarrow> Inl e
      | Inr entities \<Rightarrow> Inr \<lparr>sn_tick = sp_tick s, sn_entities = entities, sn_digest = sp_digest s\<rparr>)"

section \<open>What a conversion promises\<close>

text \<open>
  Every message type converts back to what it was made from; for most, in addition, only images
  of the forward conversion are accepted, so the two directions are inverse to each other.
\<close>

locale proto_encoding =
  fixes enc :: "'a \<Rightarrow> 'p" and dec :: "'p \<Rightarrow> 'e + 'a"
  assumes dec_enc: "dec (enc x) = Inr x"
begin

lemma enc_inject: "enc x = enc y \<longleftrightarrow> x = y"
  by (metis dec_enc sum.inject(2))

lemma map_enc_inject: "map enc xs = map enc ys \<longleftrightarrow> xs = ys"
  by (simp add: inj_map_eq_map inj_def enc_inject)

lemma collect_enc: "collect_results dec (map enc xs) = Inr xs"
  by (simp add: collect_results_Inr_iff list_all2_conv_all_nth dec_enc)

end

locale proto_bijection = proto_encoding enc dec
  for enc :: "'a \<Rightarrow> 'p" and dec :: "'p \<Rightarrow> 'e + 'a" +
  assumes enc_dec: "dec p = Inr x \<Longrightarrow> enc x = p"
begin

lemma dec_iff: "dec p = Inr x \<longleftrightarrow> p = enc x"
  using dec_enc enc_dec by auto

lemma collect_dec_iff: "collect_results dec ps = Inr xs \<longleftrightarrow> ps = map enc xs"
  by (auto simp: collect_results_Inr_iff list_all2_conv_all_nth dec_iff intro!: nth_equalityI)

end

interpretation entity: proto_bijection EntitySnapshotProto_from EntitySnapshot_try_from
  by unfold_locales
     (auto simp: EntitySnapshotProto_from_def EntitySnapshot_try_from_def split: if_splits)

interpretation baseline: proto_bijection JoinBaseline_from Baseline_try_from
  by unfold_locales
     (auto simp: JoinBaseline_from_def Baseline_try_from_def entity.collect_enc
       entity.collect_dec_iff split: sum.splits)

interpretation snapshot: proto_encoding SnapshotProto_from Snapshot_try_from
  by unfold_locales (simp add: SnapshotProto_from_def Snapshot_try_from_def entity.collect_enc)

section \<open>Properties\<close>

text \<open>
  C5. \<^verbatim>\<open>JoinBaseline\<close> and \<^verbatim>\<open>Baseline\<close> convert back and forth without loss, and the messages that
  convert are exactly the conversions of baselines; likewise, up to the floor that the server adds,
  for snapshots.
\<close>

theorem baseline_conversion_exact:
  "(Baseline_try_from m = Inr b \<longleftrightarrow> m = JoinBaseline_from b) \<and>
   (Snapshot_try_from n = Inr s \<longleftrightarrow>
      n = (SnapshotProto_from s)\<lparr>sp_target_tick_floor := sp_target_tick_floor n\<rparr>)"
proof
  show "Baseline_try_from m = Inr b \<longleftrightarrow> m = JoinBaseline_from b" by (rule baseline.dec_iff)
  show "Snapshot_try_from n = Inr s \<longleftrightarrow>
      n = (SnapshotProto_from s)\<lparr>sp_target_tick_floor := sp_target_tick_floor n\<rparr>"
    by (cases n; cases s)
       (auto simp: Snapshot_try_from_def SnapshotProto_from_def entity.collect_dec_iff
         entity.collect_enc entity.map_enc_inject split: sum.splits)
qed

text \<open>
  A message is refused exactly when an entity in it has a position or velocity of the wrong
  length; the error is that of the first such entity, its position checked before its velocity.
\<close>

theorem baseline_conversion_error:
  "Baseline_try_from m = Inl e \<longleftrightarrow>
     (\<exists>good bad rest. jb_entities m = good @ bad # rest \<and>
        (\<forall>g \<in> set good. length (ep_position g) = 2 \<and> length (ep_velocity g) = 2) \<and>
        (length (ep_position bad) \<noteq> 2 \<and> e = ''position must have exactly 2 elements'' \<or>
         length (ep_position bad) = 2 \<and> length (ep_velocity bad) \<noteq> 2 \<and>
           e = ''velocity must have exactly 2 elements''))"
proof -
  have ok: "(\<exists>y. EntitySnapshot_try_from g = Inr y) \<longleftrightarrow>
      length (ep_position g) = 2 \<and> length (ep_velocity g) = 2" for g
    by (auto simp: EntitySnapshot_try_from_def)
  have bad: "EntitySnapshot_try_from g = Inl e \<longleftrightarrow>
      length (ep_position g) \<noteq> 2 \<and> e = ''position must have exactly 2 elements'' \<or>
      length (ep_position g) = 2 \<and> length (ep_velocity g) \<noteq> 2 \<and>
        e = ''velocity must have exactly 2 elements''" for g
    by (auto simp: EntitySnapshot_try_from_def)
  have "Baseline_try_from m = Inl e \<longleftrightarrow>
      collect_results EntitySnapshot_try_from (jb_entities m) = Inl e"
    by (auto simp: Baseline_try_from_def split: sum.splits)
  then show ?thesis by (simp only: collect_results_Inl_iff ok bad)
qed

theorem baseline_conversion_error_witness:
  "Baseline_try_from \<lparr>jb_tick = 3,
     jb_entities = [\<lparr>ep_entity_id = 1, ep_position = [0, 0], ep_velocity = [0, 0]\<rparr>,
                    \<lparr>ep_entity_id = 2, ep_position = [0, 0], ep_velocity = [0]\<rparr>,
                    \<lparr>ep_entity_id = 3, ep_position = [], ep_velocity = []\<rparr>], jb_digest = 9\<rparr>
   = Inl ''velocity must have exactly 2 elements''"
  unfolding baseline_conversion_error
  by (rule exI[of _ "[\<lparr>ep_entity_id = 1, ep_position = [0, 0], ep_velocity = [0, 0]\<rparr>]"]) auto

end
