(* ===== verification/HashMap.thy ===== *)
theory HashMap
  imports Prelude "HOL-Library.AList"
begin

text \<open>
  \<^verbatim>\<open>std::collections::HashMap\<close> as the sources use it. The interface is the locale \<open>hash_map\<close>:
  lookup, insertion (which replaces the value of a present key), removal, retention by key, the
  keys and the length, with the laws the standard library documents. The model that implements
  it is an association list with distinct keys; the list order stands for the map's unspecified
  iteration order, and the facts proved inside the locale do not depend on it.
\<close>

type_synonym ('k, 'v) hashmap = "('k \<times> 'v) list"

definition hm_get :: "('k, 'v) hashmap \<Rightarrow> 'k \<Rightarrow> 'v option" where
  "hm_get m k = map_of m k"

definition hm_insert :: "'k \<Rightarrow> 'v \<Rightarrow> ('k, 'v) hashmap \<Rightarrow> ('k, 'v) hashmap" where
  "hm_insert k v m = AList.update k v m"

definition hm_remove :: "'k \<Rightarrow> ('k, 'v) hashmap \<Rightarrow> ('k, 'v) hashmap" where
  "hm_remove k m = AList.delete k m"

definition hm_retain :: "('k \<Rightarrow> bool) \<Rightarrow> ('k, 'v) hashmap \<Rightarrow> ('k, 'v) hashmap" where
  "hm_retain P m = filter (\<lambda>(k, v). P k) m"

definition hm_keys :: "('k, 'v) hashmap \<Rightarrow> 'k list" where
  "hm_keys m = map fst m"

definition hm_len :: "('k, 'v) hashmap \<Rightarrow> nat" where
  "hm_len m = length m"

definition hm_wf :: "('k, 'v) hashmap \<Rightarrow> bool" where
  "hm_wf m \<longleftrightarrow> distinct (map fst m)"

abbreviation hm_has :: "('k, 'v) hashmap \<Rightarrow> 'k \<Rightarrow> bool" where
  "hm_has m k \<equiv> hm_get m k \<noteq> None"

section \<open>The interface\<close>

locale hash_map =
  fixes empty :: "'m"
    and get :: "'m \<Rightarrow> 'k \<Rightarrow> 'v option"
    and insert :: "'k \<Rightarrow> 'v \<Rightarrow> 'm \<Rightarrow> 'm"
    and remove :: "'k \<Rightarrow> 'm \<Rightarrow> 'm"
    and retain :: "('k \<Rightarrow> bool) \<Rightarrow> 'm \<Rightarrow> 'm"
    and keys :: "'m \<Rightarrow> 'k list"
    and len :: "'m \<Rightarrow> nat"
    and wf :: "'m \<Rightarrow> bool"
  assumes get_empty: "get empty k = None"
    and get_insert: "get (insert k v m) k' = (if k' = k then Some v else get m k')"
    and get_remove: "get (remove k m) k' = (if k' = k then None else get m k')"
    and get_retain: "wf m \<Longrightarrow> get (retain P m) k = (if P k then get m k else None)"
    and keys_get: "k \<in> set (keys m) \<longleftrightarrow> get m k \<noteq> None"
    and keys_distinct: "wf m \<Longrightarrow> distinct (keys m)"
    and len_keys: "len m = length (keys m)"
    and wf_empty: "wf empty"
    and wf_insert: "wf m \<Longrightarrow> wf (insert k v m)"
    and wf_remove: "wf m \<Longrightarrow> wf (remove k m)"
    and wf_retain: "wf m \<Longrightarrow> wf (retain P m)"
begin

text \<open>
  The loop \<^verbatim>\<open>for k in ks { m.insert(k, f(k)) }\<close>: what a lookup returns afterwards does not
  depend on the order of the keys.
\<close>

lemma get_insert_loop:
  "get (fold (\<lambda>k. insert k (f k)) ks m) k = (if k \<in> set ks then Some (f k) else get m k)"
  by (induction ks arbitrary: m) (auto simp: get_insert)

lemma insert_loop_order:
  assumes "set ks = set ks'"
  shows "get (fold (\<lambda>k. insert k (f k)) ks m) = get (fold (\<lambda>k. insert k (f k)) ks' m)"
  using assms by (auto simp: get_insert_loop)

lemma wf_insert_loop: "wf m \<Longrightarrow> wf (fold (\<lambda>k. insert k (f k)) ks m)"
  by (induction ks arbitrary: m) (simp_all add: wf_insert)

text \<open>Building a map from pairs: the last pair of a key wins, as in \<^verbatim>\<open>collect()\<close>.\<close>

lemma get_collect:
  "get (fold (\<lambda>(k, v). insert k v) kvs m) k =
     (case map_of (rev kvs) k of None \<Rightarrow> get m k | Some v \<Rightarrow> Some v)"
  by (induction kvs arbitrary: m) (auto simp: get_insert map_add_def split: option.splits)

lemma wf_collect: "wf m \<Longrightarrow> wf (fold (\<lambda>(k, v). insert k v) kvs m)"
  by (induction kvs arbitrary: m) (auto simp: wf_insert)

lemma set_keys: "set (keys m) = {k. get m k \<noteq> None}"
  using keys_get by blast

lemma finite_dom: "finite {k. get m k \<noteq> None}"
  unfolding set_keys[symmetric] by simp

lemma len_card: "wf m \<Longrightarrow> len m = card {k. get m k \<noteq> None}"
  unfolding set_keys[symmetric] by (simp add: len_keys distinct_card keys_distinct)

lemma len_insert:
  assumes "wf m"
  shows "len (insert k v m) = (if get m k = None then Suc (len m) else len m)"
proof -
  let ?K = "{k. get m k \<noteq> None}"
  have fin: "finite ?K" by (rule finite_dom)
  have "{j. get (insert k v m) j \<noteq> None} = Set.insert k ?K"
    by (auto simp: get_insert)
  then have "len (insert k v m) = card (Set.insert k ?K)"
    by (simp add: len_card wf_insert assms)
  with fin show ?thesis
    by (auto simp: len_card assms card_insert_if)
qed

lemma len_remove_le:
  assumes "wf m"
  shows "len (remove k m) \<le> len m"
proof -
  have fin: "finite {k. get m k \<noteq> None}" by (rule finite_dom)
  have "{j. get (remove k m) j \<noteq> None} \<subseteq> {j. get m j \<noteq> None}"
    by (auto simp: get_remove)
  with fin show ?thesis
    by (simp add: len_card assms wf_remove card_mono)
qed

text \<open>Lookup after each operation, and well-formedness after each, as rewrite bundles.\<close>

lemmas get_simps = get_empty get_insert get_remove get_insert_loop
lemmas wf_intros = wf_empty wf_insert wf_remove wf_retain wf_insert_loop wf_collect

end

section \<open>The association-list implementation satisfies it\<close>

lemma map_of_hm_retain:
  "distinct (map fst m) \<Longrightarrow>
     map_of (filter (\<lambda>(k, v). P k) m) k = (if P k then map_of m k else None)"
  by (induction m) (auto simp: map_of_eq_None_iff)

lemma distinct_hm_retain:
  "distinct (map fst m) \<Longrightarrow> distinct (map fst (filter (\<lambda>(k, v). P k) m))"
  by (induction m) auto

interpretation hm: hash_map "[]" hm_get hm_insert hm_remove hm_retain hm_keys hm_len hm_wf
proof unfold_locales
  fix k k' :: 'a and v :: 'b and m :: "('a, 'b) hashmap" and P
  show "hm_get [] k = None" by (simp add: hm_get_def)
  show "hm_get (hm_insert k v m) k' = (if k' = k then Some v else hm_get m k')"
    by (simp add: hm_get_def hm_insert_def update_conv')
  show "hm_get (hm_remove k m) k' = (if k' = k then None else hm_get m k')"
    by (simp add: hm_get_def hm_remove_def delete_conv')
  show "hm_wf m \<Longrightarrow> hm_get (hm_retain P m) k = (if P k then hm_get m k else None)"
    by (simp add: hm_get_def hm_retain_def hm_wf_def map_of_hm_retain)
  show "(k \<in> set (hm_keys m)) = (hm_get m k \<noteq> None)"
    by (simp add: hm_keys_def hm_get_def map_of_eq_None_iff)
  show "hm_wf m \<Longrightarrow> distinct (hm_keys m)" by (simp add: hm_wf_def hm_keys_def)
  show "hm_len m = length (hm_keys m)" by (simp add: hm_len_def hm_keys_def)
  show "hm_wf ([] :: ('a, 'b) hashmap)" by (simp add: hm_wf_def)
  show "hm_wf m \<Longrightarrow> hm_wf (hm_insert k v m)"
    by (simp add: hm_wf_def hm_insert_def distinct_update)
  show "hm_wf m \<Longrightarrow> hm_wf (hm_remove k m)"
    by (simp add: hm_wf_def hm_remove_def distinct_delete)
  show "hm_wf m \<Longrightarrow> hm_wf (hm_retain P m)"
    by (simp add: hm_wf_def hm_retain_def distinct_hm_retain)
qed

declare hm.get_simps [simp]
declare hm.wf_intros [simp, intro]

lemmas hashmap_eval =
  hm_get_def hm_insert_def hm_remove_def hm_retain_def hm_keys_def hm_len_def hm_wf_def

end
