(* ===== verification/InputBuffer.thy ===== *)
theory InputBuffer
  imports Wire HashMap
begin

text \<open>
  Input buffering of the Server Edge, \<^verbatim>\<open>crates/server/src/input_buffer.rs\<close>, with the
  configuration and the result type it takes from \<^verbatim>\<open>validation.rs\<close>: one entry per player and
  tick, the greatest input sequence number wins, a tie makes the entry unusable, and a per-tick
  limit on how many inputs an entry takes. The locale \<open>input_slots\<close> is what the server relies on.
\<close>

section \<open>Data\<close>

record ValidationConfig =
  vc_max_future_ticks :: u64
  vc_input_rate_limit_per_sec :: u32
  vc_tick_rate_hz :: u32

definition ValidationConfig_default :: ValidationConfig where
  "ValidationConfig_default =
     \<lparr>vc_max_future_ticks = 60, vc_input_rate_limit_per_sec = 120, vc_tick_rate_hz = 30\<rparr>"

datatype BufferResult =
    BufAccepted (clamped: bool)
  | RateLimited
  | InputSeqTie

record BufferEntry =
  be_selected :: InputCmdProto
  be_max_input_seq :: u64
  be_max_seq_tied :: bool
  be_receive_count :: u32

record InputBuffer =
  ib_config :: ValidationConfig
  ib_buffer :: "(PlayerId \<times> Tick, BufferEntry) hashmap"
  ib_per_tick_limit :: u32

section \<open>Operations\<close>

definition div_ceil :: "u32 \<Rightarrow> u32 \<Rightarrow> u32 outcome" where
  "div_ceil a b =
     (if b = 0 then Panic DivideByZero
      else Done (if 0 < a mod b then a div b + 1 else a div b))"

definition InputBuffer_new :: "ValidationConfig \<Rightarrow> InputBuffer outcome" where
  "InputBuffer_new config =
     obind (div_ceil (vc_input_rate_limit_per_sec config) (vc_tick_rate_hz config))
       (\<lambda>per_tick_limit.
          Done \<lparr>ib_config = config, ib_buffer = [], ib_per_tick_limit = per_tick_limit\<rparr>)"

definition dir_mag_sq :: "f64 list \<Rightarrow> f64" where
  "dir_mag_sq d = f64_add (f64_mul (d ! 0) (d ! 0)) (f64_mul (d ! 1) (d ! 1))"

definition needs_magnitude_clamp :: "f64 list \<Rightarrow> bool" where
  "needs_magnitude_clamp move_dir =
     (if length move_dir \<noteq> 2 then False else f64_gt (dir_mag_sq move_dir) f64_one)"

definition buffer_clamp_magnitude :: "f64 list \<Rightarrow> f64 list" where
  "buffer_clamp_magnitude move_dir =
     (if length move_dir \<noteq> 2 then move_dir
      else if f64_gt (dir_mag_sq move_dir) f64_one then
        [f64_div (move_dir ! 0) (f64_sqrt (dir_mag_sq move_dir)),
         f64_div (move_dir ! 1) (f64_sqrt (dir_mag_sq move_dir))]
      else move_dir)"

definition clamp_input :: "InputCmdProto \<Rightarrow> InputCmdProto" where
  "clamp_input i =
     (if needs_magnitude_clamp (ic_move_dir i)
      then i\<lparr>ic_move_dir := buffer_clamp_magnitude (ic_move_dir i)\<rparr> else i)"

text \<open>The sequence-number rule: a greater number replaces, an equal one ties, a smaller one is ignored.\<close>

definition select_input :: "InputCmdProto \<Rightarrow> BufferEntry \<Rightarrow> BufferEntry" where
  "select_input input entry =
     (if be_max_input_seq entry < ic_input_seq input then
        entry\<lparr>be_max_input_seq := ic_input_seq input, be_max_seq_tied := False,
              be_selected := input\<rparr>
      else if ic_input_seq input = be_max_input_seq entry then entry\<lparr>be_max_seq_tied := True\<rparr>
      else entry)"

text \<open>
  \<^verbatim>\<open>receive_count += 1\<close> cannot overflow: it is guarded by \<^verbatim>\<open>receive_count < per_tick_limit\<close>.
\<close>

definition try_buffer :: "InputBuffer \<Rightarrow> PlayerId \<Rightarrow> InputCmdProto \<Rightarrow> BufferResult \<times> InputBuffer" where
  "try_buffer ib player_id input =
     (let key = (player_id, ic_tick input) in
      case hm_get (ib_buffer ib) key of
        Some entry \<Rightarrow>
          if ib_per_tick_limit ib \<le> be_receive_count entry then (RateLimited, ib)
          else
            let entry = entry\<lparr>be_receive_count := be_receive_count entry + 1\<rparr>;
                entry = select_input input entry;
                was_clamped = needs_magnitude_clamp (ic_move_dir (be_selected entry));
                entry = entry\<lparr>be_selected := clamp_input (be_selected entry)\<rparr>
            in (BufAccepted was_clamped, ib\<lparr>ib_buffer := hm_insert key entry (ib_buffer ib)\<rparr>)
      | None \<Rightarrow>
          let was_clamped = needs_magnitude_clamp (ic_move_dir input);
              entry = \<lparr>be_selected = clamp_input input, be_max_input_seq = ic_input_seq input,
                       be_max_seq_tied = False, be_receive_count = 1\<rparr>
          in (BufAccepted was_clamped, ib\<lparr>ib_buffer := hm_insert key entry (ib_buffer ib)\<rparr>))"

definition take_input :: "InputBuffer \<Rightarrow> PlayerId \<Rightarrow> Tick \<Rightarrow> InputCmdProto option \<times> InputBuffer" where
  "take_input ib player_id tick =
     (let key = (player_id, tick) in
      case hm_get (ib_buffer ib) key of
        None \<Rightarrow> (None, ib)
      | Some entry \<Rightarrow>
          let ib = ib\<lparr>ib_buffer := hm_remove key (ib_buffer ib)\<rparr>
          in if be_max_seq_tied entry then (None, ib) else (Some (be_selected entry), ib))"

definition evict_before :: "InputBuffer \<Rightarrow> Tick \<Rightarrow> InputBuffer" where
  "evict_before ib tick = ib\<lparr>ib_buffer := hm_retain (\<lambda>(_, t). tick \<le> t) (ib_buffer ib)\<rparr>"

definition slot :: "InputBuffer \<Rightarrow> PlayerId \<Rightarrow> Tick \<Rightarrow> BufferEntry option" where
  "slot ib player_id tick = hm_get (ib_buffer ib) (player_id, tick)"

definition buffer_wf :: "InputBuffer \<Rightarrow> bool" where
  "buffer_wf ib \<longleftrightarrow> hm_wf (ib_buffer ib)"

section \<open>What the server relies on\<close>

text \<open>
  The buffer is a family of independent slots: an offer touches the slot of its player and tick
  only, taking empties one slot, eviction empties exactly the slots below a tick.
\<close>

locale input_slots =
  fixes slot :: "'b \<Rightarrow> 'p \<Rightarrow> u64 \<Rightarrow> 'e option"
    and offer :: "'b \<Rightarrow> 'p \<Rightarrow> 'i \<Rightarrow> 'r \<times> 'b"
    and take :: "'b \<Rightarrow> 'p \<Rightarrow> u64 \<Rightarrow> 'i option \<times> 'b"
    and evict :: "'b \<Rightarrow> u64 \<Rightarrow> 'b"
    and target :: "'i \<Rightarrow> u64"
    and wf :: "'b \<Rightarrow> bool"
  assumes slot_offer: "(q, t) \<noteq> (p, target i) \<Longrightarrow> slot (snd (offer b p i)) q t = slot b q t"
    and slot_take: "slot (snd (take b p t)) q u = (if (q, u) = (p, t) then None else slot b q u)"
    and take_empty: "slot b p t = None \<Longrightarrow> fst (take b p t) = None"
    and slot_evict: "wf b \<Longrightarrow> slot (evict b t) q u = (if t \<le> u then slot b q u else None)"
    and wf_offer: "wf b \<Longrightarrow> wf (snd (offer b p i))"
    and wf_take: "wf b \<Longrightarrow> wf (snd (take b p t))"
    and wf_evict: "wf b \<Longrightarrow> wf (evict b t)"
begin

text \<open>No slot outside a window of ticks, and no slot of a given player.\<close>

lemma window_offer:
  assumes "\<And>q u. slot b q u \<noteq> None \<Longrightarrow> lo \<le> u \<and> u \<le> hi" and "lo \<le> target i" "target i \<le> hi"
    and "slot (snd (offer b p i)) q u \<noteq> None"
  shows "lo \<le> u \<and> u \<le> hi"
  using assms slot_offer[of q u p i b] by (cases "(q, u) = (p, target i)") auto

lemma window_take:
  assumes "\<And>q u. slot b q u \<noteq> None \<Longrightarrow> lo \<le> u \<and> u \<le> hi"
    and "slot (snd (take b p t)) q u \<noteq> None"
  shows "lo \<le> u \<and> u \<le> hi"
  using assms by (auto simp: slot_take split: if_splits)

lemma window_evict:
  assumes "wf b" and "\<And>q u. slot b q u \<noteq> None \<Longrightarrow> lo \<le> u \<and> u \<le> hi"
    and "slot (evict b t) q u \<noteq> None"
  shows "t \<le> u \<and> u \<le> hi"
  using assms by (auto simp: slot_evict split: if_splits)

text \<open>Taking one slot for each of a list of players: every result is what the slot held before.\<close>

lemma slot_take_all:
  "slot (fold (\<lambda>p b. snd (take b p t)) ps b) q u =
     (if q \<in> set ps \<and> u = t then None else slot b q u)"
  by (induction ps arbitrary: b) (auto simp: slot_take)

lemma wf_take_all: "wf b \<Longrightarrow> wf (fold (\<lambda>p b. snd (take b p t)) ps b)"
  by (induction ps arbitrary: b) (simp_all add: wf_take)

end

lemma snd_try_buffer_cases:
  "snd (try_buffer ib p i) = ib \<or>
   (\<exists>e. snd (try_buffer ib p i) = ib\<lparr>ib_buffer := hm_insert (p, ic_tick i) e (ib_buffer ib)\<rparr>)"
  by (auto simp: try_buffer_def Let_def split: option.splits)

lemma snd_take_input:
  "ib_buffer (snd (take_input ib p t)) =
     (if hm_has (ib_buffer ib) (p, t) then hm_remove (p, t) (ib_buffer ib) else ib_buffer ib)"
  by (auto simp: take_input_def Let_def split: option.splits)

interpretation slots: input_slots slot try_buffer take_input evict_before ic_tick buffer_wf
proof unfold_locales
  fix b p t i and q :: PlayerId and u :: Tick
  show "(q, u) \<noteq> (p, ic_tick i) \<Longrightarrow> slot (snd (try_buffer b p i)) q u = slot b q u"
    using snd_try_buffer_cases[of b p i] by (auto simp: slot_def)
  show "slot (snd (take_input b p t)) q u = (if (q, u) = (p, t) then None else slot b q u)"
    by (auto simp: slot_def snd_take_input)
  show "slot b p t = None \<Longrightarrow> fst (take_input b p t) = None"
    by (simp add: take_input_def slot_def)
  show "buffer_wf b \<Longrightarrow> slot (evict_before b t) q u = (if t \<le> u then slot b q u else None)"
    by (simp add: slot_def buffer_wf_def evict_before_def hm.get_retain)
  show "buffer_wf b \<Longrightarrow> buffer_wf (snd (try_buffer b p i))"
    using snd_try_buffer_cases[of b p i] by (auto simp: buffer_wf_def)
  show "buffer_wf b \<Longrightarrow> buffer_wf (snd (take_input b p t))"
    by (simp add: buffer_wf_def snd_take_input)
  show "buffer_wf b \<Longrightarrow> buffer_wf (evict_before b t)"
    by (simp add: buffer_wf_def evict_before_def)
qed

lemma take_input_slot:
  "fst (take_input ib p t) =
     (case slot ib p t of None \<Rightarrow> None
      | Some e \<Rightarrow> if be_max_seq_tied e then None else Some (be_selected e))"
  by (simp add: take_input_def slot_def split: option.split)

lemma buffer_config [simp]:
  "ib_config (snd (try_buffer ib p i)) = ib_config ib"
  "ib_per_tick_limit (snd (try_buffer ib p i)) = ib_per_tick_limit ib"
  "ib_config (snd (take_input ib p t)) = ib_config ib"
  "ib_per_tick_limit (snd (take_input ib p t)) = ib_per_tick_limit ib"
  "ib_config (evict_before ib t) = ib_config ib"
  "ib_per_tick_limit (evict_before ib t) = ib_per_tick_limit ib"
  using snd_try_buffer_cases[of ib p i]
  by (auto simp: take_input_def evict_before_def Let_def split: option.split)

section \<open>One slot: the rate limit and the selection rule\<close>

fun offer_all ::
  "InputBuffer \<Rightarrow> PlayerId \<Rightarrow> InputCmdProto list \<Rightarrow> BufferResult list \<times> InputBuffer" where
  "offer_all ib p [] = ([], ib)"
| "offer_all ib p (i # is) =
     (let (r, ib') = try_buffer ib p i; (rs, ib'') = offer_all ib' p is in (r # rs, ib''))"

lemma offer_all_snoc:
  "offer_all ib p (is @ [i]) =
     (fst (offer_all ib p is) @ [fst (try_buffer (snd (offer_all ib p is)) p i)],
      snd (try_buffer (snd (offer_all ib p is)) p i))"
  by (induction "is" arbitrary: ib) (simp_all add: Let_def split_beta)

lemma offer_all_limit [simp]: "ib_per_tick_limit (snd (offer_all ib p is)) = ib_per_tick_limit ib"
  by (induction "is" arbitrary: ib) (simp_all add: Let_def split_beta)

declare offer_all.simps(2) [simp del]

text \<open>How an entry reads after the inputs \<open>is\<close> (oldest first) were counted into it.\<close>

definition top_seq :: "InputCmdProto list \<Rightarrow> u64" where
  "top_seq is = Max (ic_input_seq ` set is)"

definition with_top_seq :: "InputCmdProto list \<Rightarrow> InputCmdProto list" where
  "with_top_seq is = filter (\<lambda>i. ic_input_seq i = top_seq is) is"

definition in_unit_disc :: "InputCmdProto list \<Rightarrow> bool" where
  "in_unit_disc is \<longleftrightarrow> (\<forall>i \<in> set is. \<not> needs_magnitude_clamp (ic_move_dir i))"

definition counted :: "InputCmdProto list \<Rightarrow> BufferEntry \<Rightarrow> bool" where
  "counted is e \<longleftrightarrow>
     is \<noteq> [] \<and> unat (be_receive_count e) = length is \<and> be_max_input_seq e = top_seq is \<and>
     (be_max_seq_tied e \<longleftrightarrow> 1 < length (with_top_seq is)) \<and>
     ic_input_seq (be_selected e) = top_seq is \<and>
     (in_unit_disc is \<longrightarrow> be_selected e = hd (with_top_seq is))"

definition count_in :: "InputCmdProto \<Rightarrow> BufferEntry \<Rightarrow> BufferEntry" where
  "count_in i e =
     (let e = select_input i (e\<lparr>be_receive_count := be_receive_count e + 1\<rparr>)
      in e\<lparr>be_selected := clamp_input (be_selected e)\<rparr>)"

definition first_entry :: "InputCmdProto \<Rightarrow> BufferEntry" where
  "first_entry i =
     \<lparr>be_selected = clamp_input i, be_max_input_seq = ic_input_seq i, be_max_seq_tied = False,
      be_receive_count = 1\<rparr>"

lemma slot_try_buffer:
  "slot (snd (try_buffer ib p i)) p (ic_tick i) =
     (case slot ib p (ic_tick i) of
        None \<Rightarrow> Some (first_entry i)
      | Some e \<Rightarrow>
          Some (if ib_per_tick_limit ib \<le> be_receive_count e then e else count_in i e))"
  by (auto simp: slot_def try_buffer_def Let_def first_entry_def count_in_def split: option.split)

lemma try_buffer_limited_iff:
  "fst (try_buffer ib p i) = RateLimited \<longleftrightarrow>
     (\<exists>e. slot ib p (ic_tick i) = Some e \<and> ib_per_tick_limit ib \<le> be_receive_count e)"
  by (auto simp: slot_def try_buffer_def Let_def split: option.split)

lemma try_buffer_not_tie: "fst (try_buffer ib p i) \<noteq> InputSeqTie"
  by (auto simp: try_buffer_def Let_def split: option.split)

lemma try_buffer_limited_unchanged:
  "fst (try_buffer ib p i) = RateLimited \<Longrightarrow> snd (try_buffer ib p i) = ib"
  by (auto simp: try_buffer_def Let_def split: option.splits if_splits)

lemma clamp_input_fields [simp]:
  "ic_tick (clamp_input i) = ic_tick i" "ic_input_seq (clamp_input i) = ic_input_seq i"
  by (simp_all add: clamp_input_def)

lemma clamp_input_idle: "\<not> needs_magnitude_clamp (ic_move_dir i) \<Longrightarrow> clamp_input i = i"
  by (simp add: clamp_input_def)

lemma counted_first: "counted [i] (first_entry i)"
  by (simp add: counted_def first_entry_def top_seq_def with_top_seq_def in_unit_disc_def clamp_input_idle)

lemma top_seq_snoc: "is \<noteq> [] \<Longrightarrow> top_seq (is @ [i]) = max (ic_input_seq i) (top_seq is)"
  by (simp add: top_seq_def)

lemma top_seq_ge: "i \<in> set is \<Longrightarrow> ic_input_seq i \<le> top_seq is"
  by (simp add: top_seq_def)

lemma with_top_seq_snoc:
  assumes "is \<noteq> []"
  shows "with_top_seq (is @ [i]) =
    (if top_seq is < ic_input_seq i then [i]
     else if ic_input_seq i = top_seq is then with_top_seq is @ [i] else with_top_seq is)"
proof (cases "top_seq is < ic_input_seq i")
  case True
  then have "filter (\<lambda>j. ic_input_seq j = ic_input_seq i) is = []"
    using top_seq_ge by (fastforce simp: filter_empty_conv)
  moreover have "max (ic_input_seq i) (top_seq is) = ic_input_seq i"
    by (rule max.absorb1) (use True in simp)
  ultimately show ?thesis using True assms by (simp add: with_top_seq_def top_seq_snoc)
next
  case False
  then have "max (ic_input_seq i) (top_seq is) = top_seq is"
    by (intro max.absorb2) (simp add: not_less)
  with False assms show ?thesis by (simp add: with_top_seq_def top_seq_snoc)
qed

lemma with_top_seq_nonempty: "is \<noteq> [] \<Longrightarrow> with_top_seq is \<noteq> []"
proof -
  assume "is \<noteq> []"
  then have "top_seq is \<in> ic_input_seq ` set is" unfolding top_seq_def by (intro Max_in) simp_all
  then show ?thesis by (auto simp: with_top_seq_def filter_empty_conv)
qed

lemma in_unit_disc_top: "is \<noteq> [] \<Longrightarrow> in_unit_disc is \<Longrightarrow> clamp_input (hd (with_top_seq is)) = hd (with_top_seq is)"
  using hd_in_set[OF with_top_seq_nonempty] by (fastforce simp: in_unit_disc_def with_top_seq_def intro: clamp_input_idle)

lemma counted_step:
  assumes c: "counted is e" and room: "be_receive_count e < limit"
  shows "counted (is @ [i]) (count_in i e)"
proof -
  have ne: "is \<noteq> []" using c by (simp add: counted_def)
  have "unat (be_receive_count e) + 1 < 2 ^ 32"
  proof -
    have "unat limit < 2 ^ 32" using unsigned_less[of limit] by simp
    with room show ?thesis by (simp add: word_less_nat_alt)
  qed
  then have n: "unat (be_receive_count e + 1) = Suc (unat (be_receive_count e))"
    by (simp add: unat_word_ariths)
  have unit: "in_unit_disc (is @ [i]) \<longleftrightarrow> in_unit_disc is \<and> \<not> needs_magnitude_clamp (ic_move_dir i)"
    by (auto simp: in_unit_disc_def)
  show ?thesis
    using c n with_top_seq_nonempty[OF ne] in_unit_disc_top[OF ne]
    by (auto simp: counted_def count_in_def select_input_def Let_def top_seq_snoc with_top_seq_snoc
        unit clamp_input_idle max_def Suc_lessI)
qed

lemma offer_all_counts:
  assumes empty: "slot ib p t = None" and ticks: "\<forall>i \<in> set is. ic_tick i = t" and "is \<noteq> []"
  defines "n \<equiv> max 1 (unat (ib_per_tick_limit ib))"
  shows "\<exists>e. slot (snd (offer_all ib p is)) p t = Some e \<and> counted (take n is) e \<and>
    map (\<lambda>r. r = RateLimited) (fst (offer_all ib p is)) =
      replicate (length (take n is)) False @ replicate (length is - n) True"
  using ticks \<open>is \<noteq> []\<close>
proof (induction "is" rule: rev_induct)
  case Nil
  then show ?case by simp
next
  case (snoc i "is")
  let ?b = "snd (offer_all ib p is)"
  have n1: "1 \<le> n" by (simp add: n_def)
  have t: "ic_tick i = t" using snoc.prems by simp
  show ?case
  proof (cases "is = []")
    case True
    have "slot (snd (try_buffer ib p i)) p t = Some (first_entry i)"
      using slot_try_buffer[of ib p i] empty t by simp
    moreover have "fst (try_buffer ib p i) \<noteq> RateLimited"
      using try_buffer_limited_iff[of ib p i] empty t by simp
    moreover have "take n [i] = [i]" using n1 by simp
    ultimately show ?thesis using True n1 counted_first by (simp add: offer_all.simps(2) split_beta)
  next
    case False
    with snoc.IH snoc.prems obtain e where e: "slot ?b p t = Some e" "counted (take n is) e"
      and r: "map (\<lambda>r. r = RateLimited) (fst (offer_all ib p is)) =
        replicate (length (take n is)) False @ replicate (length is - n) True" by auto
    have count: "unat (be_receive_count e) = min n (length is)"
      using e(2) by (simp add: counted_def min.commute)
    have len: "Suc 0 \<le> length is" using False by (cases "is") simp_all
    have full: "ib_per_tick_limit ib \<le> be_receive_count e \<longleftrightarrow> n \<le> length is"
      using count len by (auto simp: word_le_nat_alt n_def min_def max_def split: if_splits)
    show ?thesis
    proof (cases "n \<le> length is")
      case True
      then show ?thesis
        using full e r t slot_try_buffer[of ?b p i] try_buffer_limited_iff[of ?b p i]
        by (simp add: offer_all_snoc Suc_diff_le replicate_append_same)
    next
      case room: False
      then have "counted (take n is @ [i]) (count_in i e)"
        using full counted_step[OF e(2)] by (simp add: not_le)
      then show ?thesis
        using room full e r t slot_try_buffer[of ?b p i] try_buffer_limited_iff[of ?b p i]
        by (simp add: offer_all_snoc replicate_append_same)
    qed
  qed
qed

section \<open>Properties\<close>

definition empty_buffer :: "u32 \<Rightarrow> InputBuffer" where
  "empty_buffer limit =
     \<lparr>ib_config = ValidationConfig_default, ib_buffer = [], ib_per_tick_limit = limit\<rparr>"

definition cmd :: "Tick \<Rightarrow> InputSeq \<Rightarrow> f64 \<Rightarrow> f64 \<Rightarrow> InputCmdProto" where
  "cmd t s x y = \<lparr>ic_tick = t, ic_input_seq = s, ic_move_dir = [x, y]\<rparr>"

lemma slot_empty_buffer [simp]: "slot (empty_buffer limit) p t = None"
  by (simp add: slot_def empty_buffer_def)

lemma limit_empty_buffer [simp]: "ib_per_tick_limit (empty_buffer limit) = limit"
  by (simp add: empty_buffer_def)

lemma config_empty_buffer [simp]: "vc_max_future_ticks (ib_config (empty_buffer limit)) = 60"
  by (simp add: empty_buffer_def ValidationConfig_default_def)

lemma cmd_simps [simp]: "ic_tick (cmd t s x y) = t" "ic_input_seq (cmd t s x y) = s"
  "ic_move_dir (cmd t s x y) = [x, y]"
  by (simp_all add: cmd_def)

text \<open>
  C6. The rate limit: however many inputs a player sends for one tick, exactly the first
  \<open>per_tick_limit\<close> of them (but always at least one) are accepted, and every later one is refused.
\<close>

theorem rate_limit_exact:
  assumes "slot ib p t = None" and "\<forall>i \<in> set is. ic_tick i = t" and "is \<noteq> []"
  shows "map (\<lambda>r. r = RateLimited) (fst (offer_all ib p is)) =
    replicate (min (length is) (max 1 (unat (ib_per_tick_limit ib)))) False @
    replicate (length is - max 1 (unat (ib_per_tick_limit ib))) True"
proof -
  let ?n = "max 1 (unat (ib_per_tick_limit ib))"
  have "length (take ?n is) = min (length is) ?n" by (simp only: length_take min.commute)
  with offer_all_counts[OF assms] show ?thesis by auto
qed

theorem rate_limit_exact_witness:
  "map (\<lambda>r. r = RateLimited) (fst (offer_all (empty_buffer 2) 7
      [cmd 5 1 0 0, cmd 5 2 0 0, cmd 5 3 0 0, cmd 5 4 0 0])) = [False, False, True, True]"
proof -
  have "min 4 (max 1 2) = (Suc (Suc 0))" "4 - max 1 2 = Suc (Suc 0)" by simp_all
  then show ?thesis by (subst rate_limit_exact[where t = 5]) simp_all
qed

text \<open>
  C7. The selection rule: what the server takes for a tick is the accepted input with the
  greatest sequence number, and nothing when that number was sent twice; if no direction had to
  be clamped it is that very input.
\<close>

theorem selection_greatest_seq:
  assumes "slot ib p t = None" and "\<forall>i \<in> set is. ic_tick i = t" and "is \<noteq> []"
    and "acc = take (max 1 (unat (ib_per_tick_limit ib))) is"
  shows "case fst (take_input (snd (offer_all ib p is)) p t) of
      None \<Rightarrow> 1 < length (with_top_seq acc)
    | Some i \<Rightarrow> length (with_top_seq acc) = 1 \<and> ic_input_seq i = top_seq acc \<and>
        (in_unit_disc acc \<longrightarrow> with_top_seq acc = [i])"
proof -
  from offer_all_counts[OF assms(1-3)] obtain e
    where e: "slot (snd (offer_all ib p is)) p t = Some e" "counted acc e"
    unfolding assms(4) by blast
  have "with_top_seq acc \<noteq> []" using e(2) with_top_seq_nonempty by (simp add: counted_def)
  then show ?thesis
    using e by (cases "with_top_seq acc") (auto simp: take_input_slot counted_def split: option.split)
qed

lemma dir_mag_sq_axis: "dir_mag_sq [0, 0] = 0" "dir_mag_sq [f64_one, 0] = f64_one"
proof -
  have z: "f64_mul 0 0 = 0" and o: "f64_mul f64_one f64_one = f64_one" by (simp_all add: f64_eval)
  have "f64_is_finite f64_one" "f64_mag f64_one \<noteq> 0" by (simp_all add: f64_read_eval f64_one_def)
  then have a: "f64_add f64_one 0 = f64_one"
    using f64_add_zero_right[of f64_one] by (simp add: f64_zero_def)
  have b: "f64_add 0 0 = 0"
    using f64_add_zero_right[of f64_zero, OF f64_zero_simps(3)] f64_zero_simps(2)
    unfolding f64_zero_def by blast
  show "dir_mag_sq [0, 0] = 0" "dir_mag_sq [f64_one, 0] = f64_one"
    by (simp_all add: dir_mag_sq_def z o a b)
qed

lemma unit_axes: "\<not> needs_magnitude_clamp [0, 0]" "\<not> needs_magnitude_clamp [f64_one, 0]"
proof -
  have "\<not> f64_gt 0 f64_one" "\<not> f64_gt f64_one f64_one"
    by (simp_all add: f64_gt_def f64_ord_def f64_read_eval f64_one_def)
  then show "\<not> needs_magnitude_clamp [0, 0]" "\<not> needs_magnitude_clamp [f64_one, 0]"
    by (simp_all add: needs_magnitude_clamp_def dir_mag_sq_axis)
qed

theorem selection_greatest_seq_witness:
  "fst (take_input (snd (offer_all (empty_buffer 4) 7
      [cmd 5 1 0 0, cmd 5 3 f64_one 0, cmd 5 2 0 0])) 7 5) = Some (cmd 5 3 f64_one 0)"
proof -
  let ?is = "[cmd 5 1 0 0, cmd 5 3 f64_one 0, cmd 5 2 0 0]"
  let ?r = "fst (take_input (snd (offer_all (empty_buffer 4) 7 ?is)) 7 5)"
  have acc: "?is = take (max 1 (unat (ib_per_tick_limit (empty_buffer 4)))) ?is" by simp
  have "top_seq ?is = 3" by (simp add: top_seq_def)
  then have top: "with_top_seq ?is = [cmd 5 3 f64_one 0]" by (simp add: with_top_seq_def)
  have unit: "in_unit_disc ?is" by (simp add: in_unit_disc_def unit_axes)
  have "case ?r of None \<Rightarrow> False | Some i \<Rightarrow> [cmd 5 3 f64_one 0] = [i]"
    using selection_greatest_seq[OF slot_empty_buffer _ _ acc, of 5 7] unit unfolding top
    by (cases ?r) simp_all
  then show ?thesis by (cases ?r) simp_all
qed

text \<open>
  Arrival order does not matter as long as no direction has to be clamped and the limit is
  not reached: every permutation of the inputs leaves the same input to take.
\<close>

theorem arrival_order_irrelevant_unclamped:
  assumes "slot ib p t = None" and "\<forall>i \<in> set is. ic_tick i = t" and "in_unit_disc is"
    and "length is \<le> unat (ib_per_tick_limit ib)" and "mset is = mset is'"
  shows "fst (take_input (snd (offer_all ib p is)) p t) = fst (take_input (snd (offer_all ib p is')) p t)"
proof (cases "is = []")
  case True
  with assms(5) show ?thesis by simp
next
  case False
  have same: "set is' = set is" "length is' = length is" "is' \<noteq> []"
    using mset_eq_setD[OF assms(5)] mset_eq_length[OF assms(5)] False by auto
  have all: "take (max 1 (unat (ib_per_tick_limit ib))) is = is"
    "take (max 1 (unat (ib_per_tick_limit ib))) is' = is'" using assms(4) same by auto
  have "\<forall>i \<in> set is'. ic_tick i = t" using assms(2) same by simp
  then obtain e e' where e: "slot (snd (offer_all ib p is)) p t = Some e" "counted is e"
    and e': "slot (snd (offer_all ib p is')) p t = Some e'" "counted is' e'"
    using offer_all_counts[OF assms(1,2) False] offer_all_counts[OF assms(1) _ same(3)]
    unfolding all by blast
  have "top_seq is' = top_seq is" using same by (simp add: top_seq_def)
  then have ms: "mset (with_top_seq is') = mset (with_top_seq is)"
    using assms(5) by (simp add: with_top_seq_def)
  have unit: "in_unit_disc is'" using assms(3) same by (simp add: in_unit_disc_def)
  have len: "length (with_top_seq is') = length (with_top_seq is)" using ms by (rule mset_eq_length)
  have hd: "hd (with_top_seq is') = hd (with_top_seq is)" if "\<not> 1 < length (with_top_seq is)"
  proof -
    from that with_top_seq_nonempty[OF False] obtain i where "with_top_seq is = [i]"
      by (cases "with_top_seq is") auto
    with ms show ?thesis by simp
  qed
  show ?thesis
    using e e' len hd assms(3) unit by (auto simp: take_input_slot counted_def)
qed

theorem arrival_order_irrelevant_unclamped_witness:
  "fst (take_input (snd (offer_all (empty_buffer 4) 7 [cmd 5 1 0 0, cmd 5 3 f64_one 0])) 7 5) =
   fst (take_input (snd (offer_all (empty_buffer 4) 7 [cmd 5 3 f64_one 0, cmd 5 1 0 0])) 7 5)"
  by (rule arrival_order_irrelevant_unclamped)
     (simp_all add: in_unit_disc_def unit_axes)

text \<open>
  C8. With clamping it does: an input with a smaller sequence number, which is ignored for
  selection, still makes the buffer clamp the selected direction a second time, and the second
  clamp of \<open>(4.75, 7.25)\<close> changes its low bits. So the direction that is applied depends on the
  order in which two inputs arrive.
\<close>

lemma clamp_origin: "clamp_input (cmd t s 0 0) = cmd t s 0 0"
  by (simp add: clamp_input_def unit_axes)

lemma clamp_once:
  "clamp_input (cmd t s 0x4013000000000000 0x401d000000000000) =
     cmd t s 0x3fe1896e5c8ffbbe 0x3feac44a217d72c4"
proof -
  have sq: "dir_mag_sq [0x4013000000000000, 0x401d000000000000] = 0x4052c80000000000"
    by (simp add: dir_mag_sq_def f64_eval)
  have gt: "f64_gt 0x4052c80000000000 f64_one" by (simp add: f64_eval)
  have root: "f64_sqrt 0x4052c80000000000 = 0x402155be5aa796bc" by (simp add: f64_eval)
  have x: "f64_div 0x4013000000000000 0x402155be5aa796bc = 0x3fe1896e5c8ffbbe" by (simp add: f64_eval)
  have y: "f64_div 0x401d000000000000 0x402155be5aa796bc = 0x3feac44a217d72c4" by (simp add: f64_eval)
  show ?thesis
    by (simp add: clamp_input_def needs_magnitude_clamp_def buffer_clamp_magnitude_def
        sq gt root x y cmd_def)
qed

lemma clamp_twice:
  "clamp_input (cmd t s 0x3fe1896e5c8ffbbe 0x3feac44a217d72c4) =
     cmd t s 0x3fe1896e5c8ffbbd 0x3feac44a217d72c2"
proof -
  have sq: "dir_mag_sq [0x3fe1896e5c8ffbbe, 0x3feac44a217d72c4] = 0x3ff0000000000002"
    by (simp add: dir_mag_sq_def f64_eval)
  have gt: "f64_gt 0x3ff0000000000002 f64_one" by (simp add: f64_eval)
  have root: "f64_sqrt 0x3ff0000000000002 = 0x3ff0000000000001" by (simp add: f64_eval)
  have x: "f64_div 0x3fe1896e5c8ffbbe 0x3ff0000000000001 = 0x3fe1896e5c8ffbbd" by (simp add: f64_eval)
  have y: "f64_div 0x3feac44a217d72c4 0x3ff0000000000001 = 0x3feac44a217d72c2" by (simp add: f64_eval)
  show ?thesis
    by (simp add: clamp_input_def needs_magnitude_clamp_def buffer_clamp_magnitude_def
        sq gt root x y cmd_def)
qed

lemma slot_two_offers:
  assumes "slot ib p t = None" and "ic_tick i = t" and "ic_tick j = t" and "1 < ib_per_tick_limit ib"
  shows "slot (snd (offer_all ib p [i, j])) p t = Some (count_in j (first_entry i))"
proof -
  have "slot (snd (try_buffer ib p i)) p t = Some (first_entry i)"
    using slot_try_buffer[of ib p i] assms by simp
  then show ?thesis
    using slot_try_buffer[of "snd (try_buffer ib p i)" p j] assms(3,4)
    by (simp add: offer_all.simps split_beta first_entry_def not_le)
qed

theorem reclamp_depends_on_arrival_order:
  "fst (take_input (snd (offer_all (empty_buffer 4) 7
      [cmd 5 1 0 0, cmd 5 2 0x4013000000000000 0x401d000000000000])) 7 5)
     = Some (cmd 5 2 0x3fe1896e5c8ffbbe 0x3feac44a217d72c4) \<and>
   fst (take_input (snd (offer_all (empty_buffer 4) 7
      [cmd 5 2 0x4013000000000000 0x401d000000000000, cmd 5 1 0 0])) 7 5)
     = Some (cmd 5 2 0x3fe1896e5c8ffbbd 0x3feac44a217d72c2)"
proof -
  have "count_in (cmd 5 2 0x4013000000000000 0x401d000000000000) (first_entry (cmd 5 1 0 0)) =
      \<lparr>be_selected = cmd 5 2 0x3fe1896e5c8ffbbe 0x3feac44a217d72c4, be_max_input_seq = 2,
       be_max_seq_tied = False, be_receive_count = 2\<rparr>"
    by (simp add: count_in_def first_entry_def select_input_def clamp_once)
  moreover have "count_in (cmd 5 1 0 0) (first_entry (cmd 5 2 0x4013000000000000 0x401d000000000000)) =
      \<lparr>be_selected = cmd 5 2 0x3fe1896e5c8ffbbd 0x3feac44a217d72c2, be_max_input_seq = 2,
       be_max_seq_tied = False, be_receive_count = 2\<rparr>"
    by (simp add: count_in_def first_entry_def select_input_def clamp_once clamp_twice)
  ultimately show ?thesis
    by (simp add: take_input_slot slot_two_offers)
qed

end
