(* ===== verification/Validation.thy ===== *)
theory Validation
  imports InputBuffer Movement
begin

text \<open>
  Input validation of the Server Edge, \<^verbatim>\<open>crates/server/src/validation.rs\<close>: the checks in the
  order the code makes them, and what holds of every direction that ends up in the buffer.
\<close>

datatype ValidationResult =
    Accepted
  | AcceptedWithClamp
  | DroppedNanInf
  | DroppedBelowFloor Tick Tick
  | DroppedLate Tick Tick
  | DroppedTooFuture Tick Tick
  | DroppedRateLimit
  | DroppedInputSeqTie
  | DroppedUnknownSession

fun is_accepted :: "ValidationResult \<Rightarrow> bool" where
  "is_accepted Accepted = True"
| "is_accepted AcceptedWithClamp = True"
| "is_accepted _ = False"

fun of_buffer_result :: "BufferResult \<Rightarrow> ValidationResult" where
  "of_buffer_result (BufAccepted was_clamped) = (if was_clamped then AcceptedWithClamp else Accepted)"
| "of_buffer_result RateLimited = DroppedRateLimit"
| "of_buffer_result InputSeqTie = DroppedInputSeqTie"

definition dir_malformed :: "f64 list \<Rightarrow> bool" where
  "dir_malformed d \<longleftrightarrow>
     length d \<noteq> 2 \<or>
     f64_is_nan (d ! 0) \<or> f64_is_infinite (d ! 0) \<or> f64_is_nan (d ! 1) \<or> f64_is_infinite (d ! 1)"

definition validate_input ::
  "profile \<Rightarrow> InputCmdProto \<Rightarrow> Tick \<Rightarrow> Tick \<Rightarrow> InputBuffer \<Rightarrow> PlayerId \<Rightarrow>
     (ValidationResult \<times> InputBuffer) outcome" where
  "validate_input p input current_tick target_tick_floor buffer player_id =
     (if dir_malformed (ic_move_dir input) then Done (DroppedNanInf, buffer)
      else if ic_tick input < target_tick_floor then
        Done (DroppedBelowFloor (ic_tick input) target_tick_floor, buffer)
      else if ic_tick input < current_tick then
        Done (DroppedLate (ic_tick input) current_tick, buffer)
      else obind (checked_plus p current_tick (vc_max_future_ticks (ib_config buffer)))
        (\<lambda>max_tick.
           if max_tick < ic_tick input then Done (DroppedTooFuture (ic_tick input) max_tick, buffer)
           else let (r, buffer') = try_buffer buffer player_id input
                in Done (of_buffer_result r, buffer')))"

section \<open>The decision\<close>

lemma dir_malformed_iff: "\<not> dir_malformed d \<longleftrightarrow> length d = 2 \<and> finite_vec2 (vec2_of d)"
  by (auto simp: dir_malformed_def finite_vec2_def vec2_of_def finite_iff)

lemma is_accepted_of_buffer_result [simp]:
  "is_accepted (of_buffer_result r) \<longleftrightarrow> r \<noteq> RateLimited \<and> r \<noteq> InputSeqTie"
  by (cases r) auto

text \<open>The buffer changes only through an accepted offer.\<close>

lemma validate_input_cases:
  assumes "validate_input p i cur flr b pid = Done (r, b')"
  obtains (dropped) "b' = b" "\<not> is_accepted r"
  | (offered) "b' = snd (try_buffer b pid i)" "r = of_buffer_result (fst (try_buffer b pid i))"
      "is_accepted r" "\<not> dir_malformed (ic_move_dir i)" "flr \<le> ic_tick i" "cur \<le> ic_tick i"
      "ic_tick i \<le> cur + vc_max_future_ticks (ib_config b)"
proof (cases "b' = snd (try_buffer b pid i) \<and> r = of_buffer_result (fst (try_buffer b pid i)) \<and>
    \<not> dir_malformed (ic_move_dir i) \<and> flr \<le> ic_tick i \<and> cur \<le> ic_tick i \<and>
    ic_tick i \<le> cur + vc_max_future_ticks (ib_config b)")
  case True
  show thesis
  proof (cases "is_accepted r")
    case True': True
    with True show thesis by (intro offered) auto
  next
    case False
    with True have "fst (try_buffer b pid i) = RateLimited" using try_buffer_not_tie[of b pid i] by auto
    with True False show thesis by (intro dropped) (simp_all add: try_buffer_limited_unchanged)
  qed
next
  case False
  with assms have "b' = b \<and> \<not> is_accepted r"
    by (auto simp: validate_input_def Let_def split_beta obind_Done_iff checked_plus_Done not_less
        split: if_splits)
  then show thesis by (intro dropped) auto
qed

lemma validate_input_total:
  assumes "p = Dev \<Longrightarrow> unat cur + unat (vc_max_future_ticks (ib_config b)) < 2 ^ 64"
  shows "\<exists>r b'. validate_input p i cur flr b pid = Done (r, b')"
  using assms by (auto simp: validate_input_def checked_plus_def Let_def split_beta)

section \<open>Buffered directions\<close>

text \<open>Every buffered direction has two components, each of magnitude at most one.\<close>

definition unit_dir :: "f64 list \<Rightarrow> bool" where
  "unit_dir d \<longleftrightarrow> length d = 2 \<and> f64_mag (d ! 0) \<le> f64_mag f64_one \<and> f64_mag (d ! 1) \<le> f64_mag f64_one"

definition buffer_unit :: "InputBuffer \<Rightarrow> bool" where
  "buffer_unit b \<longleftrightarrow> (\<forall>q t e. slot b q t = Some e \<longrightarrow> unit_dir (ic_move_dir (be_selected e)))"

lemma divided_component:
  assumes x: "f64_is_finite x" and s: "\<not> f64_neg s" "\<not> f64_is_nan s"
    and le: "f64_mag (f64_mul x x) \<le> f64_mag s" and one: "f64_mag f64_one \<le> f64_mag s"
  shows "f64_mag (f64_div x (f64_sqrt s)) \<le> f64_mag f64_one"
proof (cases "f64_is_finite s")
  case True
  have s0: "f64_mag s \<noteq> 0" using one by (simp add: mag_one)
  have root: "f64_mag f64_one \<le> f64_mag (f64_sqrt s)" by (rule sqrt_ge_one[OF True s(1) one])
  then have "f64_mag (f64_sqrt s) \<noteq> 0" by (simp add: mag_one)
  then show ?thesis
    by (rule div_le_one[OF x sqrt_finite[OF True s(1) s0] _ length_bounds[OF x True s(1) le one]])
next
  case False
  then have inf: "f64_is_infinite s" using s by (simp add: finite_iff)
  then have "f64_mag s \<noteq> 0" by (simp add: f64_is_infinite_def)
  then have "f64_sqrt s = s" using s inf by (simp add: f64_sqrt_def)
  then show ?thesis using x s inf by (simp add: f64_div_def finite_simps)
qed

lemma f64_gt_one_iff:
  "\<not> f64_neg s \<Longrightarrow> \<not> f64_is_nan s \<Longrightarrow> f64_gt s f64_one \<longleftrightarrow> f64_mag f64_one < f64_mag s"
  by (simp add: f64_gt_def f64_ord_def)

lemma clamp_input_unit:
  assumes "\<not> dir_malformed (ic_move_dir i)"
  shows "unit_dir (ic_move_dir (clamp_input i))"
proof -
  let ?d = "ic_move_dir i"
  let ?s = "dir_mag_sq ?d"
  have len: "length ?d = 2" and x: "f64_is_finite (?d ! 0)" and y: "f64_is_finite (?d ! 1)"
    using assms by (simp_all add: dir_malformed_iff finite_vec2_def vec2_of_def)
  have sx: "\<not> f64_neg (f64_mul (?d ! 0) (?d ! 0))" "\<not> f64_is_nan (f64_mul (?d ! 0) (?d ! 0))"
    and sy: "\<not> f64_neg (f64_mul (?d ! 1) (?d ! 1))" "\<not> f64_is_nan (f64_mul (?d ! 1) (?d ! 1))"
    using square_nonneg[OF x] square_nonneg[OF y] by auto
  note s = add_nonneg[OF sx sy, folded dir_mag_sq_def]
  show ?thesis
  proof (cases "f64_mag f64_one < f64_mag ?s")
    case True
    then have one: "f64_mag f64_one \<le> f64_mag ?s" by simp
    have "ic_move_dir (clamp_input i) = [f64_div (?d ! 0) (f64_sqrt ?s), f64_div (?d ! 1) (f64_sqrt ?s)]"
      using True len s by (simp add: clamp_input_def needs_magnitude_clamp_def
          buffer_clamp_magnitude_def f64_gt_one_iff)
    then show ?thesis
      using divided_component[OF x s(1,2) s(3) one] divided_component[OF y s(1,2) s(4) one]
      by (simp add: unit_dir_def)
  next
    case False
    then have le: "f64_mag ?s \<le> f64_mag f64_one" by simp
    have "clamp_input i = i"
      using False len s by (simp add: clamp_input_def needs_magnitude_clamp_def f64_gt_one_iff)
    then show ?thesis
      using len square_above_one[OF x order_trans[OF s(3) le]]
        square_above_one[OF y order_trans[OF s(4) le]] by (simp add: unit_dir_def)
  qed
qed

lemma unit_dir_wellformed: "unit_dir d \<Longrightarrow> \<not> dir_malformed d"
  using mag_le_finite[OF _ f64_one_simps(1)]
  by (auto simp: dir_malformed_iff unit_dir_def finite_vec2_def vec2_of_def)

lemma try_buffer_unit:
  assumes "buffer_unit b" and "\<not> dir_malformed (ic_move_dir i)"
  shows "buffer_unit (snd (try_buffer b p i))"
  unfolding buffer_unit_def
proof (intro allI impI)
  fix q t e
  assume e: "slot (snd (try_buffer b p i)) q t = Some e"
  show "unit_dir (ic_move_dir (be_selected e))"
  proof (cases "(q, t) = (p, ic_tick i)")
    case False
    with e assms(1) show ?thesis by (simp add: slots.slot_offer buffer_unit_def)
  next
    case True
    have count: "unit_dir (ic_move_dir (be_selected (count_in i d)))"
      if "slot b p (ic_tick i) = Some d" for d
    proof -
      have "unit_dir (ic_move_dir (be_selected d))" using that assms(1) by (simp add: buffer_unit_def)
      then show ?thesis
        using assms(2) clamp_input_unit unit_dir_wellformed
        by (auto simp: count_in_def select_input_def Let_def)
    qed
    have "slot b p (ic_tick i) = Some d \<Longrightarrow> unit_dir (ic_move_dir (be_selected d))" for d
      using assms(1) by (simp add: buffer_unit_def)
    with e True count show ?thesis
      using slot_try_buffer[of b p i] clamp_input_unit[OF assms(2)]
      by (auto simp: first_entry_def split: option.splits if_splits)
  qed
qed

lemma validate_input_decides:
  assumes "unat cur + unat (vc_max_future_ticks (ib_config b)) < 2 ^ 64"
  shows "\<exists>r b'. validate_input p i cur flr b pid = Done (r, b') \<and>
    (is_accepted r \<longleftrightarrow>
       length (ic_move_dir i) = 2 \<and> finite_vec2 (vec2_of (ic_move_dir i)) \<and>
       flr \<le> ic_tick i \<and> cur \<le> ic_tick i \<and>
       ic_tick i \<le> cur + vc_max_future_ticks (ib_config b) \<and>
       (case slot b pid (ic_tick i) of
          None \<Rightarrow> True | Some e \<Rightarrow> be_receive_count e < ib_per_tick_limit b)) \<and>
    (\<not> is_accepted r \<longrightarrow> b' = b) \<and> r \<noteq> DroppedInputSeqTie \<and> r \<noteq> DroppedUnknownSession"
proof -
  obtain r b' where v: "validate_input p i cur flr b pid = Done (r, b')"
    using validate_input_total[of p cur b i flr pid] assms by blast
  have "\<not> is_accepted r \<longrightarrow> b' = b" using v by (cases rule: validate_input_cases) auto
  moreover have "r \<noteq> DroppedInputSeqTie \<and> r \<noteq> DroppedUnknownSession"
    using v try_buffer_not_tie[of b pid i]
    by (cases "fst (try_buffer b pid i)")
       (auto simp: validate_input_def Let_def split_beta obind_Done_iff split: if_splits)
  moreover have "is_accepted r \<longleftrightarrow> \<not> dir_malformed (ic_move_dir i) \<and>
       flr \<le> ic_tick i \<and> cur \<le> ic_tick i \<and>
       ic_tick i \<le> cur + vc_max_future_ticks (ib_config b) \<and>
       fst (try_buffer b pid i) \<noteq> RateLimited"
    using v try_buffer_not_tie[of b pid i]
    by (auto simp: validate_input_def Let_def split_beta obind_Done_iff checked_plus_Done not_less
        split: if_splits)
  ultimately show ?thesis
    using v by (auto simp: dir_malformed_iff try_buffer_limited_iff not_le split: option.split)
qed

section \<open>Properties\<close>

text \<open>
  What validation accepts: exactly a two-component finite direction for a tick at or above the
  session's floor, not before the current tick and at most \<open>max_future_ticks\<close> ahead, whose slot
  is not yet full. The sequence-number tie and unknown-session verdicts are never returned, and an
  input that is not accepted leaves the buffer as it was.
\<close>

theorem validation_decision:
  assumes "unat cur + unat (vc_max_future_ticks (ib_config b)) < 2 ^ 64"
  shows "\<exists>r b'. validate_input p i cur flr b pid = Done (r, b') \<and>
    (is_accepted r \<longleftrightarrow>
       length (ic_move_dir i) = 2 \<and> finite_vec2 (vec2_of (ic_move_dir i)) \<and>
       flr \<le> ic_tick i \<and> cur \<le> ic_tick i \<and>
       ic_tick i \<le> cur + vc_max_future_ticks (ib_config b) \<and>
       (case slot b pid (ic_tick i) of
          None \<Rightarrow> True | Some e \<Rightarrow> be_receive_count e < ib_per_tick_limit b)) \<and>
    (\<not> is_accepted r \<longrightarrow> b' = b) \<and> r \<noteq> DroppedInputSeqTie \<and> r \<noteq> DroppedUnknownSession"
  by (rule validate_input_decides[OF assms])

theorem validation_decision_witness:
  "\<exists>r b'. validate_input Dev (cmd 5 1 f64_one 0) 3 4 (empty_buffer 4) 7 = Done (r, b') \<and> is_accepted r"
proof -
  have "finite_vec2 (vec2_of [f64_one, 0])"
    by (simp add: finite_vec2_def vec2_of_def f64_read_eval f64_one_def)
  then show ?thesis
    using validation_decision[of 3 "empty_buffer 4" Dev "cmd 5 1 f64_one 0" 4 7]
    by auto
qed

end
