(* ===== verification/Replay.thy ===== *)
theory Replay
  imports Wire HashMap
begin

text \<open>
  Replay recording and verification, \<^verbatim>\<open>crates/replay/src/lib.rs\<close>: applied inputs, the recorder
  and the artifact it produces, the integrity check of the input stream and \<^verbatim>\<open>verify_replay\<close>.
  A \<^verbatim>\<open>Result\<close> is a sum, a panic (of the world the verifier builds) is an outcome.
\<close>

section \<open>Applied inputs\<close>

record AppliedInput =
  ai_tick :: Tick
  ai_player_id :: PlayerId
  ai_move_dir :: vec2
  ai_is_fallback :: bool

definition to_step_input :: "AppliedInput \<Rightarrow> StepInput" where
  "to_step_input a = \<lparr>si_player_id = ai_player_id a, si_move_dir = ai_move_dir a\<rparr>"

definition AppliedInputProto_from :: "AppliedInput \<Rightarrow> AppliedInputProto" where
  "AppliedInputProto_from a =
     \<lparr>aip_tick = ai_tick a, aip_player_id = ucast (ai_player_id a),
      aip_move_dir = to_vec (ai_move_dir a), aip_is_fallback = ai_is_fallback a\<rparr>"

definition AppliedInput_try_from :: "AppliedInputProto \<Rightarrow> string + AppliedInput" where
  "AppliedInput_try_from m =
     (if length (aip_move_dir m) \<noteq> 2 then Inl ''move_dir must have exactly 2 elements''
      else Inr \<lparr>ai_tick = aip_tick m, ai_player_id = ucast (aip_player_id m),
                ai_move_dir = vec2_of (aip_move_dir m), ai_is_fallback = aip_is_fallback m\<rparr>)"

lemma player_id_roundtrip [simp]: "(ucast (ucast p :: u32) :: PlayerId) = p"
  by transfer simp

lemma player_id_inject [simp]: "(ucast p :: u32) = ucast q \<longleftrightarrow> p = q" for p q :: PlayerId
  by transfer simp

interpretation applied: proto_encoding AppliedInputProto_from AppliedInput_try_from
  by unfold_locales (simp add: AppliedInputProto_from_def AppliedInput_try_from_def)

section \<open>Recording\<close>

record ReplayConfig =
  rc_seed :: u64
  rc_tick_rate_hz :: u32
  rc_rng_algorithm :: string
  rc_test_mode :: bool
  rc_test_player_ids :: "PlayerId list"

definition ReplayConfig_default :: ReplayConfig where
  "ReplayConfig_default =
     \<lparr>rc_seed = 0, rc_tick_rate_hz = 60, rc_rng_algorithm = ''none'', rc_test_mode = False,
      rc_test_player_ids = []\<rparr>"

record BuildFingerprintData =
  bfd_binary_sha256 :: string
  bfd_target_triple :: string
  bfd_profile :: string
  bfd_git_commit :: string

record ReplayRecorder =
  rr_config :: ReplayConfig
  rr_entity_spawn_order :: "PlayerId list"
  rr_player_entity_mapping :: "(PlayerId \<times> EntityId) list"
  rr_initial_baseline :: "Baseline option"
  rr_inputs :: "AppliedInput list"
  rr_build_fingerprint :: "BuildFingerprintData option"

definition ReplayRecorder_new :: "ReplayConfig \<Rightarrow> ReplayRecorder" where
  "ReplayRecorder_new config =
     \<lparr>rr_config = config, rr_entity_spawn_order = [], rr_player_entity_mapping = [],
      rr_initial_baseline = None, rr_inputs = [], rr_build_fingerprint = None\<rparr>"

definition record_spawn :: "PlayerId \<Rightarrow> EntityId \<Rightarrow> ReplayRecorder \<Rightarrow> ReplayRecorder" where
  "record_spawn player_id entity_id r =
     r\<lparr>rr_entity_spawn_order := rr_entity_spawn_order r @ [player_id],
       rr_player_entity_mapping := rr_player_entity_mapping r @ [(player_id, entity_id)]\<rparr>"

definition record_baseline :: "Baseline \<Rightarrow> ReplayRecorder \<Rightarrow> ReplayRecorder" where
  "record_baseline b r = r\<lparr>rr_initial_baseline := Some b\<rparr>"

definition record_input :: "AppliedInput \<Rightarrow> ReplayRecorder \<Rightarrow> ReplayRecorder" where
  "record_input a r = r\<lparr>rr_inputs := rr_inputs r @ [a]\<rparr>"

definition recorder_set_build_fingerprint ::
  "BuildFingerprintData \<Rightarrow> ReplayRecorder \<Rightarrow> ReplayRecorder" where
  "recorder_set_build_fingerprint f r = r\<lparr>rr_build_fingerprint := Some f\<rparr>"

definition BuildFingerprint_of :: "BuildFingerprintData \<Rightarrow> BuildFingerprint" where
  "BuildFingerprint_of f =
     \<lparr>bf_binary_sha256 = bfd_binary_sha256 f, bf_target_triple = bfd_target_triple f,
      bf_profile = bfd_profile f, bf_git_commit = bfd_git_commit f\<rparr>"

definition recorder_finalize ::
  "ReplayRecorder \<Rightarrow> u64 \<Rightarrow> Tick \<Rightarrow> string \<Rightarrow> ReplayArtifact" where
  "recorder_finalize r final_digest checkpoint_tick end_reason =
     \<lparr>ra_replay_format_version = 1,
      ra_initial_baseline = map_option JoinBaseline_from (rr_initial_baseline r),
      ra_seed = rc_seed (rr_config r),
      ra_rng_algorithm = rc_rng_algorithm (rr_config r),
      ra_tick_rate_hz = rc_tick_rate_hz (rr_config r),
      ra_state_digest_algo_id = STATE_DIGEST_ALGO_ID,
      ra_entity_spawn_order = map ucast (rr_entity_spawn_order r),
      ra_player_entity_mapping =
        map (\<lambda>(pid, eid). \<lparr>pem_player_id = ucast pid, pem_entity_id = eid\<rparr>)
          (rr_player_entity_mapping r),
      ra_tuning_parameters = [\<lparr>tp_key = ''move_speed'', tp_value = MOVE_SPEED\<rparr>],
      ra_inputs = map AppliedInputProto_from (rr_inputs r),
      ra_build_fingerprint = map_option BuildFingerprint_of (rr_build_fingerprint r),
      ra_final_digest = final_digest,
      ra_checkpoint_tick = checkpoint_tick,
      ra_end_reason = end_reason,
      ra_test_mode = rc_test_mode (rr_config r),
      ra_test_player_ids = map ucast (rc_test_player_ids (rr_config r))\<rparr>"

section \<open>Verification errors\<close>

datatype VerifyError =
    BuildMismatch string string
  | MissingBaseline
  | InitializationAnchorMismatch u64 u64
  | SpawnReconstructionMismatch PlayerId EntityId EntityId
  | InputStreamInvalid string
  | FinalDigestMismatch u64 u64
  | CheckpointTickMismatch Tick Tick
  | InvalidFormat string

fun VerifyError_display :: "VerifyError \<Rightarrow> string" where
  "VerifyError_display (BuildMismatch expected actual) =
     ''Build fingerprint mismatch: expected '' @ expected @ '', got '' @ actual"
| "VerifyError_display MissingBaseline = ''Missing initial baseline in replay artifact''"
| "VerifyError_display (InitializationAnchorMismatch expected actual) =
     ''Initialization anchor mismatch: expected '' @ hex expected @ '', got '' @ hex actual"
| "VerifyError_display (SpawnReconstructionMismatch player_id expected actual) =
     ''Spawn reconstruction mismatch for player '' @ decimal player_id @ '': expected entity '' @
     decimal expected @ '', got '' @ decimal actual"
| "VerifyError_display (InputStreamInvalid reason) = ''Input stream invalid: '' @ reason"
| "VerifyError_display (FinalDigestMismatch expected actual) =
     ''Final digest mismatch: expected '' @ hex expected @ '', got '' @ hex actual"
| "VerifyError_display (CheckpointTickMismatch expected actual) =
     ''Checkpoint tick mismatch: expected '' @ decimal expected @ '', got '' @ decimal actual"
| "VerifyError_display (InvalidFormat reason) = ''Invalid replay format: '' @ reason"

record VerifyOptions =
  vo_strict_build_check :: bool
  vo_current_build :: "BuildFingerprintData option"

definition VerifyOptions_default :: VerifyOptions where
  "VerifyOptions_default = \<lparr>vo_strict_build_check = True, vo_current_build = None\<rparr>"

section \<open>Input stream integrity\<close>

definition missing_input :: "u32 \<Rightarrow> Tick \<Rightarrow> VerifyError" where
  "missing_input pid tick =
     InputStreamInvalid (''Missing input for player '' @ decimal pid @ '' at tick '' @ decimal tick)"

definition duplicate_input :: "u32 \<Rightarrow> Tick \<Rightarrow> VerifyError" where
  "duplicate_input pid tick =
     InputStreamInvalid (''Duplicate input for player '' @ decimal pid @ '' at tick '' @ decimal tick)"

definition outside_range :: "u32 \<Rightarrow> Tick \<Rightarrow> Tick \<Rightarrow> Tick \<Rightarrow> VerifyError" where
  "outside_range pid tick lo hi =
     InputStreamInvalid (''Input for player '' @ decimal pid @ '' at tick '' @ decimal tick @
       '' is outside valid range ['' @ decimal lo @ '', '' @ decimal hi @ '')'')"

definition unknown_player :: "u32 \<Rightarrow> VerifyError" where
  "unknown_player pid =
     InputStreamInvalid (''Input references unknown player_id '' @ decimal pid)"

definition count_pair ::
  "AppliedInputProto \<Rightarrow> (u32 \<times> Tick, nat) hashmap \<Rightarrow> (u32 \<times> Tick, nat) hashmap" where
  "count_pair i m =
     (let key = (aip_player_id i, aip_tick i);
          seen = (case hm_get m key of None \<Rightarrow> 0 | Some n \<Rightarrow> n)
      in hm_insert key (seen + 1) m)"

definition check_pair :: "(u32 \<times> Tick, nat) hashmap \<Rightarrow> u32 \<Rightarrow> Tick \<Rightarrow> VerifyError option" where
  "check_pair pairs pid tick =
     (case hm_get pairs (pid, tick) of
        None \<Rightarrow> Some (missing_input pid tick)
      | Some n \<Rightarrow> if 1 < n then Some (duplicate_input pid tick) else None)"

definition check_member :: "u32 list \<Rightarrow> Tick \<Rightarrow> Tick \<Rightarrow> AppliedInputProto \<Rightarrow> VerifyError option" where
  "check_member player_ids lo hi i =
     (if aip_tick i < lo \<or> hi \<le> aip_tick i then
        Some (outside_range (aip_player_id i) (aip_tick i) lo hi)
      else if aip_player_id i \<notin> set player_ids then Some (unknown_player (aip_player_id i))
      else None)"

definition artifact_players :: "ReplayArtifact \<Rightarrow> u32 list" where
  "artifact_players a = map pem_player_id (ra_player_entity_mapping a)"

definition validate_input_stream :: "ReplayArtifact \<Rightarrow> VerifyError + unit" where
  "validate_input_stream a =
     (case ra_initial_baseline a of
        None \<Rightarrow> Inl MissingBaseline
      | Some b \<Rightarrow>
          let initial_tick = jb_tick b;
              checkpoint_tick = ra_checkpoint_tick a;
              player_ids = artifact_players a;
              input_pairs = fold count_pair (ra_inputs a) []
          in case first_error (\<lambda>pid.
                    first_error (check_pair input_pairs pid) (tick_range initial_tick checkpoint_tick))
                  player_ids of
               Some e \<Rightarrow> Inl e
             | None \<Rightarrow>
                 (case first_error (check_member player_ids initial_tick checkpoint_tick) (ra_inputs a) of
                    Some e \<Rightarrow> Inl e
                  | None \<Rightarrow> Inr ()))"

section \<open>verify_replay\<close>

definition check_build :: "ReplayArtifact \<Rightarrow> VerifyOptions \<Rightarrow> VerifyError + unit" where
  "check_build a opts =
     (case (ra_build_fingerprint a, vo_current_build opts) of
        (Some recorded, Some current) \<Rightarrow>
          let mismatch = bf_binary_sha256 recorded \<noteq> bfd_binary_sha256 current \<or>
                bf_target_triple recorded \<noteq> bfd_target_triple current \<or>
                bf_profile recorded \<noteq> bfd_profile current
          in if mismatch \<and> vo_strict_build_check opts
             then Inl (BuildMismatch (bf_binary_sha256 recorded) (bfd_binary_sha256 current))
             else Inr ()
      | _ \<Rightarrow> Inr ())"

definition player_entity_map :: "ReplayArtifact \<Rightarrow> (u32, EntityId) hashmap" where
  "player_entity_map a =
     fold (\<lambda>(k, v). hm_insert k v)
       (map (\<lambda>m. (pem_player_id m, pem_entity_id m)) (ra_player_entity_mapping a)) []"

fun reconstruct ::
  "profile \<Rightarrow> (u32, EntityId) hashmap \<Rightarrow> u32 list \<Rightarrow> World \<Rightarrow> (VerifyError + World) outcome" where
  "reconstruct p m [] w = Done (Inr w)"
| "reconstruct p m (player_id_u32 # rest) w =
     (let player_id = ucast player_id_u32 in
      obind (spawn_character p w player_id) (\<lambda>(w, actual_entity_id).
        case hm_get m player_id_u32 of
          Some expected_entity_id \<Rightarrow>
            if actual_entity_id \<noteq> expected_entity_id
            then Done (Inl (SpawnReconstructionMismatch player_id expected_entity_id actual_entity_id))
            else reconstruct p m rest w
        | None \<Rightarrow> reconstruct p m rest w))"

definition push_input ::
  "AppliedInput \<Rightarrow> (Tick, AppliedInput list) hashmap \<Rightarrow> (Tick, AppliedInput list) hashmap" where
  "push_input a m =
     hm_insert (ai_tick a) ((case hm_get m (ai_tick a) of None \<Rightarrow> [] | Some xs \<Rightarrow> xs) @ [a]) m"

fun group_inputs ::
  "AppliedInputProto list \<Rightarrow> (Tick, AppliedInput list) hashmap \<Rightarrow>
     VerifyError + (Tick, AppliedInput list) hashmap" where
  "group_inputs [] m = Inr m"
| "group_inputs (i # is) m =
     (case AppliedInput_try_from i of
        Inl e \<Rightarrow> Inl (InvalidFormat e)
      | Inr a \<Rightarrow> group_inputs is (push_input a m))"

definition replay_inputs :: "(Tick, AppliedInput list) hashmap \<Rightarrow> Tick \<Rightarrow> StepInput list" where
  "replay_inputs inputs_by_tick tick =
     sort_key si_player_id
       (case hm_get inputs_by_tick tick of None \<Rightarrow> [] | Some xs \<Rightarrow> map to_step_input xs)"

definition check_outcome :: "ReplayArtifact \<Rightarrow> World \<Rightarrow> VerifyError + unit" where
  "check_outcome a w =
     (if w_tick w \<noteq> ra_checkpoint_tick a
      then Inl (CheckpointTickMismatch (ra_checkpoint_tick a) (w_tick w))
      else if state_digest w \<noteq> ra_final_digest a
      then Inl (FinalDigestMismatch (ra_final_digest a) (state_digest w))
      else Inr ())"

definition verify_from :: "profile \<Rightarrow> ReplayArtifact \<Rightarrow> JoinBaseline \<Rightarrow> World \<Rightarrow> (VerifyError + unit) outcome" where
  "verify_from p a b w =
     (let anchor = baseline w in
      if bl_digest anchor \<noteq> jb_digest b
      then Done (Inl (InitializationAnchorMismatch (jb_digest b) (bl_digest anchor)))
      else try_bind (group_inputs (ra_inputs a) []) (\<lambda>inputs_by_tick.
        obind (run_events (advance_with (advance p) (replay_inputs inputs_by_tick)) w
                 (tick_range (jb_tick b) (ra_checkpoint_tick a)))
          (\<lambda>w. Done (check_outcome a w))))"

definition verify_replay ::
  "profile \<Rightarrow> ReplayArtifact \<Rightarrow> VerifyOptions \<Rightarrow> (VerifyError + unit) outcome" where
  "verify_replay p a opts =
     try_bind (check_build a opts) (\<lambda>_.
     try_bind (validate_input_stream a) (\<lambda>_.
     try_bind (case ra_initial_baseline a of None \<Rightarrow> Inl MissingBaseline | Some b \<Rightarrow> Inr b) (\<lambda>b.
     obind (World_new (ra_seed a) (ra_tick_rate_hz a)) (\<lambda>w.
     obind (reconstruct p (player_entity_map a) (ra_entity_spawn_order a) w) (\<lambda>r.
     try_bind r (verify_from p a b))))))"

section \<open>The stream check against its specification\<close>

definition input_count :: "ReplayArtifact \<Rightarrow> u32 \<Rightarrow> Tick \<Rightarrow> nat" where
  "input_count a pid t =
     length (filter (\<lambda>i. aip_player_id i = pid \<and> aip_tick i = t) (ra_inputs a))"

definition stream_valid :: "ReplayArtifact \<Rightarrow> JoinBaseline \<Rightarrow> bool" where
  "stream_valid a b \<longleftrightarrow>
     (\<forall>pid \<in> set (artifact_players a). \<forall>t. jb_tick b \<le> t \<and> t < ra_checkpoint_tick a \<longrightarrow>
        input_count a pid t = 1) \<and>
     (\<forall>i \<in> set (ra_inputs a). jb_tick b \<le> aip_tick i \<and> aip_tick i < ra_checkpoint_tick a \<and>
        aip_player_id i \<in> set (artifact_players a))"

lemma hm_get_count_pairs:
  "hm_get (fold count_pair is m) (pid, t) =
     (let n = length (filter (\<lambda>i. aip_player_id i = pid \<and> aip_tick i = t) is) in
      case hm_get m (pid, t) of None \<Rightarrow> if n = 0 then None else Some n | Some k \<Rightarrow> Some (k + n))"
  by (induction "is" arbitrary: m) (auto simp: Let_def count_pair_def split: option.split)

lemma check_pair_None_iff:
  "check_pair (fold count_pair (ra_inputs a) []) pid t = None \<longleftrightarrow> input_count a pid t = 1"
  by (auto simp: check_pair_def hm_get_count_pairs Let_def input_count_def simp del: length_0_conv
      length_greater_0_conv)

lemma check_member_None_iff:
  "check_member ps lo hi i = None \<longleftrightarrow> lo \<le> aip_tick i \<and> aip_tick i < hi \<and> aip_player_id i \<in> set ps"
  by (auto simp: check_member_def not_less)

lemma validate_input_stream_iff:
  "validate_input_stream a = Inr () \<longleftrightarrow> (\<exists>b. ra_initial_baseline a = Some b \<and> stream_valid a b)"
proof (cases "ra_initial_baseline a")
  case None
  then show ?thesis by (simp add: validate_input_stream_def)
next
  case (Some b)
  let ?pairs = "fold count_pair (ra_inputs a) []" and ?lo = "jb_tick b" and ?hi = "ra_checkpoint_tick a"
  have "validate_input_stream a = Inr () \<longleftrightarrow>
      first_error (\<lambda>pid. first_error (check_pair ?pairs pid) (tick_range ?lo ?hi)) (artifact_players a) = None \<and>
      first_error (check_member (artifact_players a) ?lo ?hi) (ra_inputs a) = None"
    using Some by (auto simp: validate_input_stream_def Let_def split: option.splits)
  also have "\<dots> \<longleftrightarrow> stream_valid a b"
    by (simp add: first_error_None_iff check_pair_None_iff check_member_None_iff set_tick_range
        stream_valid_def)
  finally show ?thesis using Some by simp
qed

section \<open>Reconstruction\<close>

fun spawned :: "World \<Rightarrow> PlayerId list \<Rightarrow> World" where
  "spawned w [] = w"
| "spawned w (pid # pids) =
     spawned (w\<lparr>w_next_entity_id := w_next_entity_id w + 1,
                w_characters := w_characters w @ [Character_new (w_next_entity_id w) pid]\<rparr>) pids"

lemma spawned_append: "spawned w (ps @ qs) = spawned (spawned w ps) qs"
  by (induction ps arbitrary: w) simp_all

lemma spawned_wf:
  "world_wf w \<Longrightarrow> length (w_characters w) + length ps + 1 < 2 ^ 64 \<Longrightarrow>
     world_wf (spawned w ps) \<and> w_tick (spawned w ps) = w_tick w \<and>
     w_players (spawned w ps) = w_players w @ ps"
proof (induction ps arbitrary: w)
  case (Cons p ps)
  have room: "length (w_characters w) + 2 < 2 ^ 64" using Cons.prems(2) by simp
  note sp = spawn_character_eq[OF Cons.prems(1) room, of Dev p]
  from spawn_character_wf[OF Cons.prems(1) room sp] Cons show ?case by simp
qed simp

lemma reconstruct_step:
  assumes "world_wf w" and "length (w_characters w) + 2 < 2 ^ 64"
  shows "reconstruct p m (k # ks) w =
    (if \<exists>e. hm_get m k = Some e \<and> e \<noteq> w_next_entity_id w
     then Done (Inl (SpawnReconstructionMismatch (ucast k) (the (hm_get m k)) (w_next_entity_id w)))
     else reconstruct p m ks (spawned w [ucast k]))"
  using spawn_character_eq[OF assms, of p "ucast k"] by (auto simp: Let_def split: option.split)

definition spawns_agree :: "(u32, EntityId) hashmap \<Rightarrow> nat \<Rightarrow> u32 list \<Rightarrow> bool" where
  "spawns_agree m n order \<longleftrightarrow>
     (\<forall>i < length order. \<forall>e. hm_get m (order ! i) = Some e \<longrightarrow> e = of_nat (n + i))"

lemma spawns_agree_Cons:
  "spawns_agree m n (k # ks) \<longleftrightarrow>
     (\<forall>e. hm_get m k = Some e \<longrightarrow> e = of_nat n) \<and> spawns_agree m (Suc n) ks"
  by (auto simp: spawns_agree_def All_less_Suc2)

lemma reconstruct_result:
  "world_wf w \<Longrightarrow> length (w_characters w) + length order + 1 < 2 ^ 64 \<Longrightarrow>
     (if spawns_agree m (Suc (length (w_characters w))) order
      then reconstruct p m order w = Done (Inr (spawned w (map ucast order)))
      else \<exists>pid e e'. reconstruct p m order w = Done (Inl (SpawnReconstructionMismatch pid e e')))"
proof (induction order arbitrary: w)
  case Nil
  then show ?case by (simp add: spawns_agree_def)
next
  case (Cons k ks)
  let ?u = "spawned w [ucast k]"
  have room: "length (w_characters w) + 2 < 2 ^ 64" using Cons.prems(2) by simp
  have next_id: "w_next_entity_id w = of_nat (Suc (length (w_characters w)))"
    using Cons.prems(1) by (simp add: world_wf_def)
  have u: "world_wf ?u" using spawned_wf[OF Cons.prems(1), of "[ucast k]"] room by simp
  have len: "length (w_characters ?u) = Suc (length (w_characters w))" by simp
  from Cons.prems(2) have fits: "length (w_characters ?u) + length ks + 1 < 2 ^ 64" by simp
  have tail: "spawned w (map ucast (k # ks)) = spawned ?u (map ucast ks)" by simp
  show ?case
    using Cons.IH[OF u fits] reconstruct_step[OF Cons.prems(1) room, of p m k ks]
    unfolding spawns_agree_Cons len tail next_id[symmetric] by (auto split: if_splits)
qed

section \<open>Playback\<close>

definition step_world :: "StepInput list \<Rightarrow> World \<Rightarrow> World" where
  "step_world is w = (fold apply_movement is w)\<lparr>w_tick := w_tick w + 1\<rparr>"

definition play :: "(Tick \<Rightarrow> StepInput list) \<Rightarrow> Tick list \<Rightarrow> World \<Rightarrow> World" where
  "play f ts w = fold (\<lambda>t. step_world (f t)) ts w"

lemma play_Nil [simp]: "play f [] w = w"
  by (simp add: play_def)

lemma run_is_play:
  "run_events (advance_with (advance p) f) w ts = Done w' \<Longrightarrow> w' = play f ts w"
  by (induction ts arbitrary: w)
     (auto simp: play_def advance_with_def obind_Done_iff advance_Done_iff step_world_def)

lemma run_ticks_play:
  assumes "\<And>t. sorted (map si_player_id (f t))" and "w_tick w \<le> c"
  shows "run_events (advance_with (advance p) f) w (tick_range (w_tick w) c) =
      Done (play f (tick_range (w_tick w) c) w)"
    and "w_tick (play f (tick_range (w_tick w) c) w) = c"
proof -
  obtain w' where "run_events (advance_with (advance p) f) w (tick_range (w_tick w) c) = Done w'"
    and "w_tick w' = c"
    using sim.run_ticks[of f w c p] assms by blast
  then show "run_events (advance_with (advance p) f) w (tick_range (w_tick w) c) =
      Done (play f (tick_range (w_tick w) c) w)"
    and "w_tick (play f (tick_range (w_tick w) c) w) = c"
    using run_is_play by auto
qed

definition inputs_at :: "AppliedInput list \<Rightarrow> Tick \<Rightarrow> StepInput list" where
  "inputs_at as t = sort_key si_player_id (map to_step_input (filter (\<lambda>a. ai_tick a = t) as))"

lemma hm_get_push_inputs:
  "hm_get (fold push_input as m) t =
     (if filter (\<lambda>a. ai_tick a = t) as = [] then hm_get m t
      else Some ((case hm_get m t of None \<Rightarrow> [] | Some xs \<Rightarrow> xs) @ filter (\<lambda>a. ai_tick a = t) as))"
  by (induction as arbitrary: m) (auto simp: push_input_def split: option.split)

lemma replay_inputs_at: "replay_inputs (fold push_input as []) = inputs_at as"
  by (auto simp: fun_eq_iff replay_inputs_def inputs_at_def hm_get_push_inputs)

lemma group_inputs_eq:
  "group_inputs is m =
     (case collect_results AppliedInput_try_from is of
        Inl e \<Rightarrow> Inl (InvalidFormat e) | Inr as \<Rightarrow> Inr (fold push_input as m))"
  by (induction "is" arbitrary: m) (auto split: sum.split)

section \<open>What the verifier computes\<close>

definition fresh_world :: "u64 \<Rightarrow> u32 \<Rightarrow> World" where
  "fresh_world seed hz =
     \<lparr>w_tick = 0, w_tick_rate_hz = hz, w_dt_seconds = f64_div f64_one (f64_of_u32 hz),
      w_characters = [], w_next_entity_id = 1, w_seed = seed\<rparr>"

lemma World_new_eq:
  "World_new seed hz = (if 0 < hz then Done (fresh_world seed hz) else Panic TickRateNotPositive)"
  by (simp add: World_new_def fresh_world_def)

lemma fresh_world_wf: "0 < hz \<Longrightarrow> world_wf (fresh_world seed hz)"
  using World_new_Done[of seed hz] by (simp add: World_new_eq)

lemma fresh_world_simps [simp]:
  "w_tick (fresh_world seed hz) = 0" "w_characters (fresh_world seed hz) = []"
  by (simp_all add: fresh_world_def)

definition start_world :: "ReplayArtifact \<Rightarrow> World" where
  "start_world a =
     spawned (fresh_world (ra_seed a) (ra_tick_rate_hz a)) (map ucast (ra_entity_spawn_order a))"

definition decoded :: "ReplayArtifact \<Rightarrow> string + AppliedInput list" where
  "decoded a = collect_results AppliedInput_try_from (ra_inputs a)"

definition fits_memory :: "ReplayArtifact \<Rightarrow> bool" where
  "fits_memory a \<longleftrightarrow> length (ra_entity_spawn_order a) + 1 < 2 ^ 64"

lemma start_world_wf:
  "0 < ra_tick_rate_hz a \<Longrightarrow> fits_memory a \<Longrightarrow>
     world_wf (start_world a) \<and> w_tick (start_world a) = 0 \<and>
     w_players (start_world a) = map ucast (ra_entity_spawn_order a)"
  using spawned_wf[OF fresh_world_wf, of "ra_tick_rate_hz a" "ra_seed a" "map ucast (ra_entity_spawn_order a)"]
  by (simp add: start_world_def fits_memory_def)

lemma verify_from_eq:
  assumes "w_tick w = 0"
  shows "verify_from p a b w =
    (if state_digest w \<noteq> jb_digest b
     then Done (Inl (InitializationAnchorMismatch (jb_digest b) (state_digest w)))
     else case decoded a of
       Inl e \<Rightarrow> Done (Inl (InvalidFormat e))
     | Inr as \<Rightarrow>
         if jb_tick b = 0
         then Done (check_outcome a (play (inputs_at as) (tick_range 0 (ra_checkpoint_tick a)) w))
         else if ra_checkpoint_tick a \<le> jb_tick b then Done (check_outcome a w)
         else Panic (TickMismatch 0 (jb_tick b)))"
proof -
  have order: "sorted (map si_player_id (inputs_at as t))" for as t by (simp add: inputs_at_def)
  have run: "run_events (advance_with (advance p) (inputs_at as)) w
      (tick_range (jb_tick b) (ra_checkpoint_tick a)) =
    (if jb_tick b = 0 then Done (play (inputs_at as) (tick_range 0 (ra_checkpoint_tick a)) w)
     else if ra_checkpoint_tick a \<le> jb_tick b then Done w else Panic (TickMismatch 0 (jb_tick b)))" for as
    using run_ticks_play(1)[of "inputs_at as" w "ra_checkpoint_tick a" p, OF order] assms
      sim.run_ticks_mismatch[of "jb_tick b" w "ra_checkpoint_tick a" p "inputs_at as"]
    by (auto simp: tick_range_empty not_le)
  show ?thesis
    by (auto simp: verify_from_def baseline_def group_inputs_eq decoded_def replay_inputs_at run Let_def
        split: sum.split)
qed

lemma verify_replay_eq:
  assumes "fits_memory a" and "check_build a opts = Inr ()" and "ra_initial_baseline a = Some b"
    and "stream_valid a b" and "0 < ra_tick_rate_hz a"
  shows "spawns_agree (player_entity_map a) 1 (ra_entity_spawn_order a) \<Longrightarrow>
      verify_replay p a opts = verify_from p a b (start_world a)"
    and "\<not> spawns_agree (player_entity_map a) 1 (ra_entity_spawn_order a) \<Longrightarrow>
      \<exists>pid e e'. verify_replay p a opts = Done (Inl (SpawnReconstructionMismatch pid e e'))"
proof -
  have stream: "validate_input_stream a = Inr ()" using assms(3,4) by (auto simp: validate_input_stream_iff)
  have "if spawns_agree (player_entity_map a) 1 (ra_entity_spawn_order a)
    then reconstruct p (player_entity_map a) (ra_entity_spawn_order a) (fresh_world (ra_seed a) (ra_tick_rate_hz a))
      = Done (Inr (start_world a))
    else \<exists>pid e e'. reconstruct p (player_entity_map a) (ra_entity_spawn_order a)
      (fresh_world (ra_seed a) (ra_tick_rate_hz a)) = Done (Inl (SpawnReconstructionMismatch pid e e'))"
    using reconstruct_result[OF fresh_world_wf[OF assms(5)], of "ra_seed a" "ra_entity_spawn_order a" "player_entity_map a" p] assms(1)
    by (simp add: fits_memory_def start_world_def)
  then show "spawns_agree (player_entity_map a) 1 (ra_entity_spawn_order a) \<Longrightarrow>
      verify_replay p a opts = verify_from p a b (start_world a)"
    and "\<not> spawns_agree (player_entity_map a) 1 (ra_entity_spawn_order a) \<Longrightarrow>
      \<exists>pid e e'. verify_replay p a opts = Done (Inl (SpawnReconstructionMismatch pid e e'))"
    using assms stream by (auto simp: verify_replay_def World_new_eq)
qed

lemma check_outcome_Inr_iff:
  "check_outcome a w = Inr () \<longleftrightarrow> w_tick w = ra_checkpoint_tick a \<and> state_digest w = ra_final_digest a"
  by (simp add: check_outcome_def)

lemma verify_replay_Done_only_if:
  assumes "verify_replay p a opts = Done (Inr ())"
  obtains b where "check_build a opts = Inr ()" "ra_initial_baseline a = Some b" "stream_valid a b"
    "0 < ra_tick_rate_hz a"
proof -
  have "check_build a opts = Inr ()" "validate_input_stream a = Inr ()"
    using assms by (auto simp: verify_replay_def try_bind_Inr_iff)
  moreover have "0 < ra_tick_rate_hz a"
    using assms by (auto simp: verify_replay_def outcome_simps World_new_eq split: if_splits)
  ultimately show thesis using that by (auto simp: validate_input_stream_iff)
qed

definition outcome_reproduced :: "ReplayArtifact \<Rightarrow> JoinBaseline \<Rightarrow> AppliedInput list \<Rightarrow> bool" where
  "outcome_reproduced a b as \<longleftrightarrow>
     spawns_agree (player_entity_map a) 1 (ra_entity_spawn_order a) \<and>
     state_digest (start_world a) = jb_digest b \<and>
     (jb_tick b = 0 \<or> ra_checkpoint_tick a = 0) \<and>
     state_digest (play (inputs_at as) (tick_range 0 (ra_checkpoint_tick a)) (start_world a)) =
       ra_final_digest a"

lemma verify_replay_accepts_iff:
  assumes mem: "fits_memory a"
  shows "verify_replay p a opts = Done (Inr ()) \<longleftrightarrow>
    check_build a opts = Inr () \<and> 0 < ra_tick_rate_hz a \<and>
    (\<exists>b as. ra_initial_baseline a = Some b \<and> stream_valid a b \<and> decoded a = Inr as \<and>
       outcome_reproduced a b as)"
proof (cases "\<exists>b. check_build a opts = Inr () \<and> ra_initial_baseline a = Some b \<and> stream_valid a b \<and>
    0 < ra_tick_rate_hz a")
  case False
  then show ?thesis using verify_replay_Done_only_if[of p a opts] by blast
next
  case True
  then obtain b where c: "check_build a opts = Inr ()" "ra_initial_baseline a = Some b"
    "stream_valid a b" "0 < ra_tick_rate_hz a" by blast
  note eq = verify_replay_eq[OF mem c, of p]
  have start: "w_tick (start_world a) = 0" using start_world_wf[OF c(4) mem] by simp
  have tick: "w_tick (play (inputs_at as) (tick_range 0 (ra_checkpoint_tick a)) (start_world a)) =
      ra_checkpoint_tick a" for as
    using run_ticks_play(2)[of "inputs_at as" "start_world a" "ra_checkpoint_tick a"] start
    by (simp add: inputs_at_def)
  have verified: "verify_from p a b (start_world a) = Done (Inr ()) \<longleftrightarrow>
      state_digest (start_world a) = jb_digest b \<and>
      (\<exists>as. decoded a = Inr as \<and> (jb_tick b = 0 \<or> ra_checkpoint_tick a = 0) \<and>
         state_digest (play (inputs_at as) (tick_range 0 (ra_checkpoint_tick a)) (start_world a)) =
           ra_final_digest a)"
    using start
    by (auto simp: verify_from_eq[OF start] check_outcome_Inr_iff tick tick_range_empty
        split: sum.split)
  show ?thesis
  proof (cases "spawns_agree (player_entity_map a) 1 (ra_entity_spawn_order a)")
    case True
    show ?thesis unfolding eq(1)[OF True] verified using c True by (auto simp: outcome_reproduced_def)
  next
    case False
    with eq(2) c show ?thesis by (auto simp: outcome_reproduced_def)
  qed
qed

section \<open>Panics\<close>

lemma verify_replay_panics_iff:
  assumes mem: "fits_memory a"
  shows "verify_replay p a opts = Panic r \<longleftrightarrow>
    check_build a opts = Inr () \<and> (\<exists>b. ra_initial_baseline a = Some b \<and> stream_valid a b \<and>
      (ra_tick_rate_hz a = 0 \<and> r = TickRateNotPositive \<or>
       0 < ra_tick_rate_hz a \<and> spawns_agree (player_entity_map a) 1 (ra_entity_spawn_order a) \<and>
         state_digest (start_world a) = jb_digest b \<and> (\<exists>as. decoded a = Inr as) \<and>
         0 < jb_tick b \<and> jb_tick b < ra_checkpoint_tick a \<and> r = TickMismatch 0 (jb_tick b)))"
proof (cases "\<exists>b. check_build a opts = Inr () \<and> ra_initial_baseline a = Some b \<and> stream_valid a b")
  case False
  have "check_build a opts = Inr () \<and> validate_input_stream a = Inr ()"
    if "verify_replay p a opts = Panic r"
    using that by (auto simp: verify_replay_def try_bind_Panic_iff)
  with False show ?thesis by (auto simp: validate_input_stream_iff)
next
  case True
  then obtain b where c: "check_build a opts = Inr ()" "ra_initial_baseline a = Some b"
    "stream_valid a b" by blast
  show ?thesis
  proof (cases "0 < ra_tick_rate_hz a")
    case False
    have "validate_input_stream a = Inr ()" using c by (auto simp: validate_input_stream_iff)
    with c False show ?thesis by (auto simp: verify_replay_def World_new_eq word_gt_0)
  next
    case True
    note eq = verify_replay_eq[OF mem c True, of p]
    have start: "w_tick (start_world a) = 0" using start_world_wf[OF True mem] by simp
    show ?thesis
    proof (cases "spawns_agree (player_entity_map a) 1 (ra_entity_spawn_order a)")
      case agree: True
      show ?thesis
        unfolding eq(1)[OF agree] using c True agree
        by (auto simp: verify_from_eq[OF start] not_le word_gt_0 split: sum.split)
    next
      case False
      with eq(2) True c show ?thesis by auto
    qed
  qed
qed

section \<open>Storage order\<close>

definition decode_input :: "AppliedInputProto \<Rightarrow> AppliedInput" where
  "decode_input i =
     \<lparr>ai_tick = aip_tick i, ai_player_id = ucast (aip_player_id i),
      ai_move_dir = vec2_of (aip_move_dir i), ai_is_fallback = aip_is_fallback i\<rparr>"

lemma decoded_iff:
  "collect_results AppliedInput_try_from is = Inr as \<longleftrightarrow>
     (\<forall>i \<in> set is. length (aip_move_dir i) = 2) \<and>
     as = map decode_input is"
proof (induction "is" arbitrary: as)
  case (Cons i "is")
  have "AppliedInput_try_from i =
      (if length (aip_move_dir i) \<noteq> 2 then Inl ''move_dir must have exactly 2 elements''
       else Inr (decode_input i))"
    by (simp add: AppliedInput_try_from_def decode_input_def)
  with Cons.IH show ?case
    by (cases "collect_results AppliedInput_try_from is") (auto split: if_splits)
qed auto

lemma decode_input_simps [simp]:
  "ai_tick (decode_input i) = aip_tick i" "ai_player_id (decode_input i) = ucast (aip_player_id i)"
  by (simp_all add: decode_input_def)

lemma sort_key_unique:
  assumes "mset xs = mset ys" and "distinct (map f xs)"
  shows "sort_key f xs = sort_key f ys"
proof (rule map_sorted_distinct_set_unique[of f])
  have set: "set xs = set ys" using assms(1) by (rule mset_eq_setD)
  show "inj_on f (set (sort_key f xs) \<union> set (sort_key f ys))"
    using assms(2) set by (simp add: distinct_map)
  have "mset (map f (sort_key f xs)) = mset (map f xs)" "mset (map f (sort_key f ys)) = mset (map f xs)"
    using assms(1) by simp_all
  then show "distinct (map f (sort_key f xs))" "distinct (map f (sort_key f ys))"
    using assms(2) mset_eq_imp_distinct_iff by blast+
  show "set (sort_key f xs) = set (sort_key f ys)" using set by simp
qed simp_all

lemma count_one_distinct:
  assumes "\<And>k. k \<in> g ` set xs \<Longrightarrow> length (filter (\<lambda>x. g x = k) xs) = 1"
  shows "distinct (map g xs)"
  using assms
proof (induction xs)
  case (Cons x xs)
  have "filter (\<lambda>y. g y = g x) xs = []" using Cons.prems[of "g x"] by simp
  then have fresh: "g x \<notin> g ` set xs" by (auto simp: filter_empty_conv)
  have "length (filter (\<lambda>y. g y = k) xs) = 1" if "k \<in> g ` set xs" for k
  proof -
    have "g x \<noteq> k" using that fresh by auto
    then show ?thesis using Cons.prems[of k] that by simp
  qed
  with Cons.IH fresh show ?case by simp
qed simp

lemma small_player_id_inject:
  fixes m n :: u32
  assumes "m < 256" and "n < 256" and "(ucast m :: PlayerId) = ucast n"
  shows "m = n"
proof -
  have "unat (ucast k :: PlayerId) = unat k" if "k < 256" for k :: u32
  proof -
    have "unat k < 256" using that by (simp add: word_less_nat_alt)
    then show ?thesis by (simp add: unsigned_ucast_eq take_bit_nat_eq_self)
  qed
  with assms show ?thesis by (metis word_unat_eq_iff)
qed

lemma decoded_players_distinct:
  assumes "stream_valid a b" and "\<forall>i \<in> set (ra_inputs a). aip_player_id i < 256"
  shows "distinct (map ai_player_id (map decode_input (filter (\<lambda>i. aip_tick i = t) (ra_inputs a))))"
proof -
  let ?xs = "filter (\<lambda>i. aip_tick i = t) (ra_inputs a)"
  have "distinct (map aip_player_id ?xs)"
  proof (rule count_one_distinct)
    fix k
    assume "k \<in> aip_player_id ` set ?xs"
    then obtain i where i: "i \<in> set (ra_inputs a)" "aip_tick i = t" "aip_player_id i = k" by auto
    with assms(1) have "input_count a k t = 1" by (auto simp: stream_valid_def)
    then show "length (filter (\<lambda>x. aip_player_id x = k) ?xs) = 1"
      by (simp add: input_count_def conj_commute)
  qed
  moreover have "inj_on (ucast :: u32 \<Rightarrow> PlayerId) (aip_player_id ` set ?xs)"
  proof (rule inj_onI)
    fix x y
    assume xy: "x \<in> aip_player_id ` set ?xs" "y \<in> aip_player_id ` set ?xs"
      and eq: "(ucast x :: PlayerId) = ucast y"
    from xy assms(2) have "x < 256" "y < 256" by auto
    then show "x = y" using eq by (rule small_player_id_inject)
  qed
  ultimately have "distinct (map (ucast :: u32 \<Rightarrow> PlayerId) (map aip_player_id ?xs))" by (auto simp: distinct_map intro: comp_inj_on)
  then show ?thesis by (simp add: comp_def)
qed

lemma filter_ticks_decoded:
  "filter (\<lambda>a. ai_tick a = t) (map decode_input is) = map decode_input (filter (\<lambda>i. aip_tick i = t) is)"
  by (simp add: filter_map comp_def)

lemma inputs_at_reordered:
  assumes "stream_valid a b" and "\<forall>i \<in> set (ra_inputs a). aip_player_id i < 256"
    and "mset is' = mset (ra_inputs a)"
  shows "inputs_at (map decode_input is') = inputs_at (map decode_input (ra_inputs a))"
proof
  fix t
  have pids: "map si_player_id (map to_step_input as) = map ai_player_id as" for as
    by (simp add: to_step_input_def)
  have "mset (filter (\<lambda>i. aip_tick i = t) is') = mset (filter (\<lambda>i. aip_tick i = t) (ra_inputs a))"
    using assms(3) by simp
  then have "mset (map to_step_input (map decode_input (filter (\<lambda>i. aip_tick i = t) (ra_inputs a)))) =
      mset (map to_step_input (map decode_input (filter (\<lambda>i. aip_tick i = t) is')))"
    by (simp only: mset_map)
  then show "inputs_at (map decode_input is') t = inputs_at (map decode_input (ra_inputs a)) t"
    unfolding inputs_at_def filter_ticks_decoded
    by (rule sort_key_unique[symmetric]) (simp only: pids decoded_players_distinct[OF assms(1,2)])
qed

lemma stream_valid_reordered:
  assumes "mset is' = mset (ra_inputs a)"
  shows "stream_valid (a\<lparr>ra_inputs := is'\<rparr>) b \<longleftrightarrow> stream_valid a b"
proof -
  have "length (filter P is') = length (filter P (ra_inputs a))" for P
    using assms by (metis mset_filter size_mset)
  then show ?thesis
    using mset_eq_setD[OF assms] by (simp add: stream_valid_def input_count_def artifact_players_def)
qed

lemma reordered_fields [simp]:
  "fits_memory (a\<lparr>ra_inputs := is'\<rparr>) = fits_memory a"
  "check_build (a\<lparr>ra_inputs := is'\<rparr>) opts = check_build a opts"
  "start_world (a\<lparr>ra_inputs := is'\<rparr>) = start_world a"
  "player_entity_map (a\<lparr>ra_inputs := is'\<rparr>) = player_entity_map a"
  by (simp_all add: fits_memory_def check_build_def start_world_def player_entity_map_def)

section \<open>A faithful recording verifies\<close>

definition complete_stream :: "PlayerId list \<Rightarrow> Tick \<Rightarrow> AppliedInput list \<Rightarrow> bool" where
  "complete_stream ps c as \<longleftrightarrow>
     (\<forall>p \<in> set ps. \<forall>t < c. length (filter (\<lambda>a. ai_player_id a = p \<and> ai_tick a = t) as) = 1) \<and>
     (\<forall>a \<in> set as. ai_tick a < c \<and> ai_player_id a \<in> set ps)"

definition number_from :: "nat \<Rightarrow> PlayerId list \<Rightarrow> (PlayerId \<times> EntityId) list" where
  "number_from n ps = zip ps (map of_nat [n..<n + length ps])"

lemma map_fst_number_from: "map fst (number_from n ps) = ps"
  by (simp add: number_from_def)

lemma number_from_snoc:
  "number_from n (ps @ [p]) = number_from n ps @ [(p, of_nat (n + length ps))]"
  by (simp add: number_from_def)

text \<open>What a recorder holds after a run in which every spawn precedes the first tick.\<close>

definition faithful_recording :: "ReplayRecorder \<Rightarrow> PlayerId list \<Rightarrow> Tick \<Rightarrow> bool" where
  "faithful_recording r ps c \<longleftrightarrow>
     rr_entity_spawn_order r = ps \<and> rr_player_entity_mapping r = number_from 1 ps \<and>
     rr_initial_baseline r =
       Some (baseline (spawned (fresh_world (rc_seed (rr_config r)) (rc_tick_rate_hz (rr_config r))) ps)) \<and>
     complete_stream ps c (rr_inputs r)"

lemma spawns_agree_numbered:
  assumes "distinct ps"
  shows "spawns_agree
    (fold (\<lambda>(k, v). hm_insert k v) (map (\<lambda>(pid, eid). (ucast pid, eid)) (number_from n ps)) [])
    n (map (ucast :: PlayerId \<Rightarrow> u32) ps)"
  unfolding spawns_agree_def
proof (intro allI impI)
  fix i e
  let ?kvs = "map (\<lambda>(pid, eid). (ucast pid :: u32, eid)) (number_from n ps)"
  assume i: "i < length (map (ucast :: PlayerId \<Rightarrow> u32) ps)"
    and get: "hm_get (fold (\<lambda>(k, v). hm_insert k v) ?kvs []) (map ucast ps ! i) = Some e"
  have "map fst ?kvs = map ucast (map fst (number_from n ps))" by (simp add: split_def)
  then have keys: "map fst ?kvs = map ucast ps" by (simp only: map_fst_number_from)
  have "distinct (map (ucast :: PlayerId \<Rightarrow> u32) ps)" using assms by (simp add: distinct_map inj_on_def)
  then have dist: "distinct (map fst ?kvs)" unfolding keys .
  have nth: "?kvs ! i = (map ucast ps ! i, of_nat (n + i))" and len: "i < length ?kvs"
    using i by (simp_all add: number_from_def)
  then have mem: "(map ucast ps ! i, of_nat (n + i)) \<in> set ?kvs" by (metis nth_mem)
  have "map_of (rev ?kvs) (map ucast ps ! i) = Some (of_nat (n + i))"
    by (rule map_of_is_SomeI) (use dist mem in \<open>simp_all only: rev_map[symmetric] distinct_rev set_rev\<close>)
  then show "e = of_nat (n + i)" using get by (simp add: hm.get_collect)
qed

lemma distinct_players_le: "distinct ps \<Longrightarrow> length ps \<le> 256" for ps :: "PlayerId list"
proof -
  assume "distinct ps"
  then have "length ps = card (set ps)" by (simp add: distinct_card)
  also have "\<dots> \<le> card (UNIV :: PlayerId set)" by (rule card_mono) simp_all
  also have "\<dots> = 256" by (simp add: card_word)
  finally show ?thesis .
qed

definition played :: "ReplayRecorder \<Rightarrow> PlayerId list \<Rightarrow> Tick \<Rightarrow> World" where
  "played r ps c =
     play (inputs_at (rr_inputs r)) (tick_range 0 c)
       (spawned (fresh_world (rc_seed (rr_config r)) (rc_tick_rate_hz (rr_config r))) ps)"

definition build_compatible :: "BuildFingerprintData option \<Rightarrow> VerifyOptions \<Rightarrow> bool" where
  "build_compatible f opts \<longleftrightarrow>
     (case (f, vo_current_build opts) of
        (Some g, Some h) \<Rightarrow>
          vo_strict_build_check opts \<longrightarrow>
            bfd_binary_sha256 g = bfd_binary_sha256 h \<and> bfd_target_triple g = bfd_target_triple h \<and>
            bfd_profile g = bfd_profile h
      | _ \<Rightarrow> True)"

lemma recorder_finalize_simps [simp]:
  "ra_checkpoint_tick (recorder_finalize r d c reason) = c"
  "ra_final_digest (recorder_finalize r d c reason) = d"
  "ra_inputs (recorder_finalize r d c reason) = map AppliedInputProto_from (rr_inputs r)"
  "ra_entity_spawn_order (recorder_finalize r d c reason) = map ucast (rr_entity_spawn_order r)"
  "ra_initial_baseline (recorder_finalize r d c reason) =
     map_option JoinBaseline_from (rr_initial_baseline r)"
  "ra_tick_rate_hz (recorder_finalize r d c reason) = rc_tick_rate_hz (rr_config r)"
  by (simp_all add: recorder_finalize_def)

lemma check_build_finalized:
  "check_build (recorder_finalize r d c reason) opts = Inr () \<longleftrightarrow>
     build_compatible (rr_build_fingerprint r) opts"
  by (auto simp: check_build_def recorder_finalize_def build_compatible_def BuildFingerprint_of_def
      split: option.split)

lemma faithful_recording_verifies:
  assumes rec: "faithful_recording r ps c" and ps: "distinct ps"
    and hz: "0 < rc_tick_rate_hz (rr_config r)" and build: "build_compatible (rr_build_fingerprint r) opts"
  shows "verify_replay p (recorder_finalize r (state_digest (played r ps c)) c reason) opts = Done (Inr ())"
proof -
  let ?a = "recorder_finalize r (state_digest (played r ps c)) c reason"
  let ?w = "spawned (fresh_world (rc_seed (rr_config r)) (rc_tick_rate_hz (rr_config r))) ps"
  let ?b = "JoinBaseline_from (baseline ?w)"
  have r: "rr_entity_spawn_order r = ps" "rr_player_entity_mapping r = number_from 1 ps"
    "rr_initial_baseline r = Some (baseline ?w)" "complete_stream ps c (rr_inputs r)"
    using rec by (simp_all add: faithful_recording_def)
  have mem: "fits_memory ?a"
    using distinct_players_le[OF ps] by (simp add: fits_memory_def recorder_finalize_def r)
  have start: "start_world ?a = ?w"
    by (simp add: start_world_def recorder_finalize_def r comp_def)
  have tick: "w_tick ?w = 0"
    using spawned_wf[OF fresh_world_wf[OF hz], of "rc_seed (rr_config r)" ps] distinct_players_le[OF ps] by simp
  have b: "ra_initial_baseline ?a = Some ?b" "jb_tick ?b = 0" "jb_digest ?b = state_digest ?w"
    by (simp_all add: recorder_finalize_def r JoinBaseline_from_def baseline_def tick)
  have "artifact_players ?a = map ucast (map fst (number_from 1 ps))"
    by (simp add: artifact_players_def recorder_finalize_def r split_def comp_def)
  then have players: "artifact_players ?a = map ucast ps" by (simp only: map_fst_number_from)
  have count: "input_count ?a (ucast q) t =
      length (filter (\<lambda>a. ai_player_id a = q \<and> ai_tick a = t) (rr_inputs r))" for q t
    by (simp add: input_count_def recorder_finalize_def filter_map comp_def AppliedInputProto_from_def)
  have stream: "stream_valid ?a ?b"
    unfolding stream_valid_def players b(2)
    using r(4) by (auto simp: count complete_stream_def AppliedInputProto_from_def)
  have dec: "decoded ?a = Inr (rr_inputs r)"
    by (simp add: decoded_def recorder_finalize_def applied.collect_enc)
  have pmap: "player_entity_map ?a =
      fold (\<lambda>(k, v). hm_insert k v) (map (\<lambda>(pid, eid). (ucast pid, eid)) (number_from 1 ps)) []"
    by (simp add: player_entity_map_def recorder_finalize_def r split_def comp_def)
  have agree: "spawns_agree (player_entity_map ?a) 1 (ra_entity_spawn_order ?a)"
    unfolding pmap using spawns_agree_numbered[OF ps, of 1] by (simp add: recorder_finalize_def r)
  have "outcome_reproduced ?a ?b (rr_inputs r)"
    unfolding outcome_reproduced_def start b
    using agree by (simp add: recorder_finalize_def played_def)
  moreover have "ra_tick_rate_hz ?a = rc_tick_rate_hz (rr_config r)" by (simp add: recorder_finalize_def)
  ultimately show ?thesis
    unfolding verify_replay_accepts_iff[OF mem] check_build_finalized
    using build hz b(1) stream dec by auto
qed

section \<open>Properties\<close>

text \<open>
  C9. The input-stream check passes exactly when there is a baseline and every listed player has
  exactly one input for every tick from the baseline to the checkpoint, and nothing else is there.
\<close>

theorem input_stream_check_exact:
  "validate_input_stream a = Inr () \<longleftrightarrow>
     (\<exists>b. ra_initial_baseline a = Some b \<and>
        (\<forall>pid \<in> set (artifact_players a). \<forall>t. jb_tick b \<le> t \<and> t < ra_checkpoint_tick a \<longrightarrow>
           input_count a pid t = 1) \<and>
        (\<forall>i \<in> set (ra_inputs a). jb_tick b \<le> aip_tick i \<and> aip_tick i < ra_checkpoint_tick a \<and>
           aip_player_id i \<in> set (artifact_players a)))"
  by (simp only: validate_input_stream_iff stream_valid_def)

definition demo_recorder :: ReplayRecorder where
  "demo_recorder =
     fold record_input
       [\<lparr>ai_tick = 0, ai_player_id = 7, ai_move_dir = (f64_one, f64_zero), ai_is_fallback = False\<rparr>,
        \<lparr>ai_tick = 0, ai_player_id = 3, ai_move_dir = (f64_zero, f64_zero), ai_is_fallback = True\<rparr>]
       (record_baseline (baseline (spawned (fresh_world 0 30) [7, 3]))
         (record_spawn 3 2 (record_spawn 7 1
           (ReplayRecorder_new (ReplayConfig_default\<lparr>rc_tick_rate_hz := 30\<rparr>)))))"

definition demo_artifact :: ReplayArtifact where
  "demo_artifact = recorder_finalize demo_recorder (state_digest (played demo_recorder [7, 3] 1)) 1 ''complete''"

lemma less_one_word: "t < 1 \<longleftrightarrow> t = 0" for t :: u64
  by (metis not_less word_gt_0 word_less_1 word_zero_le)

lemma demo_recorder_config [simp]: "rr_config demo_recorder = ReplayConfig_default\<lparr>rc_tick_rate_hz := 30\<rparr>"
  "rr_build_fingerprint demo_recorder = None"
  by (simp_all add: demo_recorder_def record_input_def record_baseline_def record_spawn_def ReplayRecorder_new_def)

lemma demo_recording: "faithful_recording demo_recorder [7, 3] 1"
  by (simp add: faithful_recording_def complete_stream_def number_from_def demo_recorder_def
      record_input_def record_baseline_def record_spawn_def ReplayRecorder_new_def
      ReplayConfig_default_def less_one_word upt_rec)

lemma demo_artifact_verifies: "verify_replay p demo_artifact VerifyOptions_default = Done (Inr ())"
  unfolding demo_artifact_def
  by (rule faithful_recording_verifies[OF demo_recording])
     (simp_all add: ReplayConfig_default_def build_compatible_def)

lemma demo_artifact_memory: "fits_memory demo_artifact"
  by (simp add: fits_memory_def demo_artifact_def recorder_finalize_def demo_recorder_def
      record_input_def record_baseline_def record_spawn_def ReplayRecorder_new_def)

theorem input_stream_check_exact_witness: "validate_input_stream demo_artifact = Inr ()"
proof -
  from demo_artifact_verifies[of Dev] obtain b
    where "ra_initial_baseline demo_artifact = Some b" "stream_valid demo_artifact b"
    by (rule verify_replay_Done_only_if)
  then show ?thesis unfolding input_stream_check_exact stream_valid_def by blast
qed

text \<open>
  C10. \<open>verify_replay\<close> accepts exactly the artifacts whose recorded outcome their inputs reproduce:
  the build matches, the stream is complete, the spawn order hands out the recorded entity ids,
  the reconstructed world has the baseline's digest, and replaying every tick from 0 to the
  checkpoint ends in the recorded final digest.
\<close>

theorem verifier_accepts_exactly:
  assumes "fits_memory a"
  shows "verify_replay p a opts = Done (Inr ()) \<longleftrightarrow>
    check_build a opts = Inr () \<and> 0 < ra_tick_rate_hz a \<and>
    (\<exists>b as. ra_initial_baseline a = Some b \<and> stream_valid a b \<and> decoded a = Inr as \<and>
       spawns_agree (player_entity_map a) 1 (ra_entity_spawn_order a) \<and>
       state_digest (start_world a) = jb_digest b \<and>
       (jb_tick b = 0 \<or> ra_checkpoint_tick a = 0) \<and>
       state_digest (play (inputs_at as) (tick_range 0 (ra_checkpoint_tick a)) (start_world a)) =
         ra_final_digest a)"
  by (simp only: verify_replay_accepts_iff[OF assms] outcome_reproduced_def)

theorem verifier_accepts_exactly_witness:
  "\<exists>as. decoded demo_artifact = Inr as \<and>
     state_digest (play (inputs_at as) (tick_range 0 (ra_checkpoint_tick demo_artifact))
       (start_world demo_artifact)) = ra_final_digest demo_artifact"
  using verifier_accepts_exactly[OF demo_artifact_memory, of Dev VerifyOptions_default]
    demo_artifact_verifies[of Dev] by blast

text \<open>
  C11. When the verifier panics instead of returning an error: exactly on an artifact whose stream
  is complete but whose tick rate is zero, or that would otherwise be replayed from a baseline
  tick other than 0. Both are fields of the file being verified.
\<close>

theorem verifier_panics_exactly:
  assumes "fits_memory a"
  shows "verify_replay p a opts = Panic r \<longleftrightarrow>
    check_build a opts = Inr () \<and> (\<exists>b. ra_initial_baseline a = Some b \<and> stream_valid a b \<and>
      (ra_tick_rate_hz a = 0 \<and> r = TickRateNotPositive \<or>
       0 < ra_tick_rate_hz a \<and> spawns_agree (player_entity_map a) 1 (ra_entity_spawn_order a) \<and>
         state_digest (start_world a) = jb_digest b \<and> (\<exists>as. decoded a = Inr as) \<and>
         0 < jb_tick b \<and> jb_tick b < ra_checkpoint_tick a \<and> r = TickMismatch 0 (jb_tick b)))"
  by (rule verify_replay_panics_iff[OF assms])

theorem verifier_panics_exactly_witness:
  "verify_replay Release (demo_artifact\<lparr>ra_tick_rate_hz := 0\<rparr>) VerifyOptions_default =
     Panic TickRateNotPositive"
proof -
  let ?a = "demo_artifact\<lparr>ra_tick_rate_hz := 0\<rparr>"
  from demo_artifact_verifies[of Dev] obtain b where b: "check_build demo_artifact VerifyOptions_default = Inr ()"
    "ra_initial_baseline demo_artifact = Some b" "stream_valid demo_artifact b"
    by (rule verify_replay_Done_only_if)
  have "fits_memory ?a" using demo_artifact_memory by (simp add: fits_memory_def)
  moreover have "check_build ?a VerifyOptions_default = Inr ()" using b(1) by (simp add: check_build_def)
  moreover have "stream_valid ?a b"
    using b(3) by (simp add: stream_valid_def input_count_def artifact_players_def)
  ultimately show ?thesis using b(2) by (simp add: verifier_panics_exactly)
qed

text \<open>
  Verification does not depend on the order in which the input records are stored: if an
  artifact verifies, so does every permutation of its inputs.
\<close>

theorem storage_order_irrelevant:
  assumes "fits_memory a" and "\<forall>i \<in> set (ra_inputs a). aip_player_id i < 256"
    and "mset is' = mset (ra_inputs a)" and "verify_replay p a opts = Done (Inr ())"
  shows "verify_replay p (a\<lparr>ra_inputs := is'\<rparr>) opts = Done (Inr ())"
proof -
  let ?a = "a\<lparr>ra_inputs := is'\<rparr>"
  from assms(4) obtain b as where ok: "check_build a opts = Inr ()" "0 < ra_tick_rate_hz a"
    "ra_initial_baseline a = Some b" "stream_valid a b" "decoded a = Inr as" "outcome_reproduced a b as"
    unfolding verify_replay_accepts_iff[OF assms(1)] by blast
  have as: "as = map decode_input (ra_inputs a)" "\<forall>i \<in> set (ra_inputs a). length (aip_move_dir i) = 2"
    using ok(5) by (simp_all add: decoded_def decoded_iff)
  have "decoded ?a = Inr (map decode_input is')"
    using as(2) mset_eq_setD[OF assms(3)] by (simp add: decoded_def decoded_iff)
  moreover have "outcome_reproduced ?a b (map decode_input is')"
    using ok(6) inputs_at_reordered[OF ok(4) assms(2,3)] by (simp add: outcome_reproduced_def as(1))
  moreover have "stream_valid ?a b" using ok(4) stream_valid_reordered[OF assms(3)] by simp
  moreover have "fits_memory ?a" using assms(1) by simp
  ultimately show ?thesis using ok by (simp add: verify_replay_accepts_iff)
qed

theorem storage_order_irrelevant_witness:
  "verify_replay Dev (demo_artifact\<lparr>ra_inputs := rev (ra_inputs demo_artifact)\<rparr>) VerifyOptions_default =
     Done (Inr ())"
proof (rule storage_order_irrelevant[OF demo_artifact_memory _ _ demo_artifact_verifies])
  show "\<forall>i \<in> set (ra_inputs demo_artifact). aip_player_id i < 256"
    by (simp add: demo_artifact_def demo_recorder_def record_input_def record_baseline_def
        record_spawn_def ReplayRecorder_new_def AppliedInputProto_from_def)
qed simp

end
