(* ===== verification/Server.thy ===== *)
theory Server
  imports Validation Replay
begin

text \<open>
  The Server Edge, \<^verbatim>\<open>crates/server/src/lib.rs\<close> and \<^verbatim>\<open>session.rs\<close>: configuration, state, and one
  definition per method of \<^verbatim>\<open>Server\<close>. The protobuf encoder that \<^verbatim>\<open>step\<close> calls on the snapshot is
  third-party code and is the parameter \<open>enc\<close>. A method that may panic returns an outcome; the
  profile \<open>p\<close> decides about overflow checks. The order of a \<^verbatim>\<open>HashMap\<close> iteration is that of the
  model's list; only \<^verbatim>\<open>step\<close>'s floor update and \<^verbatim>\<open>session_ids\<close> iterate.
\<close>

section \<open>Parameters and data\<close>

definition TICK_RATE_HZ :: u32 where "TICK_RATE_HZ = 30"
definition MAX_FUTURE_TICKS :: u64 where "MAX_FUTURE_TICKS = 60"
definition INPUT_LEAD_TICKS :: u64 where "INPUT_LEAD_TICKS = 1"
definition INPUT_RATE_LIMIT_PER_SEC :: u32 where "INPUT_RATE_LIMIT_PER_SEC = 120"
definition MATCH_DURATION_TICKS :: u64 where "MATCH_DURATION_TICKS = 1800"
definition CONNECT_TIMEOUT_MS :: u64 where "CONNECT_TIMEOUT_MS = 30000"
definition DEFAULT_MAX_SESSIONS :: nat where "DEFAULT_MAX_SESSIONS = 16"

datatype EndReason = Complete

fun end_reason_as_str :: "EndReason \<Rightarrow> string" where
  "end_reason_as_str Complete = ''complete''"

record ServerConfig =
  sc_seed :: u64
  sc_tick_rate_hz :: u32
  sc_max_future_ticks :: u64
  sc_input_lead_ticks :: u64
  sc_input_rate_limit_per_sec :: u32
  sc_match_duration_ticks :: u64
  sc_connect_timeout_ms :: u64
  sc_max_sessions :: nat
  sc_test_mode :: bool
  sc_test_player_ids :: "PlayerId list option"

definition ServerConfig_default :: ServerConfig where
  "ServerConfig_default =
     \<lparr>sc_seed = 0, sc_tick_rate_hz = TICK_RATE_HZ, sc_max_future_ticks = MAX_FUTURE_TICKS,
      sc_input_lead_ticks = INPUT_LEAD_TICKS,
      sc_input_rate_limit_per_sec = INPUT_RATE_LIMIT_PER_SEC,
      sc_match_duration_ticks = MATCH_DURATION_TICKS, sc_connect_timeout_ms = CONNECT_TIMEOUT_MS,
      sc_max_sessions = DEFAULT_MAX_SESSIONS, sc_test_mode = False, sc_test_player_ids = None\<rparr>"

type_synonym SessionId = u64

record Session =
  ses_id :: SessionId
  ses_player_id :: PlayerId
  ses_controlled_entity_id :: EntityId
  ses_last_valid_tick :: "u64 option"
  ses_last_input_seq :: "u64 option"

definition Session_new :: "SessionId \<Rightarrow> PlayerId \<Rightarrow> EntityId \<Rightarrow> Session" where
  "Session_new i player_id controlled_entity_id =
     \<lparr>ses_id = i, ses_player_id = player_id, ses_controlled_entity_id = controlled_entity_id,
      ses_last_valid_tick = None, ses_last_input_seq = None\<rparr>"

record Server =
  s_config :: ServerConfig
  s_world :: World
  s_sessions :: "(SessionId, Session) hashmap"
  s_next_session_id :: SessionId
  s_next_player_id :: PlayerId
  s_player_sessions :: "(PlayerId, SessionId) hashmap"
  s_session_players :: "(SessionId, PlayerId) hashmap"
  s_input_buffer :: InputBuffer
  s_last_known_intent :: "(PlayerId, vec2) hashmap"
  s_last_emitted_floor :: "(SessionId, Tick) hashmap"
  s_replay_recorder :: ReplayRecorder
  s_entity_spawn_order :: "PlayerId list"
  s_player_entity_mapping :: "(PlayerId, EntityId) hashmap"
  s_baseline_recorded :: bool
  s_build_fingerprint :: "BuildFingerprintData option"

section \<open>Construction and queries\<close>

definition Server_new :: "ServerConfig \<Rightarrow> Server outcome" where
  "Server_new config =
     (let validation_config =
            \<lparr>vc_max_future_ticks = sc_max_future_ticks config,
             vc_input_rate_limit_per_sec = sc_input_rate_limit_per_sec config,
             vc_tick_rate_hz = sc_tick_rate_hz config\<rparr>;
          replay_config =
            \<lparr>rc_seed = sc_seed config, rc_tick_rate_hz = sc_tick_rate_hz config,
             rc_rng_algorithm = ''none'', rc_test_mode = sc_test_mode config,
             rc_test_player_ids =
               (case sc_test_player_ids config of None \<Rightarrow> [] | Some ids \<Rightarrow> ids)\<rparr>
      in obind (World_new (sc_seed config) (sc_tick_rate_hz config)) (\<lambda>world.
         obind (InputBuffer_new validation_config) (\<lambda>input_buffer.
           Done \<lparr>s_config = config, s_world = world, s_sessions = [], s_next_session_id = 1,
                 s_next_player_id = 0, s_player_sessions = [], s_session_players = [],
                 s_input_buffer = input_buffer, s_last_known_intent = [],
                 s_last_emitted_floor = [],
                 s_replay_recorder = ReplayRecorder_new replay_config,
                 s_entity_spawn_order = [], s_player_entity_mapping = [],
                 s_baseline_recorded = False, s_build_fingerprint = None\<rparr>)))"

definition server_set_build_fingerprint :: "BuildFingerprintData \<Rightarrow> Server \<Rightarrow> Server" where
  "server_set_build_fingerprint fingerprint s =
     s\<lparr>s_build_fingerprint := Some fingerprint,
       s_replay_recorder := recorder_set_build_fingerprint fingerprint (s_replay_recorder s)\<rparr>"

definition current_tick :: "Server \<Rightarrow> Tick" where
  "current_tick s = w_tick (s_world s)"

definition session_count :: "Server \<Rightarrow> nat" where
  "session_count s = hm_len (s_sessions s)"

definition session_ids :: "Server \<Rightarrow> SessionId list" where
  "session_ids s = hm_keys (s_sessions s)"

definition should_end_match :: "Server \<Rightarrow> EndReason option" where
  "should_end_match s =
     (if sc_match_duration_ticks (s_config s) \<le> w_tick (s_world s) then Some Complete else None)"

definition baseline_proto :: "Server \<Rightarrow> JoinBaseline" where
  "baseline_proto s = JoinBaseline_from (baseline (s_world s))"

definition server_finalize :: "Server \<Rightarrow> EndReason \<Rightarrow> ReplayArtifact" where
  "server_finalize s end_reason =
     recorder_finalize (s_replay_recorder s) (state_digest (s_world s)) (w_tick (s_world s))
       (end_reason_as_str end_reason)"

section \<open>Sessions\<close>

definition assign_player_id :: "ServerConfig \<Rightarrow> PlayerId \<Rightarrow> PlayerId outcome" where
  "assign_player_id config ordinal =
     (case sc_test_player_ids config of
        Some test_ids \<Rightarrow>
          if unat ordinal < length test_ids then Done (test_ids ! unat ordinal)
          else Panic TestPlayerIdsExhausted
      | None \<Rightarrow> Done ordinal)"

definition accept_session ::
  "profile \<Rightarrow> Server \<Rightarrow> (Server \<times> SessionId \<times> PlayerId \<times> EntityId) outcome" where
  "accept_session p s =
     (if \<not> hm_len (s_sessions s) < sc_max_sessions (s_config s) then Panic MaxSessionsExceeded
      else let session_id = s_next_session_id s in
        obind (checked_plus p (s_next_session_id s) 1) (\<lambda>next_session_id.
        let ordinal = s_next_player_id s in
        obind (checked_plus p (s_next_player_id s) 1) (\<lambda>next_player_id.
        obind (assign_player_id (s_config s) ordinal) (\<lambda>player_id.
        obind (spawn_character p (s_world s) player_id) (\<lambda>(world, entity_id).
          Done (s\<lparr>s_next_session_id := next_session_id,
                  s_next_player_id := next_player_id,
                  s_world := world,
                  s_sessions := hm_insert session_id (Session_new session_id player_id entity_id) (s_sessions s),
                  s_player_sessions := hm_insert player_id session_id (s_player_sessions s),
                  s_session_players := hm_insert session_id player_id (s_session_players s),
                  s_entity_spawn_order := s_entity_spawn_order s @ [player_id],
                  s_player_entity_mapping := hm_insert player_id entity_id (s_player_entity_mapping s),
                  s_replay_recorder := record_spawn player_id entity_id (s_replay_recorder s),
                  s_last_known_intent := hm_insert player_id (f64_zero, f64_zero) (s_last_known_intent s)\<rparr>,
                session_id, player_id, entity_id))))))"

definition welcome_for :: "profile \<Rightarrow> Server \<Rightarrow> SessionId \<Rightarrow> (Server \<times> ServerWelcome) outcome" where
  "welcome_for p s session_id =
     (case hm_get (s_sessions s) session_id of
        None \<Rightarrow> Panic UnknownSession
      | Some session \<Rightarrow>
          obind (checked_plus p (w_tick (s_world s)) (sc_input_lead_ticks (s_config s)))
            (\<lambda>target_tick_floor.
               Done (s\<lparr>s_last_emitted_floor :=
                         hm_insert session_id target_tick_floor (s_last_emitted_floor s)\<rparr>,
                     \<lparr>sw_target_tick_floor = target_tick_floor,
                      sw_tick_rate_hz = sc_tick_rate_hz (s_config s),
                      sw_player_id = ucast (ses_player_id session),
                      sw_controlled_entity_id = ses_controlled_entity_id session\<rparr>)))"

definition disconnect_session :: "Server \<Rightarrow> SessionId \<Rightarrow> Server" where
  "disconnect_session s session_id =
     (case hm_get (s_sessions s) session_id of
        None \<Rightarrow> s
      | Some session \<Rightarrow>
          s\<lparr>s_sessions := hm_remove session_id (s_sessions s),
            s_player_sessions := hm_remove (ses_player_id session) (s_player_sessions s),
            s_session_players := hm_remove session_id (s_session_players s),
            s_last_emitted_floor := hm_remove session_id (s_last_emitted_floor s),
            s_last_known_intent :=
              hm_insert (ses_player_id session) (f64_zero, f64_zero) (s_last_known_intent s)\<rparr>)"

definition receive_input ::
  "profile \<Rightarrow> Server \<Rightarrow> SessionId \<Rightarrow> InputCmdProto \<Rightarrow> (Server \<times> ValidationResult) outcome" where
  "receive_input p s session_id input =
     (case hm_get (s_session_players s) session_id of
        None \<Rightarrow> Done (s, DroppedUnknownSession)
      | Some player_id \<Rightarrow>
          let flr = (case hm_get (s_last_emitted_floor s) session_id of None \<Rightarrow> 0 | Some f \<Rightarrow> f)
          in obind (validate_input p input (w_tick (s_world s)) flr (s_input_buffer s) player_id)
               (\<lambda>(result, buffer). Done (s\<lparr>s_input_buffer := buffer\<rparr>, result)))"

section \<open>step\<close>

text \<open>The input a player's tick is played with: the buffered one, or the last known intent.\<close>

definition normalize_dir :: "InputCmdProto \<Rightarrow> vec2" where
  "normalize_dir cmd' =
     (if length (ic_move_dir cmd') = 2 then (ic_move_dir cmd' ! 0, ic_move_dir cmd' ! 1)
      else (f64_zero, f64_zero))"

definition choose_input ::
  "InputCmdProto option \<Rightarrow> (PlayerId, vec2) hashmap \<Rightarrow> PlayerId \<Rightarrow> vec2 \<times> bool" where
  "choose_input taken lki player_id =
     (case taken of
        Some cmd' \<Rightarrow> (normalize_dir cmd', False)
      | None \<Rightarrow>
          (case hm_get lki player_id of None \<Rightarrow> (f64_zero, f64_zero) | Some d \<Rightarrow> d, True))"

fun collect_applied ::
  "Tick \<Rightarrow> PlayerId list \<Rightarrow> InputBuffer \<Rightarrow> (PlayerId, vec2) hashmap \<Rightarrow>
     AppliedInput list \<times> InputBuffer \<times> (PlayerId, vec2) hashmap" where
  "collect_applied tick [] buffer lki = ([], buffer, lki)"
| "collect_applied tick (player_id # rest) buffer lki =
     (let (taken, buffer) = take_input buffer player_id tick;
          (move_dir, is_fallback) = choose_input taken lki player_id;
          lki = hm_insert player_id move_dir lki;
          applied = \<lparr>ai_tick = tick, ai_player_id = player_id, ai_move_dir = move_dir,
                     ai_is_fallback = is_fallback\<rparr>;
          (more, buffer, lki) = collect_applied tick rest buffer lki
      in (applied # more, buffer, lki))"

definition record_first_baseline :: "Server \<Rightarrow> Server" where
  "record_first_baseline s =
     (if s_baseline_recorded s then s
      else s\<lparr>s_baseline_recorded := True,
             s_replay_recorder := record_baseline (baseline (s_world s)) (s_replay_recorder s)\<rparr>)"

definition snapshot_proto :: "Snapshot \<Rightarrow> Tick \<Rightarrow> SnapshotProto" where
  "snapshot_proto snapshot target_tick_floor =
     \<lparr>sp_tick = sn_tick snapshot,
      sp_entities = map (\<lambda>e. \<lparr>ep_entity_id = es_entity_id e, ep_position = to_vec (es_position e),
                              ep_velocity = to_vec (es_velocity e)\<rparr>) (sn_entities snapshot),
      sp_digest = sn_digest snapshot, sp_target_tick_floor = target_tick_floor\<rparr>"

definition step ::
  "profile \<Rightarrow> (SnapshotProto \<Rightarrow> bytes) \<Rightarrow> Server \<Rightarrow> (Server \<times> Snapshot \<times> Tick \<times> bytes) outcome" where
  "step p enc s0 =
     (let s = record_first_baseline s0;
          tick = w_tick (s_world s);
          (applied_inputs, buffer, lki) =
            collect_applied tick (s_entity_spawn_order s) (s_input_buffer s) (s_last_known_intent s);
          recorder = fold record_input applied_inputs (s_replay_recorder s);
          step_inputs = sort_key si_player_id (map to_step_input applied_inputs)
      in obind (advance p (s_world s) tick step_inputs) (\<lambda>(world, snapshot).
         obind (checked_plus p (w_tick world) (sc_input_lead_ticks (s_config s)))
           (\<lambda>target_tick_floor.
              Done (s\<lparr>s_input_buffer := evict_before buffer (w_tick world),
                      s_last_known_intent := lki,
                      s_replay_recorder := recorder,
                      s_world := world,
                      s_last_emitted_floor :=
                        fold (\<lambda>sid. hm_insert sid target_tick_floor) (hm_keys (s_sessions s))
                          (s_last_emitted_floor s)\<rparr>,
                    snapshot, target_tick_floor, enc (snapshot_proto snapshot target_tick_floor)))))"

section \<open>Events\<close>

text \<open>
  What happens to a server between its creation and the end of the match, in the grain in which
  the tick loop calls it: a session is accepted and welcomed together, and \<^verbatim>\<open>step\<close> is called only
  while \<^verbatim>\<open>should_end_match\<close> says no.
\<close>

datatype event =
    EvJoin
  | EvInput SessionId InputCmdProto
  | EvLeave SessionId
  | EvStep
  | EvFingerprint BuildFingerprintData

definition join :: "profile \<Rightarrow> Server \<Rightarrow> (Server \<times> ServerWelcome) outcome" where
  "join p s = obind (accept_session p s) (\<lambda>(s, sid, _). welcome_for p s sid)"

fun serve :: "profile \<Rightarrow> (SnapshotProto \<Rightarrow> bytes) \<Rightarrow> Server \<Rightarrow> event \<Rightarrow> Server outcome" where
  "serve p enc s EvJoin = obind (join p s) (\<lambda>(s', _). Done s')"
| "serve p enc s (EvInput sid i) = obind (receive_input p s sid i) (\<lambda>(s', _). Done s')"
| "serve p enc s (EvLeave sid) = Done (disconnect_session s sid)"
| "serve p enc s EvStep =
     (if should_end_match s = None then obind (step p enc s) (\<lambda>(s', _). Done s') else Done s)"
| "serve p enc s (EvFingerprint f) = Done (server_set_build_fingerprint f s)"

end
