(* ===== verification/ServerInv.thy ===== *)
theory ServerInv
  imports Server
begin

text \<open>
  The invariant of the server state machine, one definition per concern, with a preservation lemma
  for every method, and the interpretation of the transition-system contract that carries it to
  every reachable state.
\<close>

section \<open>The tick's inputs, player by player\<close>

definition applied_of ::
  "Tick \<Rightarrow> InputBuffer \<Rightarrow> (PlayerId, vec2) hashmap \<Rightarrow> PlayerId \<Rightarrow> AppliedInput" where
  "applied_of tick buffer lki q =
     (let (d, fb) = choose_input (fst (take_input buffer q tick)) lki q
      in \<lparr>ai_tick = tick, ai_player_id = q, ai_move_dir = d, ai_is_fallback = fb\<rparr>)"

lemma applied_of_simps [simp]:
  "ai_tick (applied_of t b l q) = t" "ai_player_id (applied_of t b l q) = q"
  by (simp_all add: applied_of_def split_beta)

lemma collect_applied_eq:
  "distinct ps \<Longrightarrow>
     collect_applied t ps b l =
       (map (applied_of t b l) ps, fold (\<lambda>q b. snd (take_input b q t)) ps b,
        fold (\<lambda>q. hm_insert q (ai_move_dir (applied_of t b l q))) ps l)"
proof (induction ps arbitrary: b l)
  case Nil
  then show ?case by simp
next
  case (Cons q ps)
  let ?b = "snd (take_input b q t)" and ?l = "hm_insert q (ai_move_dir (applied_of t b l q)) l"
  have same: "applied_of t ?b ?l r = applied_of t b l r" if "r \<in> set ps" for r
  proof -
    have "r \<noteq> q" using that Cons.prems by auto
    then have "hm_get ?l r = hm_get l r" "fst (take_input ?b r t) = fst (take_input b r t)"
      by (simp_all add: take_input_slot slots.slot_take)
    then show ?thesis by (simp only: applied_of_def choose_input_def)
  qed
  have "fold (\<lambda>r. hm_insert r (ai_move_dir (applied_of t ?b ?l r))) ps ?l =
        fold (\<lambda>r. hm_insert r (ai_move_dir (applied_of t b l r))) ps ?l"
    by (rule fold_cong) (simp_all add: same)
  moreover have "map (applied_of t ?b ?l) ps = map (applied_of t b l) ps" using same by simp
  moreover have "choose_input (fst (take_input b q t)) l q =
      (ai_move_dir (applied_of t b l q), ai_is_fallback (applied_of t b l q))"
    by (simp add: applied_of_def split_beta)
  moreover have "\<lparr>ai_tick = t, ai_player_id = q, ai_move_dir = ai_move_dir (applied_of t b l q),
      ai_is_fallback = ai_is_fallback (applied_of t b l q)\<rparr> = applied_of t b l q"
    by (simp add: applied_of_def split_beta)
  ultimately show ?case using Cons by (simp add: Let_def split_beta)
qed

lemma fold_record_input: "fold record_input as r = r\<lparr>rr_inputs := rr_inputs r @ as\<rparr>"
  by (induction as arbitrary: r) (simp_all add: record_input_def)

text \<open>What \<open>step\<close> leaves behind when it returns.\<close>

definition step_applied :: "Server \<Rightarrow> AppliedInput list" where
  "step_applied s =
     map (applied_of (w_tick (s_world s)) (s_input_buffer s) (s_last_known_intent s)) (s_entity_spawn_order s)"

definition step_inputs_of :: "AppliedInput list \<Rightarrow> StepInput list" where
  "step_inputs_of as = sort_key si_player_id (map to_step_input as)"

lemma step_Done:
  assumes "distinct (s_entity_spawn_order s)" and "step p enc s = Done (s', snap, fl, bs)"
  shows "s_world s' = step_world (step_inputs_of (step_applied s)) (s_world s)"
    and "w_tick (s_world s') = w_tick (s_world s) + 1"
    and "fl = w_tick (s_world s') + sc_input_lead_ticks (s_config s)"
    and "snap = \<lparr>sn_tick = w_tick (s_world s'), sn_entities = sorted_entity_snapshots (s_world s'),
           sn_digest = state_digest (s_world s')\<rparr>"
    and "bs = enc (snapshot_proto snap fl)"
    and "s_config s' = s_config s" "s_sessions s' = s_sessions s"
    and "s_next_session_id s' = s_next_session_id s" "s_next_player_id s' = s_next_player_id s"
    and "s_player_sessions s' = s_player_sessions s" "s_session_players s' = s_session_players s"
    and "s_entity_spawn_order s' = s_entity_spawn_order s"
    and "s_player_entity_mapping s' = s_player_entity_mapping s"
    and "s_input_buffer s' =
           evict_before (fold (\<lambda>q b. snd (take_input b q (w_tick (s_world s)))) (s_entity_spawn_order s)
             (s_input_buffer s)) (w_tick (s_world s'))"
    and "s_last_known_intent s' =
           fold (\<lambda>q. hm_insert q (ai_move_dir (applied_of (w_tick (s_world s)) (s_input_buffer s)
             (s_last_known_intent s) q))) (s_entity_spawn_order s) (s_last_known_intent s)"
    and "s_last_emitted_floor s' =
           fold (\<lambda>sid. hm_insert sid fl) (hm_keys (s_sessions s)) (s_last_emitted_floor s)"
    and "s_baseline_recorded s'"
    and "s_replay_recorder s' = (s_replay_recorder s)\<lparr>
           rr_initial_baseline := (if s_baseline_recorded s then rr_initial_baseline (s_replay_recorder s)
                                   else Some (baseline (s_world s))),
           rr_inputs := rr_inputs (s_replay_recorder s) @ step_applied s\<rparr>"
    and "s_build_fingerprint s' = s_build_fingerprint s"
  using assms(2) unfolding step_def
  by (auto simp: Let_def collect_applied_eq assms(1) record_first_baseline_def outcome_simps
      fold_record_input record_baseline_def advance_Done_iff step_world_def step_inputs_of_def
      step_applied_def split: if_splits)

section \<open>The invariant\<close>

definition config_ok :: "ServerConfig \<Rightarrow> bool" where
  "config_ok c \<longleftrightarrow>
     unat (sc_match_duration_ticks c) + unat (sc_input_lead_ticks c) + unat (sc_max_future_ticks c) < 2 ^ 64 \<and>
     (case sc_test_player_ids c of None \<Rightarrow> True | Some ids \<Rightarrow> distinct ids)"

definition expected_players :: "ServerConfig \<Rightarrow> nat \<Rightarrow> PlayerId list" where
  "expected_players c n =
     (case sc_test_player_ids c of None \<Rightarrow> map of_nat [0..<n] | Some ids \<Rightarrow> take n ids)"

definition players_inv :: "ServerConfig \<Rightarrow> Server \<Rightarrow> bool" where
  "players_inv c s \<longleftrightarrow>
     length (s_entity_spawn_order s) \<le> 255 \<and>
     s_entity_spawn_order s = expected_players c (length (s_entity_spawn_order s)) \<and>
     s_next_player_id s = of_nat (length (s_entity_spawn_order s)) \<and>
     s_next_session_id s = of_nat (Suc (length (s_entity_spawn_order s))) \<and>
     world_wf (s_world s) \<and> w_players (s_world s) = s_entity_spawn_order s \<and>
     w_tick_rate_hz (s_world s) = sc_tick_rate_hz c \<and> w_seed (s_world s) = sc_seed c \<and>
     w_tick (s_world s) \<le> sc_match_duration_ticks c"

definition sessions_inv :: "Server \<Rightarrow> bool" where
  "sessions_inv s \<longleftrightarrow>
     hm_wf (s_sessions s) \<and>
     (\<forall>sid ses. hm_get (s_sessions s) sid = Some ses \<longrightarrow>
        ses_id ses = sid \<and> sid < s_next_session_id s \<and>
        ses_player_id ses \<in> set (s_entity_spawn_order s) \<and>
        hm_get (s_player_sessions s) (ses_player_id ses) = Some sid) \<and>
     (\<forall>sid. hm_get (s_session_players s) sid = map_option ses_player_id (hm_get (s_sessions s) sid)) \<and>
     (\<forall>q sid. hm_get (s_player_sessions s) q = Some sid \<longrightarrow>
        (\<exists>ses. hm_get (s_sessions s) sid = Some ses \<and> ses_player_id ses = q))"

definition floors_inv :: "ServerConfig \<Rightarrow> Server \<Rightarrow> bool" where
  "floors_inv c s \<longleftrightarrow>
     (\<forall>sid. hm_get (s_last_emitted_floor s) sid =
        (if hm_has (s_sessions s) sid then Some (w_tick (s_world s) + sc_input_lead_ticks c) else None))"

definition buffer_inv :: "ServerConfig \<Rightarrow> Server \<Rightarrow> bool" where
  "buffer_inv c s \<longleftrightarrow>
     buffer_wf (s_input_buffer s) \<and> buffer_unit (s_input_buffer s) \<and>
     vc_max_future_ticks (ib_config (s_input_buffer s)) = sc_max_future_ticks c \<and>
     (\<forall>q t. slot (s_input_buffer s) q t \<noteq> None \<longrightarrow>
        q \<in> set (s_entity_spawn_order s) \<and> w_tick (s_world s) \<le> t \<and>
        t \<le> w_tick (s_world s) + sc_max_future_ticks c)"

definition unit_vec2 :: "vec2 \<Rightarrow> bool" where
  "unit_vec2 d \<longleftrightarrow> f64_mag (fst d) \<le> f64_mag f64_one \<and> f64_mag (snd d) \<le> f64_mag f64_one"

definition intents_inv :: "Server \<Rightarrow> bool" where
  "intents_inv s \<longleftrightarrow>
     (\<forall>q. hm_has (s_last_known_intent s) q \<longleftrightarrow> q \<in> set (s_entity_spawn_order s)) \<and>
     (\<forall>q d. hm_get (s_last_known_intent s) q = Some d \<longrightarrow> unit_vec2 d)"

definition recorder_inv :: "ServerConfig \<Rightarrow> Server \<Rightarrow> bool" where
  "recorder_inv c s \<longleftrightarrow>
     rr_entity_spawn_order (s_replay_recorder s) = s_entity_spawn_order s \<and>
     rr_player_entity_mapping (s_replay_recorder s) = number_from 1 (s_entity_spawn_order s) \<and>
     rc_seed (rr_config (s_replay_recorder s)) = sc_seed c \<and>
     rc_tick_rate_hz (rr_config (s_replay_recorder s)) = sc_tick_rate_hz c \<and>
     rr_build_fingerprint (s_replay_recorder s) = s_build_fingerprint s \<and>
     (if s_baseline_recorded s
      then \<exists>b. rr_initial_baseline (s_replay_recorder s) = Some b \<and> bl_tick b = 0
      else w_tick (s_world s) = 0 \<and> rr_inputs (s_replay_recorder s) = [] \<and>
        rr_initial_baseline (s_replay_recorder s) = None) \<and>
     (\<forall>a \<in> set (rr_inputs (s_replay_recorder s)).
        ai_tick a < w_tick (s_world s) \<and> ai_player_id a \<in> set (s_entity_spawn_order s) \<and>
        unit_vec2 (ai_move_dir a))"

definition server_core :: "ServerConfig \<Rightarrow> Server \<Rightarrow> bool" where
  "server_core c s \<longleftrightarrow> players_inv c s \<and> sessions_inv s \<and> floors_inv c s \<and> buffer_inv c s \<and>
     intents_inv s \<and> recorder_inv c s"

text \<open>
  In the release profile the 257th join would reuse player id 0, so the invariant is claimed for
  up to 255 joins; in the dev profile the 256th join panics and the bound is always met.
\<close>

definition server_inv :: "profile \<Rightarrow> ServerConfig \<Rightarrow> Server \<Rightarrow> bool" where
  "server_inv p c s \<longleftrightarrow>
     s_config s = c \<and> (p = Dev \<or> length (s_entity_spawn_order s) \<le> 255 \<longrightarrow> server_core c s)"

definition server_start :: "ServerConfig \<Rightarrow> Server \<Rightarrow> bool" where
  "server_start c s \<longleftrightarrow> config_ok c \<and> Server_new c = Done s"

lemmas core_defs =
  server_core_def players_inv_def sessions_inv_def floors_inv_def buffer_inv_def intents_inv_def
  recorder_inv_def

section \<open>Consequences\<close>

lemma distinct_expected:
  assumes "config_ok c" and "n \<le> 256"
  shows "distinct (expected_players c n)"
  using assms distinct_of_nat_upt[where 'a = 8, of n 0]
  by (auto simp: expected_players_def config_ok_def split: option.splits)

lemma core_distinct:
  assumes "config_ok c" and "players_inv c s"
  shows "distinct (s_entity_spawn_order s)"
proof -
  have "length (s_entity_spawn_order s) \<le> 256" using assms(2) by (simp add: players_inv_def)
  from distinct_expected[OF assms(1) this] show ?thesis using assms(2) by (simp add: players_inv_def)
qed

lemma core_no_wrap:
  assumes "config_ok c" and "w \<le> sc_match_duration_ticks c"
  shows "unat w + unat (sc_input_lead_ticks c) + unat (sc_max_future_ticks c) < 2 ^ 64"
  using assms by (simp add: config_ok_def word_le_nat_alt)

lemma session_player_iff:
  assumes "sessions_inv s"
  shows "hm_get (s_session_players s) sid = Some q \<longleftrightarrow> hm_get (s_player_sessions s) q = Some sid"
proof
  assume "hm_get (s_session_players s) sid = Some q"
  then show "hm_get (s_player_sessions s) q = Some sid" using assms by (auto simp: sessions_inv_def)
next
  assume "hm_get (s_player_sessions s) q = Some sid"
  then obtain ses where "hm_get (s_sessions s) sid = Some ses" "ses_player_id ses = q"
    using assms unfolding sessions_inv_def by blast
  then show "hm_get (s_session_players s) sid = Some q" using assms by (simp add: sessions_inv_def)
qed

section \<open>Start\<close>

lemma server_start_core:
  assumes "server_start c s"
  shows "s_config s = c" "server_core c s"
proof -
  from assms obtain w b where w: "World_new (sc_seed c) (sc_tick_rate_hz c) = Done w"
    and b: "InputBuffer_new \<lparr>vc_max_future_ticks = sc_max_future_ticks c,
             vc_input_rate_limit_per_sec = sc_input_rate_limit_per_sec c,
             vc_tick_rate_hz = sc_tick_rate_hz c\<rparr> = Done b"
    and s: "s = \<lparr>s_config = c, s_world = w, s_sessions = [], s_next_session_id = 1,
                 s_next_player_id = 0, s_player_sessions = [], s_session_players = [],
                 s_input_buffer = b, s_last_known_intent = [],
                 s_last_emitted_floor = [],
                 s_replay_recorder = ReplayRecorder_new \<lparr>rc_seed = sc_seed c, rc_tick_rate_hz = sc_tick_rate_hz c,
                   rc_rng_algorithm = ''none'', rc_test_mode = sc_test_mode c,
                   rc_test_player_ids = (case sc_test_player_ids c of None \<Rightarrow> [] | Some ids \<Rightarrow> ids)\<rparr>,
                 s_entity_spawn_order = [], s_player_entity_mapping = [],
                 s_baseline_recorded = False, s_build_fingerprint = None\<rparr>"
    by (auto simp: server_start_def Server_new_def Let_def obind_Done_iff)
  have slots: "slot b q t = None" "buffer_wf b" "vc_max_future_ticks (ib_config b) = sc_max_future_ticks c" for q t
    using b by (auto simp: InputBuffer_new_def obind_Done_iff slot_def buffer_wf_def)
  show "s_config s = c" by (simp add: s)
  show "server_core c s"
    using World_new_Done[OF w] slots
    by (simp add: s core_defs expected_players_def buffer_unit_def ReplayRecorder_new_def
        number_from_def split: option.split)
qed

section \<open>Joining\<close>

definition joined :: "Server \<Rightarrow> PlayerId \<Rightarrow> World \<Rightarrow> EntityId \<Rightarrow> Server" where
  "joined s pid w eid =
     s\<lparr>s_next_session_id := s_next_session_id s + 1, s_next_player_id := s_next_player_id s + 1,
       s_world := w,
       s_sessions := hm_insert (s_next_session_id s) (Session_new (s_next_session_id s) pid eid) (s_sessions s),
       s_player_sessions := hm_insert pid (s_next_session_id s) (s_player_sessions s),
       s_session_players := hm_insert (s_next_session_id s) pid (s_session_players s),
       s_entity_spawn_order := s_entity_spawn_order s @ [pid],
       s_player_entity_mapping := hm_insert pid eid (s_player_entity_mapping s),
       s_replay_recorder := record_spawn pid eid (s_replay_recorder s),
       s_last_known_intent := hm_insert pid (f64_zero, f64_zero) (s_last_known_intent s),
       s_last_emitted_floor :=
         hm_insert (s_next_session_id s) (w_tick w + sc_input_lead_ticks (s_config s)) (s_last_emitted_floor s)\<rparr>"

lemma join_Done:
  assumes "join p s = Done (s', wel)"
  obtains pid w eid where "s' = joined s pid w eid" "spawn_character p (s_world s) pid = Done (w, eid)"
    "assign_player_id (s_config s) (s_next_player_id s) = Done pid"
    "p = Dev \<longrightarrow> unat (s_next_player_id s) + 1 < 256"
    "wel = \<lparr>sw_target_tick_floor = w_tick w + sc_input_lead_ticks (s_config s),
            sw_tick_rate_hz = sc_tick_rate_hz (s_config s), sw_player_id = ucast pid,
            sw_controlled_entity_id = eid\<rparr>"
  using assms that
  by (auto simp: join_def accept_session_def welcome_for_def Let_def outcome_simps joined_def
      Session_new_def split: if_splits)

lemma expected_players_Suc:
  assumes "assign_player_id c (of_nat n) = Done pid" and "n < 256"
  shows "expected_players c (Suc n) = expected_players c n @ [pid]"
proof -
  have "unat (of_nat n :: PlayerId) = n" using assms(2) by (simp add: unat_of_nat_small)
  then show ?thesis
    using assms(1)
    by (auto simp: expected_players_def assign_player_id_def take_Suc_conv_app_nth
        split: option.splits if_splits)
qed

lemma length_expected_players:
  "config_ok c \<Longrightarrow> s_entity_spawn_order s = expected_players c (length (s_entity_spawn_order s)) \<Longrightarrow>
     length (expected_players c (length (s_entity_spawn_order s))) = length (s_entity_spawn_order s)"
  by simp

text \<open>A join assigns a player id and a session id that nobody has had before.\<close>

lemma join_fresh:
  assumes c: "config_ok c" "s_config s = c" and inv: "players_inv c s"
    and room: "length (s_entity_spawn_order s) < 255"
    and pid: "assign_player_id c (s_next_player_id s) = Done pid"
  shows "s_entity_spawn_order s @ [pid] = expected_players c (Suc (length (s_entity_spawn_order s)))"
    and "pid \<notin> set (s_entity_spawn_order s)"
proof -
  let ?n = "length (s_entity_spawn_order s)"
  have "s_next_player_id s = of_nat ?n" and ps: "s_entity_spawn_order s = expected_players c ?n"
    using inv by (simp_all add: players_inv_def)
  then show eq: "s_entity_spawn_order s @ [pid] = expected_players c (Suc ?n)"
    using expected_players_Suc[of c ?n pid] pid room by simp
  have "distinct (expected_players c (Suc ?n))" using distinct_expected[OF c(1)] room by simp
  then show "pid \<notin> set (s_entity_spawn_order s)" unfolding eq[symmetric] by simp
qed

lemma players_inv_joined:
  assumes c: "config_ok c" "s_config s = c" and inv: "players_inv c s"
    and room: "length (s_entity_spawn_order s) < 255"
    and pid: "assign_player_id c (s_next_player_id s) = Done pid"
    and sp: "spawn_character p (s_world s) pid = Done (w, eid)"
  shows "players_inv c (joined s pid w eid)" "w_tick w = w_tick (s_world s)"
    "eid = of_nat (Suc (length (s_entity_spawn_order s)))"
    "number_from 1 (s_entity_spawn_order s @ [pid]) = number_from 1 (s_entity_spawn_order s) @ [(pid, eid)]"
proof -
  let ?n = "length (s_entity_spawn_order s)"
  have wf: "world_wf (s_world s)" and pl: "w_players (s_world s) = s_entity_spawn_order s"
    using inv by (simp_all add: players_inv_def)
  have n: "length (w_characters (s_world s)) = ?n" using pl by (metis length_map)
  have fits: "length (w_characters (s_world s)) + 2 < 2 ^ 64" using n room by simp
  note after = spawn_character_wf[OF wf fits sp]
  show "w_tick w = w_tick (s_world s)" by (rule after(4))
  show eid: "eid = of_nat (Suc ?n)" using after(2) n by simp
  show "number_from 1 (s_entity_spawn_order s @ [pid]) = number_from 1 (s_entity_spawn_order s) @ [(pid, eid)]"
    by (simp add: number_from_snoc eid)
  have "w_tick_rate_hz w = w_tick_rate_hz (s_world s) \<and> w_seed w = w_seed (s_world s)"
    using sp spawn_character_eq[OF wf fits, of p pid] by auto
  moreover have "s_next_player_id s = of_nat ?n" "s_next_session_id s = of_nat (Suc ?n)"
    "w_tick_rate_hz (s_world s) = sc_tick_rate_hz c" "w_seed (s_world s) = sc_seed c"
    "w_tick (s_world s) \<le> sc_match_duration_ticks c"
    using inv by (simp_all add: players_inv_def)
  moreover have "w_players w = s_entity_spawn_order s @ [pid]" using after(3) by (simp only: pl)
  ultimately show "players_inv c (joined s pid w eid)"
    using after(1,4) join_fresh(1)[OF c inv room pid, symmetric] room
    by (simp add: players_inv_def joined_def)
qed

lemma sessions_inv_joined:
  assumes inv: "sessions_inv s" and fresh: "pid \<notin> set (s_entity_spawn_order s)"
    and next_id: "unat (s_next_session_id s) + 1 < 2 ^ 64"
  shows "sessions_inv (joined s pid w eid)"
proof -
  have lt: "s_next_session_id s < s_next_session_id s + 1"
    using next_id by (simp add: word_less_nat_alt unat_plus_fits)
  have new: "hm_get (s_sessions s) (s_next_session_id s) = None"
    using inv by (cases "hm_get (s_sessions s) (s_next_session_id s)") (auto simp: sessions_inv_def)
  have unused: "hm_get (s_player_sessions s) q \<noteq> Some (s_next_session_id s)" for q
  proof
    assume "hm_get (s_player_sessions s) q = Some (s_next_session_id s)"
    then obtain ses where "hm_get (s_sessions s) (s_next_session_id s) = Some ses"
      using inv unfolding sessions_inv_def by blast
    with new show False by simp
  qed
  have old: "ses_player_id ses \<noteq> pid \<and> sid < s_next_session_id s + 1"
    if "hm_get (s_sessions s) sid = Some ses" for sid ses
    using inv that fresh lt by (fastforce simp: sessions_inv_def)
  show ?thesis
    using inv new old lt fresh unused
    unfolding sessions_inv_def joined_def by (auto simp: Session_new_def)
qed

lemma core_joined:
  assumes c: "config_ok c" "s_config s = c" and core: "server_core c s"
    and room: "length (s_entity_spawn_order s) < 255"
    and pid: "assign_player_id c (s_next_player_id s) = Done pid"
    and sp: "spawn_character p (s_world s) pid = Done (w, eid)"
  shows "server_core c (joined s pid w eid)"
proof -
  have inv: "players_inv c s" "sessions_inv s" "floors_inv c s" "buffer_inv c s" "intents_inv s" "recorder_inv c s"
    using core by (simp_all add: server_core_def)
  note fresh = join_fresh(2)[OF c inv(1) room pid]
  note pj = players_inv_joined[OF c inv(1) room pid sp]
  have "s_next_session_id s = of_nat (Suc (length (s_entity_spawn_order s)))"
    using inv(1) by (simp add: players_inv_def)
  then have next_id: "unat (s_next_session_id s) + 1 < 2 ^ 64"
    using room by (simp add: unat_of_nat_small del: of_nat_Suc)
  have "floors_inv c (joined s pid w eid)"
    using inv(3) c(2) pj(2) by (auto simp: floors_inv_def joined_def)
  moreover have "buffer_inv c (joined s pid w eid)"
    using inv(4) pj(2) by (auto simp: buffer_inv_def joined_def)
  moreover have "intents_inv (joined s pid w eid)"
    using inv(5) by (auto simp: intents_inv_def joined_def unit_vec2_def)
  moreover have "recorder_inv c (joined s pid w eid)"
    using inv(6) pj(2,4) by (auto simp: recorder_inv_def joined_def record_spawn_def)
  ultimately show ?thesis
    using pj(1) sessions_inv_joined[OF inv(2) fresh next_id] by (simp add: server_core_def)
qed

section \<open>Leaving, input, fingerprint\<close>

lemma core_disconnect:
  assumes core: "server_core c s"
  shows "server_core c (disconnect_session s sid)"
proof (cases "hm_get (s_sessions s) sid")
  case None
  with core show ?thesis by (simp add: disconnect_session_def)
next
  case (Some ses)
  let ?s = "disconnect_session s sid"
  have inv: "players_inv c s" "sessions_inv s" "floors_inv c s" "buffer_inv c s" "intents_inv s" "recorder_inv c s"
    using core by (simp_all add: server_core_def)
  have eq: "?s = s\<lparr>s_sessions := hm_remove sid (s_sessions s),
            s_player_sessions := hm_remove (ses_player_id ses) (s_player_sessions s),
            s_session_players := hm_remove sid (s_session_players s),
            s_last_emitted_floor := hm_remove sid (s_last_emitted_floor s),
            s_last_known_intent := hm_insert (ses_player_id ses) (f64_zero, f64_zero) (s_last_known_intent s)\<rparr>"
    using Some by (simp add: disconnect_session_def)
  have mine: "hm_get (s_player_sessions s) (ses_player_id ses) = Some sid"
    "ses_player_id ses \<in> set (s_entity_spawn_order s)"
    using inv(2) Some by (auto simp: sessions_inv_def)
  have other: "ses_player_id x \<noteq> ses_player_id ses" if "hm_get (s_sessions s) k = Some x" "k \<noteq> sid" for k x
  proof -
    have "hm_get (s_player_sessions s) (ses_player_id x) = Some k"
      using inv(2) that(1) by (simp add: sessions_inv_def)
    with mine(1) that(2) show ?thesis by auto
  qed
  have owner: "q = ses_player_id ses" if q: "hm_get (s_player_sessions s) q = Some sid" for q
  proof -
    from q inv(2) obtain x where "hm_get (s_sessions s) sid = Some x" "ses_player_id x = q"
      unfolding sessions_inv_def by blast
    with Some show ?thesis by simp
  qed
  have "sessions_inv ?s"
    using inv(2) Some other owner unfolding eq sessions_inv_def by auto
  moreover have "floors_inv c ?s" using inv(3) by (auto simp: eq floors_inv_def)
  moreover have "players_inv c ?s" "buffer_inv c ?s" "recorder_inv c ?s"
    using inv(1,4,6) by (simp_all add: eq players_inv_def buffer_inv_def recorder_inv_def)
  moreover have "intents_inv ?s" using inv(5) mine(2) by (auto simp: eq intents_inv_def unit_vec2_def)
  ultimately show ?thesis by (simp add: server_core_def)
qed

lemma receive_input_Done:
  assumes "receive_input p s sid i = Done (s', r)"
  obtains "s' = s" "r = DroppedUnknownSession" "hm_get (s_session_players s) sid = None"
  | q b where "hm_get (s_session_players s) sid = Some q" "s' = s\<lparr>s_input_buffer := b\<rparr>"
      "validate_input p i (w_tick (s_world s))
         (case hm_get (s_last_emitted_floor s) sid of None \<Rightarrow> 0 | Some f \<Rightarrow> f) (s_input_buffer s) q = Done (r, b)"
  using assms that by (auto simp: receive_input_def Let_def outcome_simps split: option.splits)

lemma core_receive_input:
  assumes core: "server_core c s" and recv: "receive_input p s sid i = Done (s', r)"
  shows "server_core c s'"
  using recv
proof (cases rule: receive_input_Done)
  case 1
  with core show ?thesis by simp
next
  case (2 q b)
  have buf: "buffer_inv c s" and ses: "sessions_inv s" using core by (simp_all add: server_core_def)
  from ses 2(1) have q: "q \<in> set (s_entity_spawn_order s)" by (auto simp: sessions_inv_def)
  have "buffer_inv c s'"
    using 2(3)
  proof (cases rule: validate_input_cases)
    case dropped
    with buf 2(2) show ?thesis by (simp add: buffer_inv_def)
  next
    case offered
    let ?b = "snd (try_buffer (s_input_buffer s) q i)"
    have "buffer_unit ?b" using buf offered by (simp add: buffer_inv_def try_buffer_unit)
    moreover have "r' \<in> set (s_entity_spawn_order s) \<and> w_tick (s_world s) \<le> t \<and>
        t \<le> w_tick (s_world s) + sc_max_future_ticks c" if "slot ?b r' t \<noteq> None" for r' t
      using that buf q offered slots.slot_offer[of r' t q i "s_input_buffer s"]
      by (cases "(r', t) = (q, ic_tick i)") (auto simp: buffer_inv_def)
    ultimately show ?thesis using buf offered(1) 2(2) slots.wf_offer by (auto simp: buffer_inv_def)
  qed
  then show ?thesis
    using core 2(2)
    by (auto simp: server_core_def players_inv_def sessions_inv_def floors_inv_def intents_inv_def recorder_inv_def)
qed

lemma core_fingerprint: "server_core c s \<Longrightarrow> server_core c (server_set_build_fingerprint f s)"
  by (auto simp: server_core_def players_inv_def sessions_inv_def floors_inv_def buffer_inv_def
      intents_inv_def recorder_inv_def server_set_build_fingerprint_def recorder_set_build_fingerprint_def)

section \<open>Stepping\<close>

lemma step_world_simps [simp]:
  "w_tick (step_world is w) = w_tick w + 1" "w_players (step_world is w) = w_players w"
  "world_wf (step_world is w) = world_wf w" "w_tick_rate_hz (step_world is w) = w_tick_rate_hz w"
  "w_seed (step_world is w) = w_seed w"
  by (simp_all add: step_world_def world_wf_def)

lemma unit_normalize: "unit_dir (ic_move_dir i) \<Longrightarrow> unit_vec2 (normalize_dir i)"
  by (simp add: unit_dir_def normalize_dir_def unit_vec2_def)

lemma applied_of_unit:
  assumes "buffer_unit b" and "\<And>d. hm_get l q = Some d \<Longrightarrow> unit_vec2 d"
  shows "unit_vec2 (ai_move_dir (applied_of t b l q))"
proof -
  have "unit_vec2 (f64_zero, f64_zero)" by (simp add: unit_vec2_def)
  moreover have "unit_vec2 (normalize_dir (be_selected e))" if "slot b q t = Some e" for e
    using that assms(1) by (intro unit_normalize) (simp add: buffer_unit_def)
  ultimately show ?thesis
    using assms(2) by (auto simp: applied_of_def choose_input_def take_input_slot split: option.split)
qed

lemma take_all_config [simp]:
  "ib_config (fold (\<lambda>q b. snd (take_input b q t)) ps b) = ib_config b"
  "ib_per_tick_limit (fold (\<lambda>q b. snd (take_input b q t)) ps b) = ib_per_tick_limit b"
  by (induction ps arbitrary: b) simp_all

lemma stepped_buffer:
  assumes "buffer_wf b"
  shows "slot (evict_before (fold (\<lambda>q b. snd (take_input b q t)) ps b) t') r u =
      (if t' \<le> u \<and> \<not> (r \<in> set ps \<and> u = t) then slot b r u else None)"
    and "buffer_wf (evict_before (fold (\<lambda>q b. snd (take_input b q t)) ps b) t')"
    and "ib_config (evict_before (fold (\<lambda>q b. snd (take_input b q t)) ps b) t') = ib_config b"
    and "ib_per_tick_limit (evict_before (fold (\<lambda>q b. snd (take_input b q t)) ps b) t') =
      ib_per_tick_limit b"
proof -
  note wf = slots.wf_take_all[OF assms, of t ps]
  show "slot (evict_before (fold (\<lambda>q b. snd (take_input b q t)) ps b) t') r u =
      (if t' \<le> u \<and> \<not> (r \<in> set ps \<and> u = t) then slot b r u else None)"
    by (simp add: slots.slot_evict[OF wf] slots.slot_take_all)
  show "buffer_wf (evict_before (fold (\<lambda>q b. snd (take_input b q t)) ps b) t')"
    by (rule slots.wf_evict[OF wf])
  show "ib_config (evict_before (fold (\<lambda>q b. snd (take_input b q t)) ps b) t') = ib_config b"
    and "ib_per_tick_limit (evict_before (fold (\<lambda>q b. snd (take_input b q t)) ps b) t') =
      ib_per_tick_limit b" by simp_all
qed

lemma running_iff: "should_end_match s = None \<longleftrightarrow> w_tick (s_world s) < sc_match_duration_ticks (s_config s)"
  by (auto simp: should_end_match_def not_le)

lemma core_step:
  assumes c: "config_ok c" "s_config s = c" and core: "server_core c s"
    and run: "should_end_match s = None" and step: "step p enc s = Done (s', snap, fl, bs)"
  shows "server_core c s'"
proof -
  have inv: "players_inv c s" "sessions_inv s" "floors_inv c s" "buffer_inv c s" "intents_inv s" "recorder_inv c s"
    using core by (simp_all add: server_core_def)
  let ?t = "w_tick (s_world s)" and ?ps = "s_entity_spawn_order s"
  note after = step_Done[OF core_distinct[OF c(1) inv(1)] step]
  have lt: "?t < sc_match_duration_ticks c" using run c(2) by (simp add: running_iff)
  note tick = tick_Suc[OF lt]
  have wfb: "buffer_wf (s_input_buffer s)" and unit: "buffer_unit (s_input_buffer s)"
    using inv(4) by (simp_all add: buffer_inv_def)
  have lki: "unit_vec2 d" if "hm_get (s_last_known_intent s) q = Some d" for q d
    using inv(5) that unfolding intents_inv_def by blast
  have applied_unit: "unit_vec2 (ai_move_dir (applied_of t (s_input_buffer s) (s_last_known_intent s) q))" for t q
    by (rule applied_of_unit[OF unit lki])
  have "players_inv c s'"
    using inv(1) tick(2) by (simp add: players_inv_def after(1,8,9,12))
  moreover have "sessions_inv s'" using inv(2) by (simp add: sessions_inv_def after)
  moreover have "floors_inv c s'"
    using inv(3) c(2) by (auto simp: floors_inv_def after(2,3,7,16) hm.keys_get)
  moreover have "buffer_inv c s'"
  proof -
    have far: "?t + sc_max_future_ticks c \<le> ?t + 1 + sc_max_future_ticks c"
      using core_no_wrap[OF c(1) tick(2)] tick(1)
      by (simp add: word_le_nat_alt unat_plus_fits)
    have "buffer_unit (s_input_buffer s')"
      using unit by (simp add: buffer_unit_def after(14) stepped_buffer(1)[OF wfb])
    then show ?thesis
      using inv(4) far
      by (auto simp: buffer_inv_def after(2,12,14) stepped_buffer[OF wfb] split: if_splits
          intro: order_trans)
  qed
  moreover have "intents_inv s'"
  proof -
    have get: "hm_get (s_last_known_intent s') q = (if q \<in> set ?ps
        then Some (ai_move_dir (applied_of ?t (s_input_buffer s) (s_last_known_intent s) q))
        else hm_get (s_last_known_intent s) q)" for q
      by (simp add: after(15))
    have "unit_vec2 d" if "hm_get (s_last_known_intent s') q = Some d" for q d
      using that applied_unit[of ?t q] lki[of q d] unfolding get by (cases "q \<in> set ?ps") auto
    moreover have "hm_has (s_last_known_intent s') q \<longleftrightarrow> q \<in> set (s_entity_spawn_order s')" for q
      using inv(5) unfolding get after(12) by (auto simp: intents_inv_def)
    ultimately show ?thesis by (simp add: intents_inv_def)
  qed
  moreover have "recorder_inv c s'"
  proof -
    have "\<forall>a \<in> set (step_applied s). ai_tick a = ?t \<and> ai_player_id a \<in> set ?ps \<and> unit_vec2 (ai_move_dir a)"
      using applied_unit by (auto simp: step_applied_def)
    moreover have "?t < ?t + 1" using tick(1) by (simp add: word_less_nat_alt)
    ultimately show ?thesis
      using inv(6) by (auto simp: recorder_inv_def after(2,12,17,18,19) baseline_def)
  qed
  ultimately show ?thesis by (simp add: server_core_def)
qed

section \<open>The transition system\<close>

lemma serve_config: "serve p enc s e = Done s' \<Longrightarrow> s_config s' = s_config s"
  by (cases e)
     (auto simp: outcome_simps receive_input_def step_def record_first_baseline_def Let_def
       server_set_build_fingerprint_def disconnect_session_def joined_def split_beta
       split: option.splits if_splits elim!: join_Done)

lemma serve_spawn_order:
  "serve p enc s e = Done s' \<Longrightarrow>
     length (s_entity_spawn_order s) \<le> length (s_entity_spawn_order s')"
  by (cases e)
     (auto simp: outcome_simps receive_input_def step_def record_first_baseline_def Let_def
       server_set_build_fingerprint_def disconnect_session_def joined_def split_beta
       split: option.splits if_splits elim!: join_Done)

lemma serve_core:
  assumes c: "config_ok c" "s_config s = c" and core: "server_core c s"
    and serve: "serve p enc s e = Done s'"
    and room: "p = Dev \<or> length (s_entity_spawn_order s') \<le> 255"
  shows "server_core c s'"
proof (cases e)
  case EvJoin
  then obtain wel where "join p s = Done (s', wel)" using serve by (auto simp: outcome_simps)
  then obtain pid w eid where j: "s' = joined s pid w eid" "spawn_character p (s_world s) pid = Done (w, eid)"
    "assign_player_id (s_config s) (s_next_player_id s) = Done pid"
    "p = Dev \<longrightarrow> unat (s_next_player_id s) + 1 < 256"
    "wel = \<lparr>sw_target_tick_floor = w_tick w + sc_input_lead_ticks (s_config s),
            sw_tick_rate_hz = sc_tick_rate_hz (s_config s), sw_player_id = ucast pid,
            sw_controlled_entity_id = eid\<rparr>" by (rule join_Done)
  have n: "s_next_player_id s = of_nat (length (s_entity_spawn_order s))" "length (s_entity_spawn_order s) \<le> 255"
    using core by (simp_all add: server_core_def players_inv_def)
  then have "unat (s_next_player_id s) = length (s_entity_spawn_order s)" by (simp add: unat_of_nat_small)
  then have "length (s_entity_spawn_order s) < 255" using room j(1,4) by (auto simp: joined_def)
  then show ?thesis using core_joined[OF c core] j c(2) by simp
next
  case (EvInput sid i)
  then show ?thesis using serve core_receive_input[OF core] by (auto simp: outcome_simps)
next
  case (EvLeave sid)
  then show ?thesis using serve core_disconnect[OF core, of sid] by auto
next
  case EvStep
  then show ?thesis
    using serve core core_step[OF c core] by (auto simp: outcome_simps split: if_splits)
next
  case (EvFingerprint f)
  then show ?thesis using serve core_fingerprint[OF core, of f] by auto
qed

definition tick_gauge :: "Server \<Rightarrow> nat" where
  "tick_gauge s = unat (w_tick (s_world s))"

lemma serve_tick:
  assumes "serve p enc s e = Done s'" and "players_inv c s" and "config_ok c" and "s_config s = c"
  shows "w_tick (s_world s') = (if e = EvStep \<and> should_end_match s = None
           then w_tick (s_world s) + 1 else w_tick (s_world s))"
proof (cases e)
  case EvJoin
  with assms(1) show ?thesis
    by (auto simp: outcome_simps joined_def spawn_character_def Let_def elim!: join_Done)
next
  case EvStep
  with assms show ?thesis
    using step_Done(2)[OF core_distinct[OF assms(3,2)]] by (auto simp: outcome_simps)
qed (use assms(1) in \<open>auto simp: outcome_simps receive_input_def Let_def split_beta
  server_set_build_fingerprint_def disconnect_session_def split: option.splits\<close>)

text \<open>
  The server as a transition system with a clock: the invariant holds initially and after every
  event, and no event moves the clock back.
\<close>

definition running_inv :: "profile \<Rightarrow> ServerConfig \<Rightarrow> Server \<Rightarrow> bool" where
  "running_inv p c s \<longleftrightarrow> config_ok c \<and> server_inv p c s"

definition clock :: "profile \<Rightarrow> Server \<Rightarrow> nat" where
  "clock p s = (if p = Dev \<or> length (s_entity_spawn_order s) \<le> 255
                then unat (w_tick (s_world s)) else 2 ^ 64)"

lemma running_inv_serve:
  assumes "running_inv p c s" and "serve p enc s e = Done s'"
  shows "running_inv p c s'"
proof -
  have c: "config_ok c" "s_config s = c" using assms(1) by (simp_all add: running_inv_def server_inv_def)
  have "server_core c s'" if "p = Dev \<or> length (s_entity_spawn_order s') \<le> 255"
  proof -
    have "p = Dev \<or> length (s_entity_spawn_order s) \<le> 255"
      using that serve_spawn_order[OF assms(2)] by auto
    then have "server_core c s" using assms(1) by (simp add: running_inv_def server_inv_def)
    then show ?thesis using serve_core[OF c _ assms(2) that] by simp
  qed
  then show ?thesis
    using c serve_config[OF assms(2)] by (simp add: running_inv_def server_inv_def)
qed

interpretation server: monotone_system "serve p enc" "server_start c" "running_inv p c" "clock p"
  for p enc c
proof unfold_locales
  show "server_start c s \<Longrightarrow> running_inv p c s" for s
    using server_start_core by (simp add: running_inv_def server_inv_def server_start_def)
  show "running_inv p c s \<Longrightarrow> serve p enc s e = Done s' \<Longrightarrow> running_inv p c s'" for s e s'
    by (rule running_inv_serve)
  fix s e s'
  assume inv: "running_inv p c s" and serve: "serve p enc s e = Done s'"
  note inv' = running_inv_serve[OF inv serve]
  show "clock p s \<le> clock p s'"
  proof (cases "p = Dev \<or> length (s_entity_spawn_order s') \<le> 255")
    case True
    then have ok: "p = Dev \<or> length (s_entity_spawn_order s) \<le> 255"
      using serve_spawn_order[OF serve] by auto
    then have core: "players_inv c s" "config_ok c" "s_config s = c"
      using inv by (auto simp: running_inv_def server_inv_def server_core_def)
    have "unat (w_tick (s_world s)) \<le> unat (w_tick (s_world s'))"
    proof (cases "e = EvStep \<and> should_end_match s = None")
      case True
      then have "w_tick (s_world s) < sc_match_duration_ticks c" using core(3) by (simp add: running_iff)
      then show ?thesis using True serve_tick[OF serve core] tick_Suc(1) by simp
    next
      case False
      then show ?thesis using serve_tick[OF serve core] by auto
    qed
    then show ?thesis using True ok by (simp add: clock_def)
  next
    case False
    have "unat (w_tick (s_world s)) < 2 ^ 64" using unsigned_less[of "w_tick (s_world s)"] by simp
    with False show ?thesis by (simp add: clock_def)
  qed
qed

lemma reachable_core:
  assumes "server_start c s0" and "run_events (serve p enc) s0 es = Done s"
    and "p = Dev \<or> length (s_entity_spawn_order s) \<le> 255"
  shows "config_ok c" "s_config s = c" "server_core c s"
  using server.reachable_inv[OF assms(1,2)] assms(3) by (auto simp: running_inv_def server_inv_def)

text \<open>Reachability as an inductive relation, with the step relation it iterates.\<close>

inductive server_step :: "profile \<Rightarrow> (SnapshotProto \<Rightarrow> bytes) \<Rightarrow> Server \<Rightarrow> event \<Rightarrow> Server \<Rightarrow> bool"
  for p enc where
  Join: "join p s = Done (s', wel) \<Longrightarrow> server_step p enc s EvJoin s'"
| Input: "receive_input p s sid i = Done (s', r) \<Longrightarrow> server_step p enc s (EvInput sid i) s'"
| Leave: "server_step p enc s (EvLeave sid) (disconnect_session s sid)"
| Step: "should_end_match s = None \<Longrightarrow> step p enc s = Done (s', out) \<Longrightarrow> server_step p enc s EvStep s'"
| Ended: "should_end_match s = Some r \<Longrightarrow> server_step p enc s EvStep s"
| Fingerprint: "server_step p enc s (EvFingerprint f) (server_set_build_fingerprint f s)"

inductive_cases server_step_JoinE: "server_step p enc s EvJoin s'"
inductive_cases server_step_InputE: "server_step p enc s (EvInput sid i) s'"
inductive_cases server_step_LeaveE: "server_step p enc s (EvLeave sid) s'"
inductive_cases server_step_StepE: "server_step p enc s EvStep s'"
inductive_cases server_step_FingerprintE: "server_step p enc s (EvFingerprint f) s'"

lemmas server_step_elims =
  server_step_JoinE server_step_InputE server_step_LeaveE server_step_StepE server_step_FingerprintE

lemma server_step_iff: "server_step p enc s e s' \<longleftrightarrow> serve p enc s e = Done s'"
proof
  show "server_step p enc s e s' \<Longrightarrow> serve p enc s e = Done s'"
    by (induction rule: server_step.induct) simp_all
  show "serve p enc s e = Done s' \<Longrightarrow> server_step p enc s e s'"
    by (cases e) (auto simp: outcome_simps split: if_splits intro: server_step.intros)
qed

inductive server_reachable :: "profile \<Rightarrow> (SnapshotProto \<Rightarrow> bytes) \<Rightarrow> ServerConfig \<Rightarrow> Server \<Rightarrow> bool"
  for p enc c where
  start: "server_start c s \<Longrightarrow> server_reachable p enc c s"
| move: "server_reachable p enc c s \<Longrightarrow> server_step p enc s e s' \<Longrightarrow> server_reachable p enc c s'"

lemma server_reachable_inv: "server_reachable p enc c s \<Longrightarrow> running_inv p c s"
  by (induction rule: server_reachable.induct)
     (auto simp: server_step_iff intro: server.start_inv server.step_inv)

lemma server_reachable_core:
  assumes "server_reachable p enc c s" and "p = Dev \<or> length (s_entity_spawn_order s) \<le> 255"
  shows "config_ok c" "s_config s = c" "server_core c s"
  using server_reachable_inv[OF assms(1)] assms(2) by (auto simp: running_inv_def server_inv_def)

lemma server_reachable_run:
  "server_reachable p enc c s \<longleftrightarrow> (\<exists>s0 es. server_start c s0 \<and> run_events (serve p enc) s0 es = Done s)"
proof
  assume "server_reachable p enc c s"
  then show "\<exists>s0 es. server_start c s0 \<and> run_events (serve p enc) s0 es = Done s"
  proof (induction rule: server_reachable.induct)
    case (start s)
    then have "server_start c s \<and> run_events (serve p enc) s [] = Done s" by simp
    then show ?case by blast
  next
    case (move s e s')
    then obtain s0 es where "server_start c s0" "run_events (serve p enc) s0 es = Done s" by blast
    then have "server_start c s0 \<and> run_events (serve p enc) s0 (es @ [e]) = Done s'"
      using move.hyps(2) by (simp add: run_events_append server_step_iff)
    then show ?case by blast
  qed
next
  have "server_reachable p enc c s'" if "server_reachable p enc c s1" "run_events (serve p enc) s1 es = Done s'" for s1 s' es
    using that
  proof (induction es arbitrary: s1)
    case (Cons e es)
    from Cons.prems(2) obtain u where u: "serve p enc s1 e = Done u" "run_events (serve p enc) u es = Done s'"
      by (auto simp: outcome_simps)
    have "server_reachable p enc c u"
      using Cons.prems(1) u(1) by (auto simp: server_step_iff intro: server_reachable.move)
    then show ?case using Cons.IH u(2) by blast
  qed simp
  then show "\<exists>s0 es. server_start c s0 \<and> run_events (serve p enc) s0 es = Done s \<Longrightarrow> server_reachable p enc c s"
    by (blast intro: server_reachable.start)
qed

end
