(* ===== verification/ServerProps.thy ===== *)
theory ServerProps
  imports ServerInv
begin

text \<open>
  Properties of the Server Edge: identity of sessions and players, target tick floors, the input
  window, what a tick applies, freezing of departed players, and freedom from panics.
\<close>

section \<open>Methods that cannot panic\<close>

lemma sorted_step_inputs: "sorted (map si_player_id (step_inputs_of as))"
  by (simp add: step_inputs_of_def)

lemma step_total:
  assumes c: "config_ok c" "s_config s = c" and core: "server_core c s"
    and run: "should_end_match s = None"
  shows "\<exists>s' snap fl bs. step p enc s = Done (s', snap, fl, bs)"
proof -
  have inv: "players_inv c s" using core by (simp add: server_core_def)
  note dist = core_distinct[OF c(1) inv]
  have lt: "w_tick (s_world s) < sc_match_duration_ticks c" using run c(2) by (simp add: running_iff)
  note tick = tick_Suc[OF lt]
  let ?is = "step_inputs_of (step_applied s)"
  obtain w snap where adv: "advance p (s_world s) (w_tick (s_world s)) ?is = Done (w, snap)"
    using sim.advance_total[OF sorted_step_inputs tick_less_max[OF lt], of p "step_applied s"]
    by (auto simp: is_done_iff)
  have w: "w_tick w = w_tick (s_world s) + 1" using sim.advance_tick[OF adv] .
  have "unat (w_tick w) + unat (sc_input_lead_ticks c) < 2 ^ LENGTH(64)"
    using core_no_wrap[OF c(1) tick(2)] unfolding w by simp
  note fl = checked_plus_fits[OF this, of p]
  show ?thesis
    using adv fl c(2)
    by (auto simp: step_def Let_def record_first_baseline_def collect_applied_eq dist step_inputs_of_def
        step_applied_def)
qed

lemma receive_input_total:
  assumes c: "config_ok c" and core: "server_core c s"
  shows "\<exists>s' r. receive_input p s sid i = Done (s', r)"
proof -
  have "w_tick (s_world s) \<le> sc_match_duration_ticks c"
    "vc_max_future_ticks (ib_config (s_input_buffer s)) = sc_max_future_ticks c"
    using core by (simp_all add: server_core_def players_inv_def buffer_inv_def)
  then have "unat (w_tick (s_world s)) + unat (vc_max_future_ticks (ib_config (s_input_buffer s))) < 2 ^ 64"
    using core_no_wrap[OF c] by fastforce
  then have total: "\<exists>r b. validate_input p i (w_tick (s_world s)) flr (s_input_buffer s) q = Done (r, b)" for flr q
    using validate_input_total by blast
  show ?thesis
  proof (cases "hm_get (s_session_players s) sid")
    case (Some q)
    then show ?thesis
      using total[of "case hm_get (s_last_emitted_floor s) sid of None \<Rightarrow> 0 | Some f \<Rightarrow> f" q]
      by (auto simp: receive_input_def Let_def)
  qed (simp add: receive_input_def)
qed

text \<open>A join can only fail for want of room, ids or entity numbers.\<close>

lemma next_ids:
  assumes "players_inv c s"
  shows "unat (s_next_player_id s) = length (s_entity_spawn_order s)"
    "unat (s_next_session_id s) = Suc (length (s_entity_spawn_order s))"
  using assms by (simp_all add: players_inv_def unat_of_nat_small del: of_nat_Suc)

lemma join_panics_iff:
  assumes c: "config_ok c" "s_config s = c" and core: "server_core c s"
  shows "join p s = Panic r \<longleftrightarrow>
    sc_max_sessions c \<le> hm_len (s_sessions s) \<and> r = MaxSessionsExceeded \<or>
    hm_len (s_sessions s) < sc_max_sessions c \<and> p = Dev \<and> length (s_entity_spawn_order s) = 255 \<and>
      r = ArithmeticOverflow \<or>
    hm_len (s_sessions s) < sc_max_sessions c \<and> (p = Dev \<longrightarrow> length (s_entity_spawn_order s) < 255) \<and>
      (\<exists>ids. sc_test_player_ids c = Some ids \<and> length ids \<le> length (s_entity_spawn_order s)) \<and>
      r = TestPlayerIdsExhausted"
proof -
  let ?n = "length (s_entity_spawn_order s)"
  have inv: "players_inv c s" using core by (simp add: server_core_def)
  have n: "?n \<le> 255" and wf: "world_wf (s_world s)"
    and pl: "w_players (s_world s) = s_entity_spawn_order s"
    and le: "w_tick (s_world s) \<le> sc_match_duration_ticks c"
    using inv by (simp_all add: players_inv_def)
  have "length (w_characters (s_world s)) = ?n" using pl by (metis length_map)
  then have fits: "length (w_characters (s_world s)) + 2 < 2 ^ 64" using n by simp
  note ids = next_ids[OF inv]
  have plus: "checked_plus p (s_next_session_id s) 1 = Done (s_next_session_id s + 1)"
    "checked_plus p (s_next_player_id s) 1 =
       (if p = Dev \<and> ?n = 255 then Panic ArithmeticOverflow else Done (s_next_player_id s + 1))"
    using ids n by (auto simp: checked_plus_def)
  have "unat (w_tick (s_world s)) + unat (sc_input_lead_ticks c) < 2 ^ LENGTH(64)"
    using core_no_wrap[OF c(1) le] by simp
  note fl = checked_plus_fits[OF this, of p]
  have sp: "\<exists>w e. spawn_character p (s_world s) pid = Done (w, e) \<and> w_tick w = w_tick (s_world s)" for pid
    using spawn_character_eq[OF wf fits, of p pid] by auto
  have accepted: "join p s \<noteq> Panic r" if "hm_len (s_sessions s) < sc_max_sessions c"
    "\<not> (p = Dev \<and> ?n = 255)" "assign_player_id c (s_next_player_id s) = Done pid" for pid
    using that plus fl sp[of pid] c(2)
    by (auto simp: join_def accept_session_def welcome_for_def Let_def)
  show ?thesis
  proof (cases "hm_len (s_sessions s) < sc_max_sessions c \<and> \<not> (p = Dev \<and> ?n = 255)")
    case False
    then show ?thesis
      using c(2) plus n by (auto simp: join_def accept_session_def Let_def)
  next
    case True
    show ?thesis
    proof (cases "assign_player_id c (s_next_player_id s)")
      case (Done pid)
      then show ?thesis
        using accepted[OF _ _ Done] True ids(1) by (auto simp: assign_player_id_def split: option.splits if_splits)
    next
      case (Panic r')
      then have "\<exists>ids. sc_test_player_ids c = Some ids \<and> length ids \<le> ?n" "r' = TestPlayerIdsExhausted"
        using ids(1) by (auto simp: assign_player_id_def split: option.splits if_splits)
      then show ?thesis
        using True c(2) plus Panic n by (auto simp: join_def accept_session_def Let_def)
    qed
  qed
qed

lemma join_total:
  assumes c: "config_ok c" "s_config s = c" and core: "server_core c s"
    and max: "hm_len (s_sessions s) < sc_max_sessions c" and room: "length (s_entity_spawn_order s) < 255"
    and ids: "case sc_test_player_ids c of None \<Rightarrow> True | Some ids \<Rightarrow> length (s_entity_spawn_order s) < length ids"
  shows "\<exists>s' wel. join p s = Done (s', wel)"
proof (cases "join p s")
  case (Panic r)
  then show ?thesis using join_panics_iff[OF c core] max room ids by auto
qed auto

section \<open>The clock\<close>

lemma run_spawn_order:
  "run_events (serve p enc) s es = Done s' \<Longrightarrow>
     length (s_entity_spawn_order s) \<le> length (s_entity_spawn_order s')"
proof (induction es arbitrary: s)
  case (Cons e es)
  then obtain u where "serve p enc s e = Done u" "run_events (serve p enc) u es = Done s'"
    by (auto simp: outcome_simps)
  then show ?case using Cons.IH serve_spawn_order order_trans by blast
qed simp

lemma run_clock:
  assumes "running_inv p c s" and "run_events (serve p enc) s es = Done s'"
    and "p = Dev \<or> length (s_entity_spawn_order s') \<le> 255"
  shows "unat (w_tick (s_world s')) =
    min (unat (sc_match_duration_ticks c)) (unat (w_tick (s_world s)) + count_list es EvStep)"
  using assms
proof (induction es arbitrary: s)
  case Nil
  then have "w_tick (s_world s) \<le> sc_match_duration_ticks c"
    by (auto simp: running_inv_def server_inv_def server_core_def players_inv_def)
  then show ?case using Nil by (simp add: word_le_nat_alt)
next
  case (Cons e es)
  from Cons.prems(2) obtain u where u: "serve p enc s e = Done u" "run_events (serve p enc) u es = Done s'"
    by (auto simp: outcome_simps)
  have "p = Dev \<or> length (s_entity_spawn_order s) \<le> 255"
    using Cons.prems(3) serve_spawn_order[OF u(1)] run_spawn_order[OF u(2)] by auto
  then have inv: "players_inv c s" "config_ok c" "s_config s = c"
    using Cons.prems(1) by (auto simp: running_inv_def server_inv_def server_core_def)
  note IH = Cons.IH[OF running_inv_serve[OF Cons.prems(1) u(1)] u(2) Cons.prems(3)]
  have le: "unat (w_tick (s_world s)) \<le> unat (sc_match_duration_ticks c)"
    using inv(1) by (simp add: players_inv_def word_le_nat_alt)
  show ?case
  proof (cases "e = EvStep")
    case True
    show ?thesis
    proof (cases "should_end_match s = None")
      case run: True
      then have lt: "w_tick (s_world s) < sc_match_duration_ticks c" using inv(3) by (simp add: running_iff)
      have "w_tick (s_world u) = w_tick (s_world s) + 1" using serve_tick[OF u(1) inv] True run by simp
      then show ?thesis using IH tick_Suc(1)[OF lt] True by simp
    next
      case False
      then have "\<not> w_tick (s_world s) < sc_match_duration_ticks c" using inv(3) running_iff[of s] by simp
      then show ?thesis using IH le serve_tick[OF u(1) inv] False True by (simp add: word_less_nat_alt)
    qed
  next
    case False
    then show ?thesis using IH serve_tick[OF u(1) inv] by simp
  qed
qed

lemma reachable_serve:
  "server_reachable p enc c s \<Longrightarrow> serve p enc s e = Done s' \<Longrightarrow> server_reachable p enc c s'"
  unfolding server_step_iff[symmetric] by (rule server_reachable.move)

lemma reachable_step:
  assumes "server_reachable Dev enc c s"
  shows "\<exists>s'. serve Dev enc s EvStep = Done s'"
proof (cases "should_end_match s = None")
  case True
  have "server_core c s" "config_ok c" "s_config s = c" using server_reachable_core[OF assms] by simp_all
  then show ?thesis using step_total[of c s Dev enc] True by auto
qed auto

section \<open>Inputs\<close>

lemma of_buffer_result_not_late: "of_buffer_result r \<noteq> DroppedLate a b"
  by (cases r) simp_all

lemma receive_input_decision:
  assumes c: "config_ok c" and core: "server_core c s" and recv: "receive_input p s sid i = Done (s', r)"
  shows "(is_accepted r \<longleftrightarrow> (\<exists>q. hm_get (s_session_players s) sid = Some q \<and>
       length (ic_move_dir i) = 2 \<and> finite_vec2 (vec2_of (ic_move_dir i)) \<and>
       w_tick (s_world s) + sc_input_lead_ticks c \<le> ic_tick i \<and>
       ic_tick i \<le> w_tick (s_world s) + sc_max_future_ticks c \<and>
       (case slot (s_input_buffer s) q (ic_tick i) of
          None \<Rightarrow> True | Some e \<Rightarrow> be_receive_count e < ib_per_tick_limit (s_input_buffer s)))) \<and>
    (\<not> is_accepted r \<longrightarrow> s' = s) \<and> (\<forall>a b. r \<noteq> DroppedLate a b)"
  using recv
proof (cases rule: receive_input_Done)
  case 1
  then show ?thesis by simp
next
  case (2 q b)
  have inv: "w_tick (s_world s) \<le> sc_match_duration_ticks c" "sessions_inv s" "floors_inv c s"
    "vc_max_future_ticks (ib_config (s_input_buffer s)) = sc_max_future_ticks c"
    using core by (simp_all add: server_core_def players_inv_def buffer_inv_def)
  note room = core_no_wrap[OF c inv(1)]
  let ?t = "w_tick (s_world s)"
  have lead: "unat (?t + sc_input_lead_ticks c) = unat ?t + unat (sc_input_lead_ticks c)"
    using room by (intro unat_plus_fits) simp
  have "hm_get (s_sessions s) sid \<noteq> None" using 2(1) inv(2) by (auto simp: sessions_inv_def)
  then have flr: "hm_get (s_last_emitted_floor s) sid = Some (?t + sc_input_lead_ticks c)"
    using inv(3) by (simp add: floors_inv_def)
  have le: "?t \<le> u" if "?t + sc_input_lead_ticks c \<le> u" for u
    using that lead by (simp add: word_le_nat_alt)
  have v: "validate_input p i ?t (?t + sc_input_lead_ticks c) (s_input_buffer s) q = Done (r, b)"
    using 2(3) flr by simp
  have "unat ?t + unat (vc_max_future_ticks (ib_config (s_input_buffer s))) < 2 ^ 64"
    using room inv(4) by simp
  note decides = validate_input_decides[OF this, of p i "?t + sc_input_lead_ticks c" q]
  have "\<forall>x y. r \<noteq> DroppedLate x y"
    using v le[of "ic_tick i"]
    by (auto simp: validate_input_def Let_def split_beta outcome_simps not_less
        of_buffer_result_not_late split: if_splits)
  then show ?thesis using decides v 2(1,2) le unfolding inv(4) by auto
qed

lemma buffer_entries_bound:
  assumes c: "config_ok c" and core: "server_core c s"
  shows "hm_len (ib_buffer (s_input_buffer s)) \<le>
    length (s_entity_spawn_order s) * (unat (sc_max_future_ticks c) + 1)"
proof -
  let ?b = "ib_buffer (s_input_buffer s)" and ?t = "w_tick (s_world s)" and ?m = "sc_max_future_ticks c"
  have inv: "?t \<le> sc_match_duration_ticks c" "hm_wf ?b"
    "\<forall>q t. slot (s_input_buffer s) q t \<noteq> None \<longrightarrow> q \<in> set (s_entity_spawn_order s) \<and> ?t \<le> t \<and> t \<le> ?t + ?m"
    using core by (simp_all add: server_core_def players_inv_def buffer_inv_def buffer_wf_def)
  have plus: "unat (?t + ?m) = unat ?t + unat ?m"
    using core_no_wrap[OF c inv(1)] by (intro unat_plus_fits) simp
  let ?W = "{t. ?t \<le> t \<and> t \<le> ?t + ?m}"
  have "inj_on unat ?W" by (rule inj_onI) (simp add: word_unat_eq_iff)
  moreover have "unat ` ?W \<subseteq> {unat ?t..unat ?t + unat ?m}"
    using plus by (auto simp: word_le_nat_alt)
  ultimately have window: "card ?W \<le> unat ?m + 1"
    using card_mono[of "{unat ?t..unat ?t + unat ?m}" "unat ` ?W"] by (simp add: card_image)
  have "{k. hm_get ?b k \<noteq> None} \<subseteq> set (s_entity_spawn_order s) \<times> ?W"
    using inv(3) by (auto simp: slot_def)
  then have "card {k. hm_get ?b k \<noteq> None} \<le> card (set (s_entity_spawn_order s) \<times> ?W)"
    by (intro card_mono) simp_all
  also have "\<dots> \<le> length (s_entity_spawn_order s) * (unat ?m + 1)"
    unfolding card_cartesian_product by (rule mult_le_mono[OF card_length window])
  finally show ?thesis by (simp add: hm.len_card[OF inv(2)])
qed

section \<open>Departed players\<close>

text \<open>
  A player with no session and no buffered input: what it is played with is its last known intent,
  which nothing changes any more.
\<close>

definition departed :: "PlayerId \<Rightarrow> vec2 \<Rightarrow> Server \<Rightarrow> bool" where
  "departed q d s \<longleftrightarrow>
     hm_get (s_player_sessions s) q = None \<and> (\<forall>t. slot (s_input_buffer s) q t = None) \<and>
     hm_get (s_last_known_intent s) q = Some d"

lemma departed_applies:
  "departed q d s \<Longrightarrow>
     ai_move_dir (applied_of t (s_input_buffer s) (s_last_known_intent s) q) = d \<and>
     ai_is_fallback (applied_of t (s_input_buffer s) (s_last_known_intent s) q)"
  by (simp add: departed_def applied_of_def choose_input_def take_input_slot)

lemma receive_input_slots:
  assumes recv: "receive_input p s sid i = Done (s', r)"
    and slot: "slot (s_input_buffer s') q t \<noteq> slot (s_input_buffer s) q t"
  shows "hm_get (s_session_players s) sid = Some q \<and> t = ic_tick i"
  using recv
proof (cases rule: receive_input_Done)
  case 1
  with slot show ?thesis by simp
next
  case (2 q' b)
  from 2(3) show ?thesis
  proof (cases rule: validate_input_cases)
    case dropped
    with 2(2) slot show ?thesis by simp
  next
    case offered
    with 2(1,2) slot show ?thesis
      using slots.slot_offer[of q t q' i "s_input_buffer s"] by (cases "(q, t) = (q', ic_tick i)") auto
  qed
qed

lemma receive_input_accepted:
  assumes "receive_input p s sid i = Done (s', r)" and "is_accepted r"
  obtains q where "hm_get (s_session_players s) sid = Some q"
    "s' = s\<lparr>s_input_buffer := snd (try_buffer (s_input_buffer s) q i)\<rparr>"
  using assms(1)
proof (cases rule: receive_input_Done)
  case 1
  with assms(2) show ?thesis by simp
next
  case (2 q b)
  from 2(3) have "b = snd (try_buffer (s_input_buffer s) q i)"
    using assms(2) by (cases rule: validate_input_cases) simp_all
  with 2 that show ?thesis by simp
qed

lemma receive_input_frame:
  assumes "receive_input p s sid i = Done (s', r)"
  shows "\<exists>b. s' = s\<lparr>s_input_buffer := b\<rparr>"
  using assms
proof (cases rule: receive_input_Done)
  case 1
  then have "s' = s\<lparr>s_input_buffer := s_input_buffer s\<rparr>" by simp
  then show ?thesis by blast
next
  case (2 q b)
  then show ?thesis by blast
qed

lemma disconnect_frame [simp]:
  "s_world (disconnect_session s sid) = s_world s"
  "s_entity_spawn_order (disconnect_session s sid) = s_entity_spawn_order s"
  "s_input_buffer (disconnect_session s sid) = s_input_buffer s"
  "s_replay_recorder (disconnect_session s sid) = s_replay_recorder s"
  "s_baseline_recorded (disconnect_session s sid) = s_baseline_recorded s"
  "s_config (disconnect_session s sid) = s_config s"
  by (simp_all add: disconnect_session_def split: option.split)

lemma departed_serve:
  assumes c: "config_ok c" "s_config s = c" and core: "server_core c s" and core': "server_core c s'"
    and dep: "departed q d s" and serve: "serve p enc s e = Done s'"
  shows "departed q d s'"
proof -
  have inv: "players_inv c s" "sessions_inv s" "buffer_inv c s" "intents_inv s"
    using core by (simp_all add: server_core_def)
  have known: "q \<in> set (s_entity_spawn_order s)"
    using dep inv(4) by (auto simp: departed_def intents_inv_def)
  show ?thesis
  proof (cases e)
    case EvJoin
    then obtain wel where "join p s = Done (s', wel)" using serve by (auto simp: outcome_simps)
    then obtain pid w eid where j: "s' = joined s pid w eid" by (rule join_Done)
    have "distinct (s_entity_spawn_order s')"
      using core' by (intro core_distinct[OF c(1)]) (simp add: server_core_def)
    then have "pid \<noteq> q" using known j by (auto simp: joined_def)
    then show ?thesis using dep j by (simp add: departed_def joined_def)
  next
    case (EvInput sid i)
    then obtain r where recv: "receive_input p s sid i = Done (s', r)" using serve by (auto simp: outcome_simps)
    have "slot (s_input_buffer s') q t = None" for t
    proof (rule ccontr)
      assume "slot (s_input_buffer s') q t \<noteq> None"
      then have "hm_get (s_session_players s) sid = Some q"
        using receive_input_slots[OF recv, of q t] dep by (auto simp: departed_def)
      then have "hm_get (s_player_sessions s) q = Some sid"
        using inv(2) by (auto simp: sessions_inv_def)
      with dep show False by (simp add: departed_def)
    qed
    then show ?thesis using dep receive_input_frame[OF recv] by (auto simp: departed_def)
  next
    case (EvLeave sid)
    then have s': "s' = disconnect_session s sid" using serve by simp
    show ?thesis
    proof (cases "hm_get (s_sessions s) sid")
      case (Some ses)
      then have "hm_get (s_player_sessions s) (ses_player_id ses) = Some sid"
        using inv(2) by (simp add: sessions_inv_def)
      then have "ses_player_id ses \<noteq> q" using dep by (auto simp: departed_def)
      then show ?thesis using dep Some s' by (simp add: disconnect_session_def departed_def)
    qed (use dep s' in \<open>simp add: disconnect_session_def\<close>)
  next
    case EvStep
    show ?thesis
    proof (cases "should_end_match s = None")
      case True
      then obtain snap fl bs where st: "step p enc s = Done (s', snap, fl, bs)"
        using serve EvStep by (auto simp: outcome_simps)
      note after = step_Done[OF core_distinct[OF c(1) inv(1)] st]
      have wf: "buffer_wf (s_input_buffer s)" using inv(3) by (simp add: buffer_inv_def)
      show ?thesis
        using dep known departed_applies[OF dep]
        by (simp add: departed_def after(10,14,15) stepped_buffer(1)[OF wf])
    qed (use serve EvStep dep in auto)
  next
    case (EvFingerprint f)
    then show ?thesis using serve dep by (auto simp: departed_def server_set_build_fingerprint_def)
  qed
qed

text \<open>What every event of a kind keeps, a run of such events keeps.\<close>

lemma run_keeps:
  assumes keep: "\<And>s e s'. e \<in> E \<Longrightarrow> config_ok c \<Longrightarrow> s_config s = c \<Longrightarrow> server_core c s \<Longrightarrow>
      server_core c s' \<Longrightarrow> P s \<Longrightarrow> serve p enc s e = Done s' \<Longrightarrow> P s'"
    and "running_inv p c s" and "P s" and "run_events (serve p enc) s es = Done s'" and "set es \<subseteq> E"
    and "p = Dev \<or> length (s_entity_spawn_order s') \<le> 255"
  shows "P s'"
  using assms(2-)
proof (induction es arbitrary: s)
  case (Cons e es)
  from Cons.prems(3) obtain u where u: "serve p enc s e = Done u" "run_events (serve p enc) u es = Done s'"
    by (auto simp: outcome_simps)
  note inv_u = running_inv_serve[OF Cons.prems(1) u(1)]
  note mono = run_spawn_order[OF u(2)]
  have ok: "p = Dev \<or> length (s_entity_spawn_order u) \<le> 255"
    "p = Dev \<or> length (s_entity_spawn_order s) \<le> 255"
    using Cons.prems(5) mono serve_spawn_order[OF u(1)] by auto
  have "P u"
    by (rule keep[OF _ _ _ _ _ Cons.prems(2) u(1)])
       (use Cons.prems(1,4) inv_u ok in \<open>auto simp: running_inv_def server_inv_def\<close>)
  then show ?case using Cons.IH inv_u u(2) Cons.prems(4,5) by simp
qed simp

lemma departed_run:
  assumes "running_inv p c s" and "departed q d s"
    and "run_events (serve p enc) s es = Done s'" and "p = Dev \<or> length (s_entity_spawn_order s') \<le> 255"
  shows "departed q d s'"
  by (rule run_keeps[where P = "departed q d" and E = UNIV, OF _ assms(1-3) subset_UNIV assms(4)])
     (rule departed_serve)

lemma leave_departed:
  assumes core: "server_core c s" and sid: "hm_get (s_session_players s) sid = Some q"
    and none: "\<And>t. slot (s_input_buffer s) q t = None"
  shows "departed q (f64_zero, f64_zero) (disconnect_session s sid)"
proof -
  have "sessions_inv s" using core by (simp add: server_core_def)
  then obtain ses where "hm_get (s_sessions s) sid = Some ses" "ses_player_id ses = q"
    using sid by (auto simp: sessions_inv_def)
  with none show ?thesis by (simp add: disconnect_session_def departed_def)
qed

text \<open>A player who leaves with exactly one input buffered, for the current tick, departs with that intent.\<close>

lemma leave_then_step:
  assumes "config_ok c" and core: "server_core c s" and sid: "hm_get (s_session_players s) sid = Some q"
    and run: "should_end_match s = None"
    and e: "slot (s_input_buffer s) q (w_tick (s_world s)) = Some e" "\<not> be_max_seq_tied e"
    and none: "\<And>t. t \<noteq> w_tick (s_world s) \<Longrightarrow> slot (s_input_buffer s) q t = None"
    and u: "s_config (disconnect_session s sid) = c" "server_core c (disconnect_session s sid)"
    and serve: "serve p enc (disconnect_session s sid) EvStep = Done s'"
  shows "departed q (normalize_dir (be_selected e)) s'"
proof -
  let ?u = "disconnect_session s sid"
  have inv: "players_inv c ?u" "sessions_inv s" "buffer_inv c s" using u(2) core by (simp_all add: server_core_def)
  have q: "q \<in> set (s_entity_spawn_order s)" and wf: "buffer_wf (s_input_buffer s)"
    using inv(3) e(1) by (auto simp: buffer_inv_def)
  obtain ses where "hm_get (s_sessions s) sid = Some ses" "ses_player_id ses = q"
    using inv(2) sid by (auto simp: sessions_inv_def)
  then have gone: "hm_get (s_player_sessions ?u) q = None" by (simp add: disconnect_session_def)
  have "should_end_match ?u = None" using run by (simp add: should_end_match_def)
  then obtain snap fl bs where st: "step p enc ?u = Done (s', snap, fl, bs)"
    using serve by (auto simp: outcome_simps)
  note after = step_Done[OF core_distinct[OF assms(1) inv(1)] st]
  have "ai_move_dir (applied_of (w_tick (s_world s)) (s_input_buffer s) (s_last_known_intent ?u) q) =
      normalize_dir (be_selected e)"
    using e by (simp add: applied_of_def choose_input_def take_input_slot)
  then show ?thesis
    using q gone none by (auto simp: departed_def after(10,14,15) stepped_buffer(1)[OF wf])
qed

end
