(* ===== verification/ServerMotion.thy ===== *)
theory ServerMotion
  imports ServerProps
begin

text \<open>
  How the characters of the server's world move: the one input per player that a tick applies, the
  motion it causes, the bounds that hold of every reachable world, and the motion (or rest) of the
  characters whose players have left.
\<close>

section \<open>One tick\<close>

text \<open>The direction a tick applies for a player, in terms of the slot and the last known intent.\<close>

definition tick_direction :: "Server \<Rightarrow> PlayerId \<Rightarrow> vec2" where
  "tick_direction s q =
     (case fst (take_input (s_input_buffer s) q (w_tick (s_world s))) of
        Some i \<Rightarrow> normalize_dir i
      | None \<Rightarrow> (case hm_get (s_last_known_intent s) q of None \<Rightarrow> (f64_zero, f64_zero) | Some d \<Rightarrow> d))"

lemma applied_of_direction:
  "ai_move_dir (applied_of (w_tick (s_world s)) (s_input_buffer s) (s_last_known_intent s) q) =
     tick_direction s q"
  by (simp add: applied_of_def choose_input_def tick_direction_def split: option.split)

lemma intent_applied:
  assumes "distinct (s_entity_spawn_order s)"
  shows "intent (step_inputs_of (step_applied s)) q =
     (if q \<in> set (s_entity_spawn_order s) then Some (tick_direction s q) else None)"
proof -
  let ?is = "map to_step_input (step_applied s)"
  have ids: "map si_player_id ?is = s_entity_spawn_order s"
    by (simp add: step_applied_def comp_def to_step_input_def)
  have "intent (step_inputs_of (step_applied s)) = intent ?is"
    by (rule intent_mset[symmetric]) (simp_all only: ids assms step_inputs_of_def mset_sort)
  moreover have "map (\<lambda>i. (si_player_id i, si_move_dir i)) ?is =
      map (\<lambda>q. (q, tick_direction s q)) (s_entity_spawn_order s)"
    by (simp add: step_applied_def to_step_input_def applied_of_direction)
  ultimately show ?thesis by (simp add: intent_def map_of_map_restrict restrict_map_def)
qed

lemma step_characters:
  assumes c: "config_ok c" and inv: "players_inv c s" and step: "step p enc s = Done (s', snap, fl, bs)"
  shows "w_characters (s_world s') =
      map (\<lambda>ch. move_character (w_dt_seconds (s_world s)) (tick_direction s (ch_player_id ch)) ch)
        (w_characters (s_world s))"
    and "w_dt_seconds (s_world s') = w_dt_seconds (s_world s)"
proof -
  note dist = core_distinct[OF c inv]
  have pl: "w_players (s_world s) = s_entity_spawn_order s" using inv by (simp add: players_inv_def)
  have "mset (map si_player_id (step_inputs_of (step_applied s))) = mset (s_entity_spawn_order s)"
    by (simp add: step_inputs_of_def step_applied_def image_mset.compositionality comp_def to_step_input_def)
  then have ids: "distinct (map si_player_id (step_inputs_of (step_applied s)))"
    using dist mset_eq_imp_distinct_iff by blast
  have "distinct (w_players (s_world s))" unfolding pl by (rule dist)
  note moved = fold_apply_movement[OF this ids]
  show "w_dt_seconds (s_world s') = w_dt_seconds (s_world s)"
    by (simp add: step_Done(1)[OF dist step] step_world_def)
  have "moved (w_dt_seconds (s_world s)) (intent (step_inputs_of (step_applied s))) ch =
      move_character (w_dt_seconds (s_world s)) (tick_direction s (ch_player_id ch)) ch"
    if "ch \<in> set (w_characters (s_world s))" for ch
  proof -
    have "ch_player_id ch \<in> set (s_entity_spawn_order s)" unfolding pl[symmetric] using that by simp
    then show ?thesis by (simp add: moved_def intent_applied[OF dist])
  qed
  then show "w_characters (s_world s') =
      map (\<lambda>ch. move_character (w_dt_seconds (s_world s)) (tick_direction s (ch_player_id ch)) ch)
        (w_characters (s_world s))"
    by (simp add: step_Done(1)[OF dist step] step_world_def moved)
qed

section \<open>Bounds\<close>

lemma unit_vec2_finite: "unit_vec2 d \<Longrightarrow> finite_vec2 d"
  using mag_le_finite[OF _ f64_one_simps(1)] by (simp add: unit_vec2_def finite_vec2_def)

lemma tick_direction_unit:
  assumes "buffer_inv c s" and "intents_inv s"
  shows "unit_vec2 (tick_direction s q)"
proof -
  have "unit_vec2 d" if "hm_get (s_last_known_intent s) q = Some d" for d
    using assms(2) that unfolding intents_inv_def by blast
  then show ?thesis
    unfolding applied_of_direction[symmetric]
    using assms(1) by (intro applied_of_unit) (simp_all add: buffer_inv_def)
qed

text \<open>
  The bounds are a second invariant on top of the first: a transition system of their own whose
  states carry both.
\<close>

definition bounded_inv :: "profile \<Rightarrow> ServerConfig \<Rightarrow> Server \<Rightarrow> bool" where
  "bounded_inv p c s \<longleftrightarrow> running_inv p c s \<and>
     (p = Dev \<or> length (s_entity_spawn_order s) \<le> 255 \<longrightarrow> world_bounded (s_world s))"

lemma spawn_character_bounded:
  "spawn_character p w q = Done (w', e) \<Longrightarrow> world_bounded w \<Longrightarrow> world_bounded w'"
  by (auto simp: spawn_character_def Let_def outcome_simps world_bounded_def Character_new_bounded)

lemma step_bounded:
  assumes c: "config_ok c" and core: "server_core c s" and step: "step p enc s = Done (s', snap, fl, bs)"
    and b: "world_bounded (s_world s)"
  shows "world_bounded (s_world s')"
proof -
  have inv: "players_inv c s" "buffer_inv c s" "intents_inv s" using core by (simp_all add: server_core_def)
  have wf: "world_wf (s_world s)" using inv(1) by (simp add: players_inv_def)
  note unit = unit_vec2_finite[OF tick_direction_unit[OF inv(2,3)]]
  show ?thesis
    using b move_character_bounded[OF dt_bounds(1,3)[OF wf] unit]
    by (auto simp: world_bounded_def step_characters(1)[OF c inv(1) step])
qed

lemma bounded_serve:
  assumes inv: "bounded_inv p c s" and serve: "serve p enc s e = Done s'"
  shows "bounded_inv p c s'"
proof -
  have run: "running_inv p c s" using inv by (simp add: bounded_inv_def)
  have "world_bounded (s_world s')" if "p = Dev \<or> length (s_entity_spawn_order s') \<le> 255"
  proof -
    have small: "p = Dev \<or> length (s_entity_spawn_order s) \<le> 255"
      using that serve_spawn_order[OF serve] by auto
    have core: "config_ok c" "server_core c s" and b: "world_bounded (s_world s)"
      using inv small by (auto simp: bounded_inv_def running_inv_def server_inv_def)
    show ?thesis
    proof (cases e)
      case EvJoin
      then show ?thesis
        using serve b spawn_character_bounded by (auto simp: outcome_simps joined_def elim!: join_Done)
    next
      case (EvInput sid i)
      then show ?thesis using serve b receive_input_frame by (fastforce simp: outcome_simps)
    next
      case (EvLeave sid)
      then show ?thesis using serve b by (auto simp: disconnect_session_def split: option.split)
    next
      case EvStep
      then show ?thesis
        using serve b step_bounded[OF core] by (auto simp: outcome_simps split: if_splits)
    next
      case (EvFingerprint f)
      then show ?thesis using serve b by (auto simp: server_set_build_fingerprint_def)
    qed
  qed
  then show ?thesis using running_inv_serve[OF run serve] by (simp add: bounded_inv_def)
qed

interpretation bounded: transition_system "serve p enc" "server_start c" "bounded_inv p c"
  for p enc c
proof unfold_locales
  show "bounded_inv p c s" if "server_start c s" for s
  proof -
    have "w_characters (s_world s) = []"
      using that
      by (auto simp: server_start_def Server_new_def Let_def outcome_simps World_new_def split: if_splits)
    then show ?thesis
      using server.start_inv[OF that] by (simp add: bounded_inv_def world_bounded_def)
  qed
qed (rule bounded_serve)

lemma server_reachable_bounded:
  "server_reachable p enc c s \<Longrightarrow> p = Dev \<or> length (s_entity_spawn_order s) \<le> 255 \<Longrightarrow>
     world_bounded (s_world s)"
  using bounded.reachable_inv unfolding server_reachable_run bounded_inv_def by blast

section \<open>Rest and coasting\<close>

lemma departed_direction: "departed q d s \<Longrightarrow> tick_direction s q = d"
  using departed_applies[of q d s "w_tick (s_world s)"] by (simp add: applied_of_direction)

lemma same_vec2_trans: "same_vec2 u v \<Longrightarrow> same_vec2 v w \<Longrightarrow> same_vec2 u w"
  unfolding same_vec2_def same_f64_def canonicalize_eq_iff[symmetric] by simp

lemma same_vec2_refl [simp]: "same_vec2 u u"
  using canonicalize_eq_iff[of "fst u" "fst u"] canonicalize_eq_iff[of "snd u" "snd u"]
  by (simp add: same_vec2_def same_f64_def)

text \<open>The departed player's character stands at \<open>pos\<close>, and since tick \<open>t\<close> with zero velocity.\<close>

definition at_rest :: "PlayerId \<Rightarrow> vec2 \<Rightarrow> Tick \<Rightarrow> Server \<Rightarrow> bool" where
  "at_rest q pos t s \<longleftrightarrow> departed q (f64_zero, f64_zero) s \<and> world_bounded (s_world s) \<and>
     (\<forall>ch \<in> set (w_characters (s_world s)). ch_player_id ch = q \<longrightarrow>
        same_vec2 (ch_position ch) pos \<and>
        (w_tick (s_world s) \<noteq> t \<longrightarrow> ch_velocity ch = (f64_zero, f64_zero)))"

lemma spawned_characters:
  "spawn_character p w q = Done (w', e) \<Longrightarrow> w_tick w' = w_tick w \<and>
     set (w_characters w') = insert (Character_new e q) (set (w_characters w))"
  by (auto simp: spawn_character_def Let_def outcome_simps)

lemma at_rest_serve:
  assumes c: "config_ok c" "s_config s = c" and core: "server_core c s" and core': "server_core c s'"
    and rest: "at_rest q pos t s" and serve: "serve p enc s e = Done s'"
  shows "at_rest q pos t s'"
proof -
  have inv: "players_inv c s" "intents_inv s" using core by (simp_all add: server_core_def)
  have wf: "world_wf (s_world s)" using inv(1) by (simp add: players_inv_def)
  have dep: "departed q (f64_zero, f64_zero) s" using rest by (simp add: at_rest_def)
  note dep' = departed_serve[OF c core core' dep serve]
  note same = dep' rest serve
  show ?thesis
  proof (cases e)
    case EvJoin
    then obtain wel where "join p s = Done (s', wel)" using serve by (auto simp: outcome_simps)
    then obtain pid w eid where j: "s' = joined s pid w eid" "spawn_character p (s_world s) pid = Done (w, eid)"
      by (rule join_Done)
    have "q \<in> set (s_entity_spawn_order s)" using dep inv(2) by (auto simp: departed_def intents_inv_def)
    moreover have "distinct (s_entity_spawn_order s')"
      using core' by (intro core_distinct[OF c(1)]) (simp add: server_core_def)
    ultimately have "pid \<noteq> q" using j(1) by (auto simp: joined_def)
    then show ?thesis
      using dep' rest spawn_character_bounded[OF j(2)] spawned_characters[OF j(2)]
      by (auto simp: at_rest_def j(1) joined_def Character_new_def)
  next
    case (EvInput sid i)
    then show ?thesis using same receive_input_frame by (fastforce simp: outcome_simps at_rest_def)
  next
    case (EvLeave sid)
    then have "s_world s' = s_world s"
      using serve by (auto simp: disconnect_session_def split: option.split)
    then show ?thesis using dep' rest by (simp add: at_rest_def)
  next
    case EvStep
    show ?thesis
    proof (cases "should_end_match s = None")
      case True
      then obtain snap fl bs where st: "step p enc s = Done (s', snap, fl, bs)"
        using serve EvStep by (auto simp: outcome_simps)
      have b: "world_bounded (s_world s)" using rest by (simp add: at_rest_def)
      have "same_vec2 (ch_position (move_character (w_dt_seconds (s_world s)) (f64_zero, f64_zero) ch)) pos \<and>
          ch_velocity (move_character (w_dt_seconds (s_world s)) (f64_zero, f64_zero) ch) = (f64_zero, f64_zero)"
        if ch: "ch \<in> set (w_characters (s_world s))" "ch_player_id ch = q" for ch
      proof -
        have "finite_vec2 (ch_position ch)" using b ch(1) by (auto simp: world_bounded_def character_bounded_def)
        moreover have "same_vec2 (ch_position ch) pos" using rest ch by (simp add: at_rest_def)
        ultimately show ?thesis using zero_motion[OF wf] same_vec2_trans by blast
      qed
      then show ?thesis
        using dep' step_bounded[OF c(1) core st b] departed_direction[OF dep]
        by (auto simp: at_rest_def step_characters(1)[OF c(1) inv(1) st])
    qed (use serve EvStep rest in auto)
  next
    case (EvFingerprint f)
    then show ?thesis using same by (auto simp: at_rest_def server_set_build_fingerprint_def)
  qed
qed

end
