(* ===== verification/ServerReplay.thy ===== *)
theory ServerReplay
  imports ServerProps
begin

text \<open>
  The server as a producer of replays: what its recorder holds after a run in which every join
  precedes the first tick, why the artifact then verifies, and why an artifact cannot verify
  when a client joined later.
\<close>

section \<open>Playing recorded inputs\<close>

lemma play_snoc: "play f (ts @ [t]) w = step_world (f t) (play f ts w)"
  by (simp add: play_def)

lemma play_cong: "(\<And>t. t \<in> set ts \<Longrightarrow> f t = g t) \<Longrightarrow> play f ts w = play g ts w"
  unfolding play_def by (rule fold_cong) simp_all

lemma inputs_at_before:
  "\<forall>a \<in> set bs. ai_tick a \<noteq> t \<Longrightarrow> inputs_at (as @ bs) t = inputs_at as t"
  by (simp add: inputs_at_def filter_False)

lemma inputs_at_now:
  assumes "\<forall>a \<in> set as. ai_tick a \<noteq> t" and "\<forall>a \<in> set bs. ai_tick a = t"
  shows "inputs_at (as @ bs) t = step_inputs_of bs"
  using assms by (simp add: inputs_at_def step_inputs_of_def filter_False)

lemma complete_stream_snoc:
  assumes all: "complete_stream ps t as" and new: "map ai_player_id bs = ps" "\<forall>a \<in> set bs. ai_tick a = t"
    and ps: "distinct ps" and tick: "unat (t + 1) = unat t + 1"
  shows "complete_stream ps (t + 1) (as @ bs)"
proof -
  have less: "u < t + 1 \<longleftrightarrow> u < t \<or> u = t" for u
    using tick by (auto simp: word_less_nat_alt word_unat_eq_iff)
  have old: "filter (\<lambda>a. ai_player_id a = q \<and> ai_tick a = u) bs = []" if "u < t" for q u
    using new(2) that by (auto simp: filter_empty_conv)
  have none: "filter (\<lambda>a. ai_player_id a = q \<and> ai_tick a = t) as = []" for q
    using all by (auto simp: complete_stream_def filter_empty_conv)
  have "length (filter (\<lambda>a. ai_player_id a = q \<and> ai_tick a = t) bs) = 1" if "q \<in> set ps" for q
  proof -
    have "filter (\<lambda>a. ai_player_id a = q \<and> ai_tick a = t) bs = filter (\<lambda>a. ai_player_id a = q) bs"
      using new(2) by (intro filter_cong) auto
    moreover have "length (filter (\<lambda>a. ai_player_id a = q) bs) = length (filter (\<lambda>r. r = q) ps)"
      by (simp add: new(1)[symmetric] filter_map comp_def)
    moreover have "filter (\<lambda>r. r = q) ps = [q]" using ps that by (induction ps) (auto simp: filter_empty_conv)
    ultimately show ?thesis by simp
  qed
  then show ?thesis
    using all new old none by (auto simp: complete_stream_def less)
qed

section \<open>A replayable server\<close>

definition initial_world :: "Server \<Rightarrow> World" where
  "initial_world s =
     spawned (fresh_world (sc_seed (s_config s)) (sc_tick_rate_hz (s_config s))) (s_entity_spawn_order s)"

text \<open>
  The current world is the initial one, played forward with the recorded inputs, which are complete.
\<close>

definition replayable :: "Server \<Rightarrow> bool" where
  "replayable s \<longleftrightarrow>
     s_world s = play (inputs_at (rr_inputs (s_replay_recorder s))) (tick_range 0 (w_tick (s_world s)))
       (initial_world s) \<and>
     complete_stream (s_entity_spawn_order s) (w_tick (s_world s)) (rr_inputs (s_replay_recorder s)) \<and>
     (s_baseline_recorded s \<longrightarrow>
        rr_initial_baseline (s_replay_recorder s) = Some (baseline (initial_world s)))"

lemma replayable_start:
  assumes "server_start c s"
  shows "replayable s"
  using assms
  by (auto simp: server_start_def Server_new_def Let_def outcome_simps replayable_def initial_world_def
      World_new_eq complete_stream_def ReplayRecorder_new_def tick_range_def split: if_splits)

lemma replayable_joined:
  assumes c: "config_ok c" "s_config s = c" and core: "server_core c s" and rep: "replayable s"
    and first: "\<not> s_baseline_recorded s" and sp: "spawn_character p (s_world s) pid = Done (w, eid)"
  shows "replayable (joined s pid w eid)"
proof -
  have inv: "players_inv c s" and rec: "recorder_inv c s" using core by (simp_all add: server_core_def)
  have t0: "w_tick (s_world s) = 0" and none: "rr_inputs (s_replay_recorder s) = []"
    using rec first by (simp_all add: recorder_inv_def)
  have wf: "world_wf (s_world s)" and pl: "w_players (s_world s) = s_entity_spawn_order s"
    using inv by (simp_all add: players_inv_def)
  have "length (w_characters (s_world s)) = length (s_entity_spawn_order s)" using pl by (metis length_map)
  then have fits: "length (w_characters (s_world s)) + 2 < 2 ^ 64" using inv by (simp add: players_inv_def)
  have world: "s_world s = initial_world s" using rep t0 by (simp add: replayable_def tick_range_def)
  have "w = spawned (s_world s) [pid]" using sp spawn_character_eq[OF wf fits, of p pid] by auto
  then have w: "w = initial_world (joined s pid w eid)"
    unfolding world by (simp add: initial_world_def joined_def spawned_append)
  have "w_tick w = 0" using spawn_character_wf(4)[OF wf fits sp] t0 by simp
  then show ?thesis
    using w first none
    by (simp add: replayable_def joined_def complete_stream_def tick_range_def record_spawn_def)
qed

lemma replayable_step:
  assumes c: "config_ok c" "s_config s = c" and core: "server_core c s" and rep: "replayable s"
    and run: "should_end_match s = None" and step: "step p enc s = Done (s', snap, fl, bs)"
  shows "replayable s'"
proof -
  have inv: "players_inv c s" and rec: "recorder_inv c s" using core by (simp_all add: server_core_def)
  note dist = core_distinct[OF c(1) inv] note after = step_Done[OF dist step]
  let ?t = "w_tick (s_world s)" and ?as = "rr_inputs (s_replay_recorder s)"
  have lt: "?t < sc_match_duration_ticks c" using run c(2) by (simp add: running_iff)
  note tick = tick_Suc[OF lt]
  have init: "initial_world s' = initial_world s" by (simp add: initial_world_def after(6,12))
  have old: "\<forall>a \<in> set ?as. ai_tick a < ?t" using rec by (simp add: recorder_inv_def)
  have new: "\<forall>a \<in> set (step_applied s). ai_tick a = ?t" by (simp add: step_applied_def)
  have range: "tick_range 0 (?t + 1) = tick_range 0 ?t @ [?t]"
    by (rule tick_range_snoc) (use tick_less_max[OF lt] in simp_all)
  have now: "inputs_at (?as @ step_applied s) ?t = step_inputs_of (step_applied s)"
    using old new by (intro inputs_at_now) auto
  have "inputs_at (?as @ step_applied s) u = inputs_at ?as u" if "u \<in> set (tick_range 0 ?t)" for u
    using that new by (intro inputs_at_before) (auto simp: set_tick_range)
  then have past: "play (inputs_at (?as @ step_applied s)) (tick_range 0 ?t) w =
      play (inputs_at ?as) (tick_range 0 ?t) w" for w
    by (rule play_cong)
  have world: "s_world s = play (inputs_at ?as) (tick_range 0 ?t) (initial_world s)"
    and stream: "complete_stream (s_entity_spawn_order s) ?t ?as"
    and base: "s_baseline_recorded s \<longrightarrow>
      rr_initial_baseline (s_replay_recorder s) = Some (baseline (initial_world s))"
    using rep unfolding replayable_def by blast+
  have first: "s_world s = initial_world s" if "\<not> s_baseline_recorded s"
  proof -
    have "?t = 0" using rec that by (simp add: recorder_inv_def)
    then show ?thesis using world by (simp add: tick_range_def)
  qed
  have "s_world s' = play (inputs_at (?as @ step_applied s)) (tick_range 0 (?t + 1)) (initial_world s)"
    unfolding range play_snoc past now after(1) using world by simp
  moreover have "complete_stream (s_entity_spawn_order s) (?t + 1) (?as @ step_applied s)"
    by (rule complete_stream_snoc[OF stream _ new dist tick(1)]) (simp add: step_applied_def comp_def)
  ultimately show ?thesis
    unfolding replayable_def init after(2,12,17,18) using base first by simp
qed

lemma replayable_serve:
  assumes c: "config_ok c" "s_config s = c" and core: "server_core c s" and rep: "replayable s"
    and serve: "serve p enc s e = Done s'" and early: "e = EvJoin \<longrightarrow> \<not> s_baseline_recorded s"
  shows "replayable s'"
proof (cases e)
  case EvJoin
  then obtain wel where "join p s = Done (s', wel)" using serve by (auto simp: outcome_simps)
  then obtain pid w eid where "s' = joined s pid w eid" "spawn_character p (s_world s) pid = Done (w, eid)"
    by (rule join_Done)
  then show ?thesis using replayable_joined[OF c core rep] early EvJoin by blast
next
  case (EvInput sid i)
  then obtain r where "receive_input p s sid i = Done (s', r)" using serve by (auto simp: outcome_simps)
  then show ?thesis using rep receive_input_frame by (fastforce simp: replayable_def initial_world_def)
next
  case (EvLeave sid)
  then show ?thesis
    using serve rep by (auto simp: replayable_def initial_world_def)
next
  case EvStep
  then show ?thesis
    using serve rep replayable_step[OF c core rep] by (auto simp: outcome_simps split: if_splits)
next
  case (EvFingerprint f)
  then show ?thesis
    using serve rep
    by (auto simp: server_set_build_fingerprint_def recorder_set_build_fingerprint_def replayable_def
        initial_world_def)
qed

text \<open>A run in which nobody joins after the first tick.\<close>

fun joins_first :: "event list \<Rightarrow> bool" where
  "joins_first [] = True"
| "joins_first (EvStep # es) = (EvJoin \<notin> set es)"
| "joins_first (e # es) = joins_first es"

lemma serve_baseline_recorded:
  "serve p enc s e = Done s' \<Longrightarrow> e \<noteq> EvStep \<Longrightarrow> s_baseline_recorded s' = s_baseline_recorded s"
  by (cases e)
     (auto simp: outcome_simps joined_def disconnect_session_def server_set_build_fingerprint_def
       split: option.splits if_splits elim!: join_Done dest: receive_input_frame)

lemma replayable_run:
  assumes "running_inv p c s" and "replayable s" and "\<not> s_baseline_recorded s"
    and "run_events (serve p enc) s es = Done s'" and "joins_first es"
    and "p = Dev \<or> length (s_entity_spawn_order s') \<le> 255"
  shows "replayable s'"
  using assms
proof (induction es arbitrary: s)
  case (Cons e es)
  from Cons.prems(4) obtain u where u: "serve p enc s e = Done u" "run_events (serve p enc) u es = Done s'"
    by (auto simp: outcome_simps)
  note inv_u = running_inv_serve[OF Cons.prems(1) u(1)]
  show ?case
  proof (cases "e = EvStep")
    case True
    then have noj: "set (e # es) \<subseteq> - {EvJoin}" using Cons.prems(5) by auto
    show ?thesis
      by (rule run_keeps[where P = replayable and E = "- {EvJoin}",
            OF _ Cons.prems(1,2,4) noj Cons.prems(6)])
         (auto intro: replayable_serve)
  next
    case False
    then have "joins_first es" using Cons.prems(5) by (cases e) simp_all
    moreover have "replayable u"
    proof -
      have "length (s_entity_spawn_order u) \<le> length (s_entity_spawn_order s')"
        by (rule run_spawn_order[OF u(2)])
      then have "p = Dev \<or> length (s_entity_spawn_order s) \<le> 255"
        using Cons.prems(6) serve_spawn_order[OF u(1)] by auto
      then show ?thesis
        using Cons.prems(1-3) replayable_serve[OF _ _ _ _ u(1)]
        by (auto simp: running_inv_def server_inv_def)
    qed
    moreover have "\<not> s_baseline_recorded u" using serve_baseline_recorded[OF u(1) False] Cons.prems(3) by simp
    ultimately show ?thesis using Cons.IH inv_u u(2) Cons.prems(6) by blast
  qed
qed simp

lemma replayable_verifies:
  assumes c: "config_ok c" "s_config s = c" and core: "server_core c s" and rep: "replayable s"
    and rec: "s_baseline_recorded s" and build: "build_compatible (s_build_fingerprint s) opts"
  shows "verify_replay q (server_finalize s r) opts = Done (Inr ())"
proof -
  have inv: "players_inv c s" and ri: "recorder_inv c s" using core by (simp_all add: server_core_def)
  let ?r = "s_replay_recorder s" and ?ps = "s_entity_spawn_order s" and ?t = "w_tick (s_world s)"
  have conf: "rc_seed (rr_config ?r) = sc_seed c" "rc_tick_rate_hz (rr_config ?r) = sc_tick_rate_hz c"
    "rr_build_fingerprint ?r = s_build_fingerprint s"
    using ri by (simp_all add: recorder_inv_def)
  have faithful: "faithful_recording ?r ?ps ?t"
    using ri rep rec c(2) by (simp add: faithful_recording_def recorder_inv_def replayable_def initial_world_def)
  have "s_world s = play (inputs_at (rr_inputs ?r)) (tick_range 0 ?t) (initial_world s)"
    using rep by (simp add: replayable_def)
  then have played: "played ?r ?ps ?t = s_world s"
    by (simp add: played_def initial_world_def conf c(2))
  have "world_wf (s_world s)" "w_tick_rate_hz (s_world s) = sc_tick_rate_hz c"
    using inv by (simp_all add: players_inv_def)
  then have "0 < sc_tick_rate_hz c" by (auto simp: world_wf_def)
  then show ?thesis
    using faithful_recording_verifies[OF faithful core_distinct[OF c(1) inv], of opts q] build
    by (simp add: conf played server_finalize_def)
qed

section \<open>Late joins\<close>

definition late_joiner :: "Server \<Rightarrow> bool" where
  "late_joiner s \<longleftrightarrow> 0 < w_tick (s_world s) \<and>
     (\<exists>q \<in> set (s_entity_spawn_order s). \<forall>a \<in> set (rr_inputs (s_replay_recorder s)).
        ai_player_id a = q \<longrightarrow> ai_tick a \<noteq> 0)"

lemma late_joiner_serve:
  assumes c: "config_ok c" "s_config s = c" and core: "server_core c s"
    and late: "late_joiner s" and serve: "serve p enc s e = Done s'"
  shows "late_joiner s'"
proof (cases e)
  case EvJoin
  then obtain wel where "join p s = Done (s', wel)" using serve by (auto simp: outcome_simps)
  then obtain pid w eid where j: "s' = joined s pid w eid" "spawn_character p (s_world s) pid = Done (w, eid)"
    by (rule join_Done)
  have "w_tick w = w_tick (s_world s)" using j(2) by (auto simp: spawn_character_def Let_def outcome_simps)
  then show ?thesis using late by (auto simp: j(1) joined_def late_joiner_def record_spawn_def)
next
  case (EvInput sid i)
  then obtain r where "receive_input p s sid i = Done (s', r)" using serve by (auto simp: outcome_simps)
  then show ?thesis using late receive_input_frame by (fastforce simp: late_joiner_def)
next
  case (EvLeave sid)
  then have "s' = disconnect_session s sid" using serve by simp
  then show ?thesis using late by (simp add: late_joiner_def)
next
  case EvStep
  show ?thesis
  proof (cases "should_end_match s = None")
    case True
    then obtain snap fl bs where st: "step p enc s = Done (s', snap, fl, bs)"
      using serve EvStep by (auto simp: outcome_simps)
    have inv: "players_inv c s" using core by (simp add: server_core_def)
    note after = step_Done[OF core_distinct[OF c(1) inv] st]
    have "w_tick (s_world s) < sc_match_duration_ticks c" using True c(2) by (simp add: running_iff)
    then have "0 < w_tick (s_world s) + 1" using tick_Suc(1) by (simp add: word_less_nat_alt)
    moreover have "\<forall>a \<in> set (step_applied s). ai_tick a \<noteq> 0"
      using late by (auto simp: step_applied_def late_joiner_def)
    ultimately show ?thesis using late by (auto simp: late_joiner_def after(2,12,18))
  qed (use serve EvStep late in auto)
next
  case (EvFingerprint f)
  then have "s' = server_set_build_fingerprint f s" using serve by simp
  then show ?thesis
    using late by (simp add: server_set_build_fingerprint_def recorder_set_build_fingerprint_def late_joiner_def)
qed

lemma late_joiner_rejected:
  assumes core: "server_core c s" and late: "late_joiner s" and rec: "s_baseline_recorded s"
  shows "\<exists>e. verify_replay p (server_finalize s r) opts = Done (Inl e)"
proof -
  let ?a = "server_finalize s r"
  have ri: "recorder_inv c s" using core by (simp add: server_core_def)
  obtain q where q: "q \<in> set (s_entity_spawn_order s)"
    "\<forall>a \<in> set (rr_inputs (s_replay_recorder s)). ai_player_id a = q \<longrightarrow> ai_tick a \<noteq> 0"
    and t: "0 < w_tick (s_world s)"
    using late by (auto simp: late_joiner_def)
  have "artifact_players ?a = map ucast (map fst (number_from 1 (s_entity_spawn_order s)))"
    using ri by (simp add: artifact_players_def server_finalize_def recorder_finalize_def recorder_inv_def
        split_def comp_def)
  then have mem: "ucast q \<in> set (artifact_players ?a)" using q(1) by (simp only: map_fst_number_from) simp
  have "input_count ?a (ucast q) 0 =
      length (filter (\<lambda>a. ai_player_id a = q \<and> ai_tick a = 0) (rr_inputs (s_replay_recorder s)))"
    by (simp add: input_count_def server_finalize_def filter_map comp_def AppliedInputProto_from_def)
  also have "\<dots> = 0" using q(2) by (auto simp: filter_empty_conv)
  finally have zero: "input_count ?a (ucast q) 0 = 0" .
  have "\<not> stream_valid ?a b" if "ra_initial_baseline ?a = Some b" for b
  proof
    have "jb_tick b = 0"
      using that ri rec by (auto simp: server_finalize_def recorder_inv_def JoinBaseline_from_def)
    moreover assume "stream_valid ?a b"
    ultimately have "input_count ?a (ucast q) 0 = 1"
      using mem t by (auto simp: stream_valid_def server_finalize_def)
    with zero show False by simp
  qed
  then obtain e where "validate_input_stream ?a = Inl e"
    using validate_input_stream_iff[of ?a] by (cases "validate_input_stream ?a") auto
  then show ?thesis by (cases "check_build ?a opts") (auto simp: verify_replay_def)
qed

lemma serve_keeps_recorded:
  assumes "config_ok c" and "server_core c s" and "s_baseline_recorded s" and "serve p enc s e = Done s'"
  shows "s_baseline_recorded s'"
proof (cases "e = EvStep")
  case False
  with assms(3,4) serve_baseline_recorded show ?thesis by blast
next
  case True
  have "players_inv c s" using assms(2) by (simp add: server_core_def)
  from step_Done(17)[OF core_distinct[OF assms(1) this]] assms(3,4) True
  show ?thesis by (auto simp: outcome_simps split: if_splits)
qed

lemma joined_late:
  assumes run: "running_inv p c s" and t: "0 < w_tick (s_world s)" and j: "join p s = Done (u, wel)"
    and small: "p = Dev \<or> length (s_entity_spawn_order u) \<le> 255"
  shows "late_joiner u \<and> s_baseline_recorded u"
proof -
  obtain pid w eid where u: "u = joined s pid w eid" "spawn_character p (s_world s) pid = Done (w, eid)"
    by (rule join_Done[OF j])
  have "p = Dev \<or> length (s_entity_spawn_order s) \<le> 255" using small by (auto simp: u(1) joined_def)
  then have c: "config_ok c" and core: "recorder_inv c s"
    using run by (auto simp: running_inv_def server_inv_def server_core_def)
  have serve: "serve p (\<lambda>_. []) s EvJoin = Done u" using j by simp
  have "server_core c u"
    using running_inv_serve[OF run serve] small by (auto simp: running_inv_def server_inv_def)
  then have "distinct (s_entity_spawn_order u)"
    by (intro core_distinct[OF c]) (simp add: server_core_def)
  then have fresh: "pid \<notin> set (s_entity_spawn_order s)" by (simp add: u(1) joined_def)
  have known: "\<forall>a \<in> set (rr_inputs (s_replay_recorder s)). ai_player_id a \<in> set (s_entity_spawn_order s)"
    and rec: "s_baseline_recorded s"
    using core t by (auto simp: recorder_inv_def split: if_splits)
  have "w_tick w = w_tick (s_world s)" using u(2) by (auto simp: spawn_character_def Let_def outcome_simps)
  then show ?thesis
    using t known fresh rec by (auto simp: u(1) joined_def late_joiner_def record_spawn_def)
qed

end
