(* ===== verification/ServerDemo.thy ===== *)
theory ServerDemo
  imports ServerMotion ServerReplay
begin

text \<open>
  Concrete runs of the server, for the witnesses of its properties: one client of a
  default-configured server, before and after the first tick, with and without buffered input; and
  a server that has been joined many times.
\<close>

section \<open>A server with one client\<close>

abbreviation "dflt \<equiv> ServerConfig_default"

lemmas dflt_simps =
  ServerConfig_default_def TICK_RATE_HZ_def MAX_FUTURE_TICKS_def INPUT_LEAD_TICKS_def
  INPUT_RATE_LIMIT_PER_SEC_def MATCH_DURATION_TICKS_def CONNECT_TIMEOUT_MS_def DEFAULT_MAX_SESSIONS_def

lemma dflt_ok: "config_ok dflt"
  by (simp add: config_ok_def dflt_simps)

lemma dflt_start: "\<exists>s. server_start dflt s"
proof -
  have "\<exists>b. InputBuffer_new \<lparr>vc_max_future_ticks = 60, vc_input_rate_limit_per_sec = 120, vc_tick_rate_hz = 30\<rparr>
      = Done b"
    by (simp add: InputBuffer_new_def div_ceil_def)
  then show ?thesis
    using dflt_ok
    by (auto simp: server_start_def Server_new_def Let_def World_new_def dflt_simps)
qed

lemma dflt_start_new:
  assumes "server_start dflt s"
  shows "hm_len (s_sessions s) = 0" "s_entity_spawn_order s = []" "s_next_session_id s = 1"
    "s_baseline_recorded s = False" "w_tick (s_world s) = 0" "s_input_buffer s = empty_buffer 4"
    "s_build_fingerprint s = None"
  using assms
  by (auto simp: server_start_def Server_new_def Let_def outcome_simps hm_len_def World_new_def
      InputBuffer_new_def div_ceil_def dflt_simps empty_buffer_def ValidationConfig_default_def split: if_splits)

lemma one_client:
  obtains s0 s where "server_start dflt s0" "serve p enc s0 EvJoin = Done s" "server_reachable p enc dflt s"
    "hm_get (s_sessions s) 1 = Some (Session_new 1 0 1)" "s_entity_spawn_order s = [0]"
    "\<not> s_baseline_recorded s" "w_tick (s_world s) = 0" "s_input_buffer s = empty_buffer 4"
    "s_config s = dflt" "s_build_fingerprint s = None" "s_next_player_id s = 1" "hm_len (s_sessions s) = 1"
proof -
  obtain s0 where s0: "server_start dflt s0" using dflt_start by blast
  note new = dflt_start_new[OF s0] and core = server_start_core[OF s0]
  have inv: "players_inv dflt s0" using core(2) by (simp add: server_core_def)
  obtain s wel where j: "join p s0 = Done (s, wel)"
    using join_total[OF dflt_ok core, of p] new by (auto simp: dflt_simps)
  then obtain pid w eid where s: "s = joined s0 pid w eid" "spawn_character p (s_world s0) pid = Done (w, eid)"
    "assign_player_id (s_config s0) (s_next_player_id s0) = Done pid" by (rule join_Done)
  have pid: "pid = 0"
    using s(3) inv core(1) new(2) by (simp add: assign_player_id_def players_inv_def dflt_simps)
  have pid0: "assign_player_id dflt (s_next_player_id s0) = Done pid" using s(3) core(1) by simp
  have room: "length (s_entity_spawn_order s0) < 255" using new(2) by simp
  note after = players_inv_joined(2,3)[OF dflt_ok core(1) inv room pid0 s(2)]
  have serve: "serve p enc s0 EvJoin = Done s" by (simp add: j)
  have "server_reachable p enc dflt s"
    using server_reachable.move[OF server_reachable.start[OF s0], of p enc EvJoin s] serve
    by (simp add: server_step_iff)
  then have reach: "server_reachable p enc dflt s" .
  have "s_next_player_id s0 = 0" using inv new(2) by (simp add: players_inv_def)
  then have "hm_get (s_sessions s) 1 = Some (Session_new 1 0 1)" "s_entity_spawn_order s = [0]"
    "\<not> s_baseline_recorded s" "w_tick (s_world s) = 0" "s_input_buffer s = empty_buffer 4"
    "s_config s = dflt" "s_build_fingerprint s = None" "s_next_player_id s = 1"
    using s(1) new after pid core(1) by (simp_all add: joined_def)
  moreover have "hm_len (s_sessions s) = 1"
    using new(1) by (simp add: s(1) joined_def hm_len_def hm_insert_def)
  ultimately show ?thesis by (rule that[OF s0 serve reach])
qed

lemma dflt_running:
  "s_config s = dflt \<Longrightarrow> should_end_match s = None \<longleftrightarrow> w_tick (s_world s) < 1800"
  by (simp add: running_iff dflt_simps)

text \<open>The client's first input, for tick 1, and the tick that precedes it.\<close>

lemma one_client_moving:
  obtains s where "server_reachable p enc dflt s" "hm_get (s_session_players s) 1 = Some 0"
    "hm_get (s_sessions s) 1 = Some (Session_new 1 0 1)"
    "w_tick (s_world s) = 1" "s_entity_spawn_order s = [0]" "s_config s = dflt"
    "slot (s_input_buffer s) 0 1 = Some (first_entry (cmd 1 7 f64_one 0))"
    "\<forall>t. t \<noteq> 1 \<longrightarrow> slot (s_input_buffer s) 0 t = None" "hm_len (s_sessions s) = 1"
    "s_next_player_id s = 1"
proof -
  let ?i = "cmd 1 7 f64_one 0" and ?b = "snd (try_buffer (empty_buffer 4) 0 (cmd 1 7 f64_one 0))"
  obtain s0 s where s: "server_reachable p enc dflt s" "hm_get (s_sessions s) 1 = Some (Session_new 1 0 1)"
    "s_entity_spawn_order s = [0]" "w_tick (s_world s) = 0" "s_input_buffer s = empty_buffer 4"
    "s_config s = dflt" "s_next_player_id s = 1" "hm_len (s_sessions s) = 1"
    by (rule one_client)
  have small: "p = Dev \<or> length (s_entity_spawn_order s) \<le> 255" using s(3) by simp
  note core = server_reachable_core[OF s(1) small]
  have ses: "hm_get (s_session_players s) 1 = Some 0"
    using core(3) s(2) by (simp add: server_core_def sessions_inv_def Session_new_def)
  obtain s1 r where recv: "receive_input p s 1 ?i = Done (s1, r)"
    using receive_input_total[OF core(1,3)] by blast
  have "finite_vec2 (vec2_of [f64_one, 0])"
    by (simp add: finite_vec2_def vec2_of_def f64_read_eval f64_one_def)
  then have acc: "is_accepted r"
    using receive_input_decision[OF core(1,3) recv] ses s(4,5) by (auto simp: dflt_simps)
  have s1: "s1 = s\<lparr>s_input_buffer := ?b\<rparr>"
    using recv acc by (rule receive_input_accepted) (use ses s(5) in simp)
  have reach1: "server_reachable p enc dflt s1"
    by (rule reachable_serve[OF s(1), of "EvInput 1 ?i"]) (simp add: recv)
  have small1: "p = Dev \<or> length (s_entity_spawn_order s1) \<le> 255" using s(3) s1 by simp
  note core1 = server_reachable_core[OF reach1 small1]
  have run: "should_end_match s1 = None" using dflt_running[OF core1(2)] s1 s(4) by simp
  obtain s2 snap fl bs where st: "step p enc s1 = Done (s2, snap, fl, bs)"
    using step_total[OF core1 run] by blast
  have reach2: "server_reachable p enc dflt s2"
    by (rule reachable_serve[OF reach1, of EvStep]) (simp add: run st)
  have inv1: "players_inv dflt s1" using core1(3) by (simp add: server_core_def)
  note after = step_Done[OF core_distinct[OF dflt_ok inv1] st]
  have wf: "buffer_wf ?b" by (rule slots.wf_offer) (simp add: buffer_wf_def empty_buffer_def)
  have tick: "w_tick (s_world s2) = 1" using after(2) s1 s(4) by simp
  have slots1: "slot ?b 0 t = (if t = 1 then Some (first_entry ?i) else None)" for t
    using slot_try_buffer[of "empty_buffer 4" 0 ?i] slots.slot_offer[of 0 t 0 ?i "empty_buffer 4"] by simp
  have "slot (s_input_buffer s2) 0 t = (if t = 1 then Some (first_entry ?i) else None)" for t
    unfolding after(14) tick using s1 s(3,4) wf stepped_buffer(1)[OF wf, where t = 0 and ps = "[0]" and t' = 1 and r = 0 and u = t]
    by (simp add: slots1)
  then show thesis
    using reach2 tick s1 s ses after(6,7,9,11,12) by (intro that[of s2]) simp_all
qed

text \<open>A server with room for many sessions, joined \<open>n\<close> times.\<close>

definition big_config :: ServerConfig where
  "big_config = dflt\<lparr>sc_max_sessions := 300\<rparr>"

lemma big_ok: "config_ok big_config"
  by (simp add: config_ok_def big_config_def dflt_simps)

lemma big_start: "\<exists>s. server_start big_config s \<and> s_entity_spawn_order s = [] \<and> s_sessions s = []"
proof -
  have "\<exists>b. InputBuffer_new \<lparr>vc_max_future_ticks = 60, vc_input_rate_limit_per_sec = 120, vc_tick_rate_hz = 30\<rparr>
      = Done b"
    by (simp add: InputBuffer_new_def div_ceil_def)
  then show ?thesis
    using big_ok
    by (auto simp: server_start_def Server_new_def Let_def World_new_def big_config_def dflt_simps)
qed

lemma many_clients:
  "n \<le> 255 \<Longrightarrow> \<exists>s. server_reachable p enc big_config s \<and> length (s_entity_spawn_order s) = n \<and>
     hm_len (s_sessions s) \<le> n"
proof (induction n)
  case 0
  then show ?case using big_start server_reachable.start by (fastforce simp: hm_len_def)
next
  case (Suc n)
  then obtain s where s: "server_reachable p enc big_config s" "length (s_entity_spawn_order s) = n"
    "hm_len (s_sessions s) \<le> n" by auto
  have small: "p = Dev \<or> length (s_entity_spawn_order s) \<le> 255" using s(2) Suc.prems by simp
  note core = server_reachable_core[OF s(1) small]
  obtain s' wel where j: "join p s = Done (s', wel)"
    using join_total[OF core, of p] s(2,3) Suc.prems by (auto simp: big_config_def dflt_simps)
  then obtain pid w eid where s': "s' = joined s pid w eid" by (rule join_Done)
  have wf: "hm_wf (s_sessions s)" using core(3) by (simp add: server_core_def sessions_inv_def)
  have "server_reachable p enc big_config s'"
    by (rule reachable_serve[OF s(1), of EvJoin]) (simp add: j)
  moreover have "hm_len (s_sessions s') \<le> Suc n"
    using s(3) by (simp add: s' joined_def hm.len_insert[OF wf])
  ultimately show ?case using s(2) by (intro exI[of _ s']) (simp add: s' joined_def)
qed

end
