(* ===== verification/ServerSpec.thy ===== *)
theory ServerSpec
  imports ServerDemo
begin

text \<open>
  Properties of the Server Edge. Each is stated of every reachable state of the server, or of every
  run of it; the witnesses apply them to a default-configured server that one client has joined.
\<close>

section \<open>Identity\<close>

text \<open>
  The session tables agree in every reachable state: a session is stored under its own id,
  which has been handed out; \<open>player_sessions\<close> and \<open>session_players\<close> are inverse to each other and
  cover exactly the connected sessions; and no two sessions control the same player.
\<close>

theorem session_tables_consistent:
  assumes "server_reachable p enc c s" and "p = Dev \<or> length (s_entity_spawn_order s) \<le> 255"
  shows "(\<forall>sid ses. hm_get (s_sessions s) sid = Some ses \<longrightarrow>
       ses_id ses = sid \<and> sid < s_next_session_id s \<and> ses_player_id ses \<in> set (s_entity_spawn_order s)) \<and>
    (\<forall>sid q. hm_get (s_session_players s) sid = Some q \<longleftrightarrow> hm_get (s_player_sessions s) q = Some sid) \<and>
    (\<forall>sid. hm_get (s_session_players s) sid = map_option ses_player_id (hm_get (s_sessions s) sid))"
proof -
  have inv: "sessions_inv s" using server_reachable_core(3)[OF assms] by (simp add: server_core_def)
  have stored: "\<forall>sid ses. hm_get (s_sessions s) sid = Some ses \<longrightarrow>
       ses_id ses = sid \<and> sid < s_next_session_id s \<and> ses_player_id ses \<in> set (s_entity_spawn_order s)"
    and players: "\<forall>sid. hm_get (s_session_players s) sid = map_option ses_player_id (hm_get (s_sessions s) sid)"
    using inv unfolding sessions_inv_def by blast+
  with stored players session_player_iff[OF inv] show ?thesis by blast
qed

theorem session_tables_consistent_witness:
  "\<exists>s. server_reachable Release (\<lambda>_. []) dflt s \<and> hm_get (s_sessions s) 1 = Some (Session_new 1 0 1) \<and>
     hm_get (s_player_sessions s) 0 = Some 1"
proof -
  obtain s0 s where s: "server_reachable Release (\<lambda>_. []) dflt s"
    "hm_get (s_sessions s) 1 = Some (Session_new 1 0 1)" "s_entity_spawn_order s = [0]"
    by (rule one_client)
  have small: "Release = Dev \<or> length (s_entity_spawn_order s) \<le> 255" using s(3) by simp
  note tables = session_tables_consistent[OF s(1) small]
  have "hm_get (s_session_players s) 1 = Some 0" using tables s by (simp add: Session_new_def)
  then have "hm_get (s_player_sessions s) 0 = Some 1" using tables by blast
  then show ?thesis using s by blast
qed

section \<open>Floors and inputs\<close>

text \<open>
  C15. The target tick floor of ADR-0006: in every reachable state the floor last emitted to each
  connected session is exactly the current tick plus the lead, whether it came with its welcome or
  with a snapshot, and nothing is kept for a session that has left.
\<close>

theorem floors_exact:
  assumes "server_reachable p enc c s" and "p = Dev \<or> length (s_entity_spawn_order s) \<le> 255"
  shows "hm_get (s_last_emitted_floor s) sid =
    (if hm_get (s_sessions s) sid = None then None
     else Some (w_tick (s_world s) + sc_input_lead_ticks c)) \<and>
    unat (w_tick (s_world s) + sc_input_lead_ticks c) =
      unat (w_tick (s_world s)) + unat (sc_input_lead_ticks c)"
proof -
  note core = server_reachable_core[OF assms]
  have le: "w_tick (s_world s) \<le> sc_match_duration_ticks c"
    using core(3) by (simp add: server_core_def players_inv_def)
  have "unat (w_tick (s_world s) + sc_input_lead_ticks c) =
      unat (w_tick (s_world s)) + unat (sc_input_lead_ticks c)"
    using core_no_wrap[OF core(1) le] by (intro unat_plus_fits) simp
  then show ?thesis using core(3) by (simp add: server_core_def floors_inv_def)
qed

theorem floors_exact_witness:
  "\<exists>s. server_reachable Dev (\<lambda>_. []) dflt s \<and> hm_get (s_last_emitted_floor s) 1 = Some 1"
proof -
  obtain s0 s where s: "server_reachable Dev (\<lambda>_. []) dflt s" "w_tick (s_world s) = 0"
    "hm_get (s_sessions s) 1 = Some (Session_new 1 0 1)"
    by (rule one_client)
  then show ?thesis using floors_exact[OF s(1), of 1] by (auto simp: dflt_simps)
qed

text \<open>
  C16. Which inputs a reachable server accepts: exactly those of a connected session whose direction
  has two finite components, whose tick lies between the session's floor (tick plus lead) and
  \<open>max_future_ticks\<close> ahead, and whose slot has not reached the rate limit. \<open>receive_input\<close> never
  panics, never answers that an input is late (the floor is checked first and is never below the
  tick), and changes no other slot than that of the session's own player at the input's tick.
\<close>

theorem input_decision:
  assumes "server_reachable p enc c s" and "p = Dev \<or> length (s_entity_spawn_order s) \<le> 255"
  shows "\<exists>s' r. receive_input p s sid i = Done (s', r) \<and>
    (is_accepted r \<longleftrightarrow> (\<exists>q. hm_get (s_session_players s) sid = Some q \<and>
       length (ic_move_dir i) = 2 \<and> finite_vec2 (vec2_of (ic_move_dir i)) \<and>
       w_tick (s_world s) + sc_input_lead_ticks c \<le> ic_tick i \<and>
       ic_tick i \<le> w_tick (s_world s) + sc_max_future_ticks c \<and>
       (case slot (s_input_buffer s) q (ic_tick i) of
          None \<Rightarrow> True | Some e \<Rightarrow> be_receive_count e < ib_per_tick_limit (s_input_buffer s)))) \<and>
    (\<not> is_accepted r \<longrightarrow> s' = s) \<and> (\<forall>a b. r \<noteq> DroppedLate a b) \<and>
    (\<forall>q t. slot (s_input_buffer s') q t \<noteq> slot (s_input_buffer s) q t \<longrightarrow>
       hm_get (s_session_players s) sid = Some q \<and> t = ic_tick i) \<and>
    (\<exists>buf. s' = s\<lparr>s_input_buffer := buf\<rparr>)"
proof -
  note core = server_reachable_core[OF assms]
  obtain s' r where recv: "receive_input p s sid i = Done (s', r)"
    using receive_input_total[OF core(1,3)] by blast
  have "(is_accepted r \<longleftrightarrow> (\<exists>q. hm_get (s_session_players s) sid = Some q \<and>
       length (ic_move_dir i) = 2 \<and> finite_vec2 (vec2_of (ic_move_dir i)) \<and>
       w_tick (s_world s) + sc_input_lead_ticks c \<le> ic_tick i \<and>
       ic_tick i \<le> w_tick (s_world s) + sc_max_future_ticks c \<and>
       (case slot (s_input_buffer s) q (ic_tick i) of
          None \<Rightarrow> True | Some e \<Rightarrow> be_receive_count e < ib_per_tick_limit (s_input_buffer s)))) \<and>
    (\<not> is_accepted r \<longrightarrow> s' = s) \<and> (\<forall>a b. r \<noteq> DroppedLate a b)"
    by (rule receive_input_decision[OF core(1,3) recv])
  moreover have "\<exists>buf. s' = s\<lparr>s_input_buffer := buf\<rparr>" by (rule receive_input_frame[OF recv])
  ultimately show ?thesis using recv receive_input_slots[OF recv] by blast
qed

theorem input_decision_witness:
  "\<exists>s s' r. server_reachable Dev (\<lambda>_. []) dflt s \<and>
     receive_input Dev s 1 (cmd 1 7 f64_one 0) = Done (s', r) \<and> is_accepted r"
proof -
  obtain s0 s where s: "server_reachable Dev (\<lambda>_. []) dflt s" "w_tick (s_world s) = 0"
    "hm_get (s_sessions s) 1 = Some (Session_new 1 0 1)" "s_input_buffer s = empty_buffer 4"
    by (rule one_client)
  have "hm_get (s_session_players s) 1 = Some 0"
    using server_reachable_core(3)[OF s(1)] s(3)
    by (simp add: server_core_def sessions_inv_def Session_new_def)
  moreover have "finite_vec2 (vec2_of [f64_one, 0])"
    by (simp add: finite_vec2_def vec2_of_def f64_read_eval f64_one_def)
  ultimately show ?thesis
    using input_decision[OF s(1), of 1 "cmd 1 7 f64_one 0"] s by (auto simp: dflt_simps cmd_def)
qed

text \<open>
  C17. The memory an input flood can take: in every reachable state the buffer holds at most one
  entry per player that ever joined and tick of the acceptance window, and every buffered direction
  keeps components of magnitude at most one.
\<close>

theorem input_buffer_bounded:
  assumes "server_reachable p enc c s" and "p = Dev \<or> length (s_entity_spawn_order s) \<le> 255"
  shows "hm_len (ib_buffer (s_input_buffer s)) \<le>
      length (s_entity_spawn_order s) * (unat (sc_max_future_ticks c) + 1) \<and>
    buffer_unit (s_input_buffer s)"
  using buffer_entries_bound[OF server_reachable_core(1,3)[OF assms]]
    server_reachable_core(3)[OF assms]
  by (simp add: server_core_def buffer_inv_def)

theorem input_buffer_bounded_witness:
  "\<exists>s. server_reachable Dev (\<lambda>_. []) dflt s \<and> hm_len (ib_buffer (s_input_buffer s)) \<le> 61"
proof -
  obtain s0 s where s: "server_reachable Dev (\<lambda>_. []) dflt s" "s_entity_spawn_order s = [0]"
    by (rule one_client)
  then show ?thesis using input_buffer_bounded[OF s(1)] by (auto simp: dflt_simps)
qed

section \<open>Joining\<close>

text \<open>
  C18. When a join panics, and with what: only when the session cap is reached, when the test ids
  are used up, or - in the dev profile - when 255 players have joined before, because the \<open>u8\<close>
  ordinal is incremented for the next player although this one could still be numbered.
\<close>

theorem join_panics_exactly:
  assumes "server_reachable p enc c s" and "p = Dev \<or> length (s_entity_spawn_order s) \<le> 255"
  shows "join p s = Panic r \<longleftrightarrow>
    sc_max_sessions c \<le> hm_len (s_sessions s) \<and> r = MaxSessionsExceeded \<or>
    hm_len (s_sessions s) < sc_max_sessions c \<and> p = Dev \<and> length (s_entity_spawn_order s) = 255 \<and>
      r = ArithmeticOverflow \<or>
    hm_len (s_sessions s) < sc_max_sessions c \<and> (p = Dev \<longrightarrow> length (s_entity_spawn_order s) < 255) \<and>
      (\<exists>ids. sc_test_player_ids c = Some ids \<and> length ids \<le> length (s_entity_spawn_order s)) \<and>
      r = TestPlayerIdsExhausted"
  by (rule join_panics_iff[OF server_reachable_core[OF assms]])

theorem join_panics_exactly_witness:
  "\<exists>s. server_reachable Dev (\<lambda>_. []) big_config s \<and> join Dev s = Panic ArithmeticOverflow"
proof -
  obtain s where s: "server_reachable Dev (\<lambda>_. []) big_config s" "length (s_entity_spawn_order s) = 255"
    "hm_len (s_sessions s) \<le> 255"
    using many_clients[of 255] by auto
  then show ?thesis
    using join_panics_exactly[OF s(1), of ArithmeticOverflow] by (auto simp: big_config_def)
qed

text \<open>
  C19. In the release profile the same increment wraps around: the 256th player is numbered 255 and
  the next ordinal is 0, the id of the first player, so the player after that is accepted under an
  id that is in use. The comment in the code says that ids are never reused.
\<close>

theorem release_reuses_player_id:
  assumes "server_reachable Release enc c s" and "length (s_entity_spawn_order s) = 255"
    and "sc_test_player_ids c = None" and "hm_len (s_sessions s) < sc_max_sessions c"
  shows "\<exists>s' wel. join Release s = Done (s', wel) \<and> s_next_player_id s' = 0 \<and>
    assign_player_id c (s_next_player_id s') = Done 0 \<and> 0 \<in> set (s_entity_spawn_order s')"
proof -
  have small: "Release = Dev \<or> length (s_entity_spawn_order s) \<le> 255" using assms(2) by simp
  note core = server_reachable_core[OF assms(1) small]
  have inv: "players_inv c s" using core(3) by (simp add: server_core_def)
  obtain s' wel where j: "join Release s = Done (s', wel)"
    using join_panics_iff[OF core, of Release] assms(3,4) by (cases "join Release s") auto
  then obtain pid w eid where s': "s' = joined s pid w eid" by (rule join_Done)
  have "s_next_player_id s = 255" using inv assms(2) by (simp add: players_inv_def)
  then have "s_next_player_id s' = 0" by (simp add: s' joined_def)
  moreover have "s_entity_spawn_order s = map of_nat [0..<255]"
    using inv assms(2,3) by (simp add: players_inv_def expected_players_def)
  then have "0 \<in> set (s_entity_spawn_order s)" by (simp add: upt_conv_Cons)
  ultimately show ?thesis using j assms(3) by (simp add: assign_player_id_def s' joined_def)
qed

theorem release_reuses_player_id_witness:
  "\<exists>s s' wel. server_reachable Release (\<lambda>_. []) big_config s \<and> join Release s = Done (s', wel) \<and>
     s_next_player_id s' = 0 \<and> 0 \<in> set (s_entity_spawn_order s')"
proof -
  obtain s where s: "server_reachable Release (\<lambda>_. []) big_config s" "length (s_entity_spawn_order s) = 255"
    "hm_len (s_sessions s) \<le> 255"
    using many_clients[of 255] by auto
  have "sc_test_player_ids big_config = None" "hm_len (s_sessions s) < sc_max_sessions big_config"
    using s(3) by (simp_all add: big_config_def dflt_simps)
  from release_reuses_player_id[OF s(1,2) this] s(1) show ?thesis by blast
qed

section \<open>Ticks\<close>

text \<open>
  C20. What a tick does, in every reachable state of a running match: \<open>step\<close> returns; every player
  that ever joined gets exactly one applied input, the buffered one of greatest sequence number for
  this tick or else its last known intent; that input alone moves its character, and is what the
  recorder appends, in join order; the tick advances by one; and the message sent to every client
  is the snapshot of the new world with the new floor.
\<close>

theorem tick_applies_one_input_each:
  assumes "server_reachable p enc c s" and "p = Dev \<or> length (s_entity_spawn_order s) \<le> 255"
    and "should_end_match s = None"
  shows "\<exists>s' snap fl. step p enc s =
      Done (s', snap, fl, enc ((SnapshotProto_from snap)\<lparr>sp_target_tick_floor := fl\<rparr>)) \<and>
    w_characters (s_world s') =
      map (\<lambda>ch. move_character (w_dt_seconds (s_world s)) (tick_direction s (ch_player_id ch)) ch)
        (w_characters (s_world s)) \<and>
    rr_inputs (s_replay_recorder s') = rr_inputs (s_replay_recorder s) @
      map (\<lambda>q. \<lparr>ai_tick = w_tick (s_world s), ai_player_id = q, ai_move_dir = tick_direction s q,
               ai_is_fallback = (fst (take_input (s_input_buffer s) q (w_tick (s_world s))) = None)\<rparr>)
        (s_entity_spawn_order s) \<and>
    (\<forall>q \<in> set (s_entity_spawn_order s). hm_get (s_last_known_intent s') q = Some (tick_direction s q)) \<and>
    snap = \<lparr>sn_tick = w_tick (s_world s) + 1, sn_entities = sorted_entity_snapshots (s_world s'),
            sn_digest = state_digest (s_world s')\<rparr> \<and>
    fl = w_tick (s_world s) + 1 + sc_input_lead_ticks c"
proof -
  note core = server_reachable_core[OF assms(1,2)]
  have inv: "players_inv c s" using core(3) by (simp add: server_core_def)
  note dist = core_distinct[OF core(1) inv]
  obtain s' snap fl bs where st: "step p enc s = Done (s', snap, fl, bs)"
    using step_total[OF core assms(3)] by blast
  note after = step_Done[OF dist st]
  have "bs = enc ((SnapshotProto_from snap)\<lparr>sp_target_tick_floor := fl\<rparr>)"
    unfolding after(5)
    by (simp add: snapshot_proto_def SnapshotProto_from_def EntitySnapshotProto_from_def[abs_def])
  moreover have "step_applied s =
      map (\<lambda>q. \<lparr>ai_tick = w_tick (s_world s), ai_player_id = q, ai_move_dir = tick_direction s q,
               ai_is_fallback = (fst (take_input (s_input_buffer s) q (w_tick (s_world s))) = None)\<rparr>)
        (s_entity_spawn_order s)"
    by (simp add: step_applied_def applied_of_def choose_input_def tick_direction_def split: option.split)
  moreover have "\<forall>q \<in> set (s_entity_spawn_order s). hm_get (s_last_known_intent s') q = Some (tick_direction s q)"
    by (simp add: after(15) applied_of_direction)
  ultimately show ?thesis
    using st step_characters(1)[OF core(1) inv st] after(2,3,4,18) core(2) by simp
qed

theorem tick_applies_one_input_each_witness:
  "\<exists>s s' snap fl bs. server_reachable Dev (\<lambda>_. []) dflt s \<and> step Dev (\<lambda>_. []) s = Done (s', snap, fl, bs) \<and>
     hm_get (s_last_known_intent s') 0 = Some (f64_one, 0) \<and> fl = 3"
proof -
  obtain s where s: "server_reachable Dev (\<lambda>_. []) dflt s" "w_tick (s_world s) = 1" "s_entity_spawn_order s = [0]"
    "s_config s = dflt" "slot (s_input_buffer s) 0 1 = Some (first_entry (cmd 1 7 f64_one 0))"
    by (rule one_client_moving)
  have run: "should_end_match s = None" using dflt_running[OF s(4)] s(2) by simp
  have small: "Dev = Dev \<or> length (s_entity_spawn_order s) \<le> 255" by simp
  from tick_applies_one_input_each[OF s(1) small run] obtain s' snap fl bs
    where st: "step Dev (\<lambda>_. []) s = Done (s', snap, fl, bs)"
      "hm_get (s_last_known_intent s') 0 = Some (tick_direction s 0)" "fl = 1 + 1 + sc_input_lead_ticks dflt"
    using s(2,3) by auto
  have "tick_direction s 0 = (f64_one, 0)"
    using s(2,5) clamp_input_idle[of "cmd 1 7 f64_one 0"] unit_axes(2)
    by (simp add: tick_direction_def take_input_slot first_entry_def normalize_dir_def)
  then show ?thesis using s(1) st by (auto simp: dflt_simps)
qed

text \<open>
  C21. A match ends, and on time: along any run the tick is the start tick plus the number of
  steps taken, capped at the configured duration, whatever clients do in between; so the match is
  over exactly when that many steps have been taken.
\<close>

theorem match_ends_on_time:
  assumes "server_reachable p enc c s" and "run_events (serve p enc) s es = Done s'"
    and "p = Dev \<or> length (s_entity_spawn_order s') \<le> 255"
  shows "unat (w_tick (s_world s')) =
      min (unat (sc_match_duration_ticks c)) (unat (w_tick (s_world s)) + count_list es EvStep) \<and>
    (should_end_match s' = Some Complete \<longleftrightarrow>
       unat (sc_match_duration_ticks c) \<le> unat (w_tick (s_world s)) + count_list es EvStep)"
proof -
  have run: "running_inv p c s" by (rule server_reachable_inv[OF assms(1)])
  note clock = run_clock[OF run assms(2,3)]
  have "s_config s' = c"
    using server.run_inv[OF run assms(2)] by (simp add: running_inv_def server_inv_def)
  then show ?thesis using clock by (auto simp: should_end_match_def word_le_nat_alt)
qed

theorem match_ends_on_time_witness:
  "\<exists>s s'. server_reachable Dev (\<lambda>_. []) dflt s \<and>
     run_events (serve Dev (\<lambda>_. [])) s [EvLeave 1, EvStep] = Done s' \<and> unat (w_tick (s_world s')) = 1"
proof -
  obtain s0 s where s: "server_reachable Dev (\<lambda>_. []) dflt s" "w_tick (s_world s) = 0"
    by (rule one_client)
  have "server_reachable Dev (\<lambda>_. []) dflt (disconnect_session s 1)"
    by (rule reachable_serve[OF s(1), of "EvLeave 1"]) simp
  then obtain s' where step: "serve Dev (\<lambda>_. []) (disconnect_session s 1) EvStep = Done s'"
    using reachable_step by blast
  then have run: "run_events (serve Dev (\<lambda>_. [])) s [EvLeave 1, EvStep] = Done s'" by simp
  have "unat (w_tick (s_world s')) = 1"
    using match_ends_on_time[OF s(1) run] s(2) by (simp add: dflt_simps)
  with s(1) run show ?thesis by blast
qed

section \<open>Motion\<close>

text \<open>
  C22. No input can break the physics: in every reachable state every position is a finite number
  and no velocity component exceeds \<open>MOVE_SPEED\<close>.
\<close>

theorem server_world_bounded:
  assumes "server_reachable p enc c s" and "p = Dev \<or> length (s_entity_spawn_order s) \<le> 255"
    and "ch \<in> set (w_characters (s_world s))"
  shows "finite_vec2 (ch_position ch) \<and> f64_mag (fst (ch_velocity ch)) \<le> f64_mag MOVE_SPEED \<and>
    f64_mag (snd (ch_velocity ch)) \<le> f64_mag MOVE_SPEED"
  using server_reachable_bounded[OF assms(1,2)] assms(3)
  by (auto simp: world_bounded_def character_bounded_def)

theorem server_world_bounded_witness:
  "\<exists>s ch. server_reachable Dev (\<lambda>_. []) dflt s \<and> ch \<in> set (w_characters (s_world s)) \<and>
     finite_vec2 (ch_position ch)"
proof -
  obtain s where s: "server_reachable Dev (\<lambda>_. []) dflt s" "s_entity_spawn_order s = [0]"
    by (rule one_client_moving)
  have "w_players (s_world s) = [0]"
    using server_reachable_core(3)[OF s(1)] s(2) by (simp add: server_core_def players_inv_def)
  then obtain ch where "ch \<in> set (w_characters (s_world s))" by (cases "w_characters (s_world s)") auto
  then show ?thesis using server_world_bounded[OF s(1)] s(1) by auto
qed

text \<open>
  C23. A departed player's character freezes in place: if nothing is buffered for the player when its
  session disconnects, then in every later state of the match, whatever the other clients do, the
  character stands where it stood, and from the next tick on its velocity is exactly zero.
\<close>

theorem departed_player_stays:
  assumes "server_reachable p enc c s" and "hm_get (s_session_players s) sid = Some q"
    and "\<And>t. slot (s_input_buffer s) q t = None"
    and "run_events (serve p enc) (disconnect_session s sid) es = Done s'"
    and "p = Dev \<or> length (s_entity_spawn_order s') \<le> 255"
    and "ch \<in> set (w_characters (s_world s))" and "ch_player_id ch = q"
    and "ch' \<in> set (w_characters (s_world s'))" and "ch_player_id ch' = q"
  shows "same_vec2 (ch_position ch') (ch_position ch) \<and>
    (w_tick (s_world s') \<noteq> w_tick (s_world s) \<longrightarrow> ch_velocity ch' = (f64_zero, f64_zero))"
proof -
  let ?u = "disconnect_session s sid"
  have reach: "server_reachable p enc c ?u" by (rule reachable_serve[OF assms(1), of "EvLeave sid"]) simp
  have small: "p = Dev \<or> length (s_entity_spawn_order s) \<le> 255"
    using run_spawn_order[OF assms(4)] assms(5) by auto
  note core = server_reachable_core[OF assms(1) small]
  have inv: "players_inv c s" using core(3) by (simp add: server_core_def)
  have "distinct (map ch_player_id (w_characters (s_world s)))"
    using core_distinct[OF core(1) inv] inv by (simp add: players_inv_def)
  then have only: "x = ch" if "x \<in> set (w_characters (s_world s))" "ch_player_id x = q" for x
    using that assms(6,7) by (auto simp: distinct_map inj_on_def)
  have "at_rest q (ch_position ch) (w_tick (s_world s)) ?u"
    using leave_departed[OF core(3) assms(2,3)] server_reachable_bounded[OF assms(1) small] only
    by (auto simp: at_rest_def)
  then have "at_rest q (ch_position ch) (w_tick (s_world s)) s'"
    by (rule run_keeps[where P = "at_rest q (ch_position ch) (w_tick (s_world s))" and E = UNIV,
          OF _ server_reachable_inv[OF reach] _ assms(4) subset_UNIV assms(5), rotated])
       (rule at_rest_serve)
  then show ?thesis using assms(8,9) by (simp add: at_rest_def)
qed

theorem departed_player_stays_witness:
  "\<exists>s s'. server_reachable Dev (\<lambda>_. []) dflt s \<and>
     serve Dev (\<lambda>_. []) (disconnect_session s 1) EvStep = Done s' \<and>
     (\<forall>ch' \<in> set (w_characters (s_world s')). ch_player_id ch' = 0 \<longrightarrow> ch_velocity ch' = (f64_zero, f64_zero))"
proof -
  obtain s0 s where s: "server_reachable Dev (\<lambda>_. []) dflt s" "w_tick (s_world s) = 0"
    "s_entity_spawn_order s = [0]" "s_input_buffer s = empty_buffer 4"
    "hm_get (s_sessions s) 1 = Some (Session_new 1 0 1)"
    by (rule one_client)
  note core = server_reachable_core[OF s(1)]
  have ses: "hm_get (s_session_players s) 1 = Some 0" and pl: "w_players (s_world s) = [0]"
    using core(3) s(3,5) by (simp_all add: server_core_def sessions_inv_def players_inv_def Session_new_def)
  obtain ch where ch: "ch \<in> set (w_characters (s_world s))" "ch_player_id ch = 0"
    using pl by (cases "w_characters (s_world s)") auto
  have "server_reachable Dev (\<lambda>_. []) dflt (disconnect_session s 1)"
    by (rule reachable_serve[OF s(1), of "EvLeave 1"]) simp
  then obtain s' where step: "serve Dev (\<lambda>_. []) (disconnect_session s 1) EvStep = Done s'"
    using reachable_step by blast
  then have run: "run_events (serve Dev (\<lambda>_. [])) (disconnect_session s 1) [EvStep] = Done s'" by simp
  have both: "run_events (serve Dev (\<lambda>_. [])) s [EvLeave 1, EvStep] = Done s'" using step by simp
  have "unat (w_tick (s_world s')) = 1"
    using run_clock[OF server_reachable_inv[OF s(1)] both] s(2) by (simp add: dflt_simps)
  then have "w_tick (s_world s') \<noteq> w_tick (s_world s)" using s(2) by auto
  moreover have "slot (s_input_buffer s) 0 t = None" for t using s(4) by simp
  ultimately have "\<forall>ch' \<in> set (w_characters (s_world s')). ch_player_id ch' = 0 \<longrightarrow>
      ch_velocity ch' = (f64_zero, f64_zero)"
    using departed_player_stays[OF s(1) ses _ run _ ch] by blast
  then show ?thesis using s(1) step by blast
qed

text \<open>
  C24. But with an input still buffered the character does not freeze: if the player leaves with an
  input buffered for the current tick, the next tick applies it and makes it the last known
  intent again, and from then on every tick until the end of the match moves the character in that
  direction. The code's comment says that the reset of the intent prevents this coasting.
\<close>

theorem departed_player_coasts:
  assumes "server_reachable p enc c s" and "hm_get (s_session_players s) sid = Some q"
    and "should_end_match s = None"
    and "slot (s_input_buffer s) q (w_tick (s_world s)) = Some e" and "\<not> be_max_seq_tied e"
    and "\<And>t. t \<noteq> w_tick (s_world s) \<Longrightarrow> slot (s_input_buffer s) q t = None"
    and "run_events (serve p enc) (disconnect_session s sid) (EvStep # es) = Done s'"
    and "p = Dev \<or> length (s_entity_spawn_order s') \<le> 255"
  shows "tick_direction s' q = normalize_dir (be_selected e)"
proof -
  let ?u = "disconnect_session s sid"
  have reach: "server_reachable p enc c ?u" by (rule reachable_serve[OF assms(1), of "EvLeave sid"]) simp
  obtain v where v: "serve p enc ?u EvStep = Done v" "run_events (serve p enc) v es = Done s'"
    using assms(7) by (auto simp: outcome_simps)
  have small: "p = Dev \<or> length (s_entity_spawn_order ?u) \<le> 255"
    using run_spawn_order[OF assms(7)] assms(8) by auto
  note core = server_reachable_core[OF reach small]
  have "departed q (normalize_dir (be_selected e)) v"
    by (rule leave_then_step[OF server_reachable_core(1,3)[OF assms(1)] assms(2-6) core(2,3) v(1)])
       (use small in simp_all)
  from departed_run[OF running_inv_serve[OF server_reachable_inv[OF reach] v(1)] this v(2) assms(8)]
  show ?thesis by (rule departed_direction)
qed

theorem departed_player_coasts_witness:
  "\<exists>s s'. server_reachable Dev (\<lambda>_. []) dflt s \<and>
     run_events (serve Dev (\<lambda>_. [])) (disconnect_session s 1) [EvStep, EvStep] = Done s' \<and>
     tick_direction s' 0 = (f64_one, 0)"
proof -
  obtain s where s: "server_reachable Dev (\<lambda>_. []) dflt s" "hm_get (s_session_players s) 1 = Some 0"
    "w_tick (s_world s) = 1" "s_config s = dflt"
    "slot (s_input_buffer s) 0 1 = Some (first_entry (cmd 1 7 f64_one 0))"
    "\<forall>t. t \<noteq> 1 \<longrightarrow> slot (s_input_buffer s) 0 t = None"
    by (rule one_client_moving)
  have run: "should_end_match s = None" using dflt_running[OF s(4)] s(3) by simp
  have "server_reachable Dev (\<lambda>_. []) dflt (disconnect_session s 1)"
    by (rule reachable_serve[OF s(1), of "EvLeave 1"]) simp
  then obtain u where u: "serve Dev (\<lambda>_. []) (disconnect_session s 1) EvStep = Done u"
    "server_reachable Dev (\<lambda>_. []) dflt u"
    using reachable_step reachable_serve by blast
  then obtain s' where "serve Dev (\<lambda>_. []) u EvStep = Done s'" using reachable_step by blast
  then have steps: "run_events (serve Dev (\<lambda>_. [])) (disconnect_session s 1) [EvStep, EvStep] = Done s'"
    unfolding run_events.simps u(1) obind.simps by simp
  have "tick_direction s' 0 = normalize_dir (be_selected (first_entry (cmd 1 7 f64_one 0)))"
    by (rule departed_player_coasts[OF s(1,2) run _ _ _ steps]) (use s(3,5,6) in \<open>simp_all add: first_entry_def\<close>)
  also have "\<dots> = (f64_one, 0)"
    using clamp_input_idle[of "cmd 1 7 f64_one 0"] unit_axes(2) by (simp add: first_entry_def normalize_dir_def)
  finally show ?thesis using s(1) steps by blast
qed

section \<open>Replays\<close>

text \<open>
  C25. Recorded matches verify: if every join precedes the first tick, the artifact of the match,
  finalized at any later state, is accepted by the verifier - whatever the clients sent and
  whenever they left, for every profile of the verifier, and for every build that the options
  do not reject.
\<close>

theorem recorded_match_verifies:
  assumes "server_start c s0" and "run_events (serve p enc) s0 es = Done s" and "joins_first es"
    and "s_baseline_recorded s" and "p = Dev \<or> length (s_entity_spawn_order s) \<le> 255"
    and "build_compatible (s_build_fingerprint s) opts"
  shows "verify_replay q (server_finalize s r) opts = Done (Inr ())"
proof -
  have run: "running_inv p c s0" by (rule server.start_inv[OF assms(1)])
  have fresh: "\<not> s_baseline_recorded s0"
    using assms(1) by (auto simp: server_start_def Server_new_def Let_def outcome_simps)
  have "replayable s" by (rule replayable_run[OF run replayable_start[OF assms(1)] fresh assms(2,3,5)])
  then show ?thesis
    by (rule replayable_verifies[OF reachable_core[OF assms(1,2,5)] _ assms(4,6)])
qed

theorem recorded_match_verifies_witness:
  "\<exists>s. server_reachable Dev (\<lambda>_. []) dflt s \<and> s_entity_spawn_order s = [0] \<and>
     verify_replay Release (server_finalize s Complete) VerifyOptions_default = Done (Inr ())"
proof -
  obtain s0 u where s: "server_start dflt s0" "serve Dev (\<lambda>_. []) s0 EvJoin = Done u"
    "server_reachable Dev (\<lambda>_. []) dflt u" "s_entity_spawn_order u = [0]" "w_tick (s_world u) = 0"
    "s_config u = dflt" "s_build_fingerprint u = None"
    by (rule one_client)
  obtain s where st: "serve Dev (\<lambda>_. []) u EvStep = Done s" using reachable_step[OF s(3)] by blast
  have run: "run_events (serve Dev (\<lambda>_. [])) s0 [EvJoin, EvStep] = Done s"
    unfolding run_events.simps s(2) obind.simps st by simp
  have "should_end_match u = None" using dflt_running[OF s(6)] s(5) by simp
  then obtain snap fl bs where step: "step Dev (\<lambda>_. []) u = Done (s, snap, fl, bs)"
    using st by (auto simp: outcome_simps)
  have "players_inv dflt u" using server_reachable_core(3)[OF s(3)] by (simp add: server_core_def)
  note after = step_Done[OF core_distinct[OF dflt_ok this] step]
  have "verify_replay Release (server_finalize s Complete) VerifyOptions_default = Done (Inr ())"
    by (rule recorded_match_verifies[OF s(1) run])
       (simp_all add: after(17,19) s(7) build_compatible_def)
  then show ?thesis using reachable_serve[OF s(3) st] after(12) s(4) by auto
qed

text \<open>
  C26. A match with a late join can never be verified: once a player joins after the first tick, the
  artifact finalized at any later state is rejected with an error, by every verifier and options,
  because the stream has no input of that player for tick 0. The code lets sessions join at any time.
\<close>

theorem late_join_breaks_replay:
  assumes "server_reachable p enc c s" and "0 < w_tick (s_world s)" and "join p s = Done (u, wel)"
    and "run_events (serve p enc) u es = Done s'"
    and "p = Dev \<or> length (s_entity_spawn_order s') \<le> 255"
  shows "\<exists>e. verify_replay q (server_finalize s' r) opts = Done (Inl e)"
proof -
  have serve: "serve p enc s EvJoin = Done u" using assms(3) by simp
  have reach: "server_reachable p enc c u" by (rule reachable_serve[OF assms(1) serve])
  have small: "p = Dev \<or> length (s_entity_spawn_order u) \<le> 255"
    using run_spawn_order[OF assms(4)] assms(5) by auto
  have "late_joiner u \<and> s_baseline_recorded u"
    by (rule joined_late[OF server_reachable_inv[OF assms(1)] assms(2,3) small])
  then have "late_joiner s' \<and> s_baseline_recorded s'"
    by (rule run_keeps[where P = "\<lambda>s. late_joiner s \<and> s_baseline_recorded s" and E = UNIV,
          OF _ server_reachable_inv[OF reach] _ assms(4) subset_UNIV assms(5), rotated])
       (auto intro: late_joiner_serve serve_keeps_recorded)
  moreover have "server_core c s'"
    using server.run_inv[OF server_reachable_inv[OF reach] assms(4)] assms(5)
    by (simp add: running_inv_def server_inv_def)
  ultimately show ?thesis using late_joiner_rejected by blast
qed

theorem late_join_breaks_replay_witness:
  "\<exists>s u wel e. server_reachable Dev (\<lambda>_. []) dflt s \<and> join Dev s = Done (u, wel) \<and>
     verify_replay Dev (server_finalize u Complete) VerifyOptions_default = Done (Inl e)"
proof -
  obtain s where s: "server_reachable Dev (\<lambda>_. []) dflt s" "w_tick (s_world s) = 1"
    "s_entity_spawn_order s = [0]" "hm_len (s_sessions s) = 1"
    by (rule one_client_moving)
  note core = server_reachable_core[OF s(1)]
  obtain u wel where j: "join Dev s = Done (u, wel)"
    using join_total[OF core, of Dev] s(3,4) by (auto simp: dflt_simps)
  have run: "run_events (serve Dev (\<lambda>_. [])) u [] = Done u" by simp
  from late_join_breaks_replay[OF s(1) _ j run] s(2)
  have "\<exists>e. verify_replay Dev (server_finalize u Complete) VerifyOptions_default = Done (Inl e)" by simp
  with s(1) j show ?thesis by blast
qed

end
