(* ===== verification/PlayerIds.thy ===== *)
theory PlayerIds
  imports ServerDemo
begin

text \<open>
  The numbering of players over the whole life of a server, also past the 256 numbers that \<^verbatim>\<open>PlayerId\<close>
  has: an invariant of every reachable state of either build profile.
\<close>

section \<open>The ids that a server has handed out\<close>

definition nth_player :: "ServerConfig \<Rightarrow> nat \<Rightarrow> PlayerId" where
  "nth_player c k = (case sc_test_player_ids c of None \<Rightarrow> of_nat k | Some ids \<Rightarrow> ids ! (k mod 256))"

definition numbering_inv :: "profile \<Rightarrow> ServerConfig \<Rightarrow> Server \<Rightarrow> bool" where
  "numbering_inv p c s \<longleftrightarrow> config_ok c \<and> s_config s = c \<and>
     s_next_player_id s = of_nat (length (s_entity_spawn_order s)) \<and>
     (p = Dev \<longrightarrow> length (s_entity_spawn_order s) \<le> 255) \<and>
     (\<forall>k < length (s_entity_spawn_order s). assign_player_id c (of_nat k) = Done (s_entity_spawn_order s ! k)) \<and>
     (Suc (length (s_entity_spawn_order s)) < 2 ^ 64 \<longrightarrow>
        world_wf (s_world s) \<and> w_players (s_world s) = s_entity_spawn_order s)"

lemma assigned_nth: "assign_player_id c (of_nat k) = Done q \<Longrightarrow> q = nth_player c k"
  by (auto simp: assign_player_id_def nth_player_def unat_of_nat split: option.splits if_splits)

lemma assigned_below:
  "assign_player_id c (of_nat k) = Done q \<Longrightarrow> sc_test_player_ids c = Some ids \<Longrightarrow> k mod 256 < length ids"
  by (auto simp: assign_player_id_def unat_of_nat split: if_splits)

lemma start_empty: "server_start c s \<Longrightarrow> s_entity_spawn_order s = [] \<and> s_next_player_id s = 0"
  by (auto simp: server_start_def Server_new_def Let_def outcome_simps World_new_def split: if_splits)

lemma numbering_start:
  assumes "server_start c s"
  shows "numbering_inv p c s"
proof -
  have core: "server_core c s" and conf: "s_config s = c" "config_ok c"
    using server_start_core[OF assms] assms by (simp_all add: server_start_def)
  have "players_inv c s" using core by (simp add: server_core_def)
  then show ?thesis
    using start_empty[OF assms] conf by (simp add: numbering_inv_def players_inv_def)
qed

lemma numbering_join:
  assumes "numbering_inv p c s" and "join p s = Done (s', wel)"
  shows "numbering_inv p c s'"
proof -
  let ?n = "length (s_entity_spawn_order s)"
  obtain pid w eid where s': "s' = joined s pid w eid" and spawn: "spawn_character p (s_world s) pid = Done (w, eid)"
    and pid: "assign_player_id (s_config s) (s_next_player_id s) = Done pid"
    and dev: "p = Dev \<longrightarrow> unat (s_next_player_id s) + 1 < 256"
    by (rule join_Done[OF assms(2)])
  have inv: "s_config s = c" "s_next_player_id s = of_nat ?n" "p = Dev \<longrightarrow> ?n \<le> 255"
    using assms(1) by (simp_all add: numbering_inv_def)
  have "p = Dev \<longrightarrow> Suc ?n \<le> 255" using dev inv(2,3) by (auto simp: unat_of_nat)
  moreover have "world_wf w \<and> w_players w = s_entity_spawn_order s @ [pid]" if "Suc (Suc ?n) < 2 ^ 64"
  proof -
    have wf: "world_wf (s_world s)" and pl: "w_players (s_world s) = s_entity_spawn_order s"
      using assms(1) that by (simp_all add: numbering_inv_def)
    have "length (w_characters (s_world s)) = ?n" using pl by (metis length_map)
    then show ?thesis using spawn_character_wf[OF wf _ spawn] that pl by simp
  qed
  ultimately show ?thesis
    using assms(1) pid inv by (auto simp: numbering_inv_def s' joined_def nth_append less_Suc_eq)
qed

lemma numbering_step:
  assumes "numbering_inv p c s" and "step p enc s = Done (s', out)"
  shows "numbering_inv p c s'"
proof -
  obtain w snap inputs where adv: "advance p (s_world s) (w_tick (s_world s)) inputs = Done (w, snap)"
    and same: "s_world s' = w" "s_config s' = s_config s" "s_next_player_id s' = s_next_player_id s"
      "s_entity_spawn_order s' = s_entity_spawn_order s"
    using assms(2)
    by (cases "s_baseline_recorded s")
       (auto simp: step_def Let_def split_beta outcome_simps record_first_baseline_def)
  from assms(1) advance_wf(1,2)[OF adv] show ?thesis by (simp add: numbering_inv_def same)
qed

lemma numbering_serve:
  assumes "numbering_inv p c s" and "serve p enc s e = Done s'"
  shows "numbering_inv p c s'"
proof (cases e)
  case EvJoin
  then show ?thesis using assms numbering_join by (auto simp: outcome_simps)
next
  case (EvInput sid i)
  then obtain r where "receive_input p s sid i = Done (s', r)" using assms(2) by (auto simp: outcome_simps)
  then show ?thesis by (rule receive_input_Done) (use assms(1) in \<open>simp_all add: numbering_inv_def\<close>)
next
  case (EvLeave sid)
  then show ?thesis using assms
    by (auto simp: numbering_inv_def disconnect_session_def split: option.splits)
next
  case EvStep
  then show ?thesis using assms numbering_step by (auto simp: outcome_simps split: if_splits)
next
  case (EvFingerprint f)
  then show ?thesis using assms by (auto simp: numbering_inv_def server_set_build_fingerprint_def)
qed

interpretation numbering: transition_system "serve p enc" "server_start c" "numbering_inv p c"
  by unfold_locales (auto intro: numbering_start numbering_serve)

lemma reachable_numbering: "server_reachable p enc c s \<Longrightarrow> numbering_inv p c s"
  unfolding server_reachable_run by (blast intro: numbering.reachable_inv)

lemma nth_player_inject:
  assumes "config_ok c" and "j < k" "k < 256"
    and "assign_player_id c (of_nat j) = Done (nth_player c j)" "assign_player_id c (of_nat k) = Done (nth_player c k)"
  shows "nth_player c j \<noteq> nth_player c k"
proof (cases "sc_test_player_ids c")
  case None
  then show ?thesis using assms(2,3)
    by (auto simp: nth_player_def dest: arg_cong[where f = unat] simp: unat_of_nat_small)
next
  case (Some ids)
  then have "distinct ids" using assms(1) by (simp add: config_ok_def)
  then show ?thesis using Some assms(2,3) assigned_below[OF assms(4) Some] assigned_below[OF assms(5) Some]
    by (simp add: nth_player_def nth_eq_iff_index_eq)
qed

lemma nth_player_wrap: "nth_player c 256 = nth_player c 0"
proof -
  have "(of_nat 256 :: 8 word) = of_nat 0" by simp
  then show ?thesis by (simp add: nth_player_def split: option.split)
qed

text \<open>The release build goes on joining players past the last number.\<close>

lemma release_join_total:
  assumes "hm_len (s_sessions s) < sc_max_sessions (s_config s)" and "sc_test_player_ids (s_config s) = None"
  shows "\<exists>s' wel. join Release s = Done (s', wel)"
  using assms
  by (simp add: join_def accept_session_def welcome_for_def assign_player_id_def spawn_character_def
      checked_plus_def Let_def split_beta)

lemma many_release_joins:
  "n \<le> 300 \<Longrightarrow> \<exists>s. server_reachable Release enc big_config s \<and> length (s_entity_spawn_order s) = n \<and>
     hm_wf (s_sessions s) \<and> hm_len (s_sessions s) \<le> n"
proof (induction n)
  case 0
  then show ?case using big_start server_reachable.start by (fastforce simp: hm_len_def)
next
  case (Suc n)
  then obtain s where s: "server_reachable Release enc big_config s" "length (s_entity_spawn_order s) = n"
    "hm_wf (s_sessions s)" "hm_len (s_sessions s) \<le> n" by auto
  have "s_config s = big_config" using reachable_numbering[OF s(1)] by (simp add: numbering_inv_def)
  then obtain s' wel where j: "join Release s = Done (s', wel)"
    using release_join_total[of s] s(4) Suc.prems by (auto simp: big_config_def dflt_simps)
  then obtain pid w eid where s': "s' = joined s pid w eid" by (rule join_Done)
  have "server_reachable Release enc big_config s'"
    by (rule reachable_serve[OF s(1), of EvJoin]) (simp add: j)
  then show ?case
    using s(2-4) by (intro exI[of _ s']) (simp add: s' joined_def hm.len_insert[OF s(3)])
qed

section \<open>Properties\<close>

text \<open>
  C14. How long player ids stay unique: in every reachable state of either build, the \<open>k\<close>th player that
  joined has the ordinal \<open>k\<close> as an 8-bit number, or the \<open>k\<close>th configured test id, so that the ids of all
  players that ever joined, disconnected or not, are pairwise distinct exactly as long as there are at
  most 256 of them; the dev build never gets past 255, and the release build reuses the first player's id
  after the 256th. The world holds one character for each join, in join order, with the
  entity ids 1, 2, 3, ... (as long as these fit into 64 bits).
\<close>

theorem player_ids_unique_until_wrap:
  assumes "server_reachable p enc c s"
  shows "(distinct (s_entity_spawn_order s) \<longleftrightarrow> length (s_entity_spawn_order s) \<le> 256) \<and>
    (p = Dev \<longrightarrow> length (s_entity_spawn_order s) \<le> 255) \<and>
    (\<forall>k < length (s_entity_spawn_order s). s_entity_spawn_order s ! k =
       (case sc_test_player_ids c of None \<Rightarrow> of_nat k | Some ids \<Rightarrow> ids ! (k mod 256))) \<and>
    (256 < length (s_entity_spawn_order s) \<longrightarrow> s_entity_spawn_order s ! 256 = s_entity_spawn_order s ! 0) \<and>
    (Suc (length (s_entity_spawn_order s)) < 2 ^ 64 \<longrightarrow>
       map ch_player_id (w_characters (s_world s)) = s_entity_spawn_order s \<and>
       map ch_entity_id (w_characters (s_world s)) = map of_nat [1..<Suc (length (s_entity_spawn_order s))])"
proof -
  let ?o = "s_entity_spawn_order s"
  have inv: "numbering_inv p c s" by (rule reachable_numbering[OF assms])
  then have ass: "\<And>k. k < length ?o \<Longrightarrow> assign_player_id c (of_nat k) = Done (?o ! k)"
    by (simp add: numbering_inv_def)
  have nth: "?o ! k = nth_player c k" if "k < length ?o" for k by (rule assigned_nth[OF ass[OF that]])
  have wrap: "?o ! 256 = ?o ! 0" if "256 < length ?o"
  proof -
    have "0 < length ?o" using that by linarith
    with nth[OF that] nth[of 0] show ?thesis using nth_player_wrap by simp
  qed
  have "distinct ?o" if "length ?o \<le> 256"
    unfolding distinct_conv_nth
  proof (intro allI impI)
    fix j k assume jk: "j < length ?o" "k < length ?o" "j \<noteq> k"
    have less: "?o ! a \<noteq> ?o ! b" if "a < b" "b < length ?o" for a b
      using nth_player_inject[of c a b] inv ass[of a] ass[of b] nth[of a] nth[of b] that \<open>length ?o \<le> 256\<close>
      by (auto simp: numbering_inv_def)
    from less[of j k] less[of k j] jk show "?o ! j \<noteq> ?o ! k" by (metis nat_neq_iff)
  qed
  moreover have "length ?o \<le> 256" if "distinct ?o"
  proof (rule ccontr)
    assume "\<not> length ?o \<le> 256"
    then have "256 < length ?o" "0 < length ?o" by linarith+
    then show False using wrap nth_eq_iff_index_eq[OF that, of 256 0] by simp
  qed
  moreover have "map ch_entity_id (w_characters (s_world s)) = map of_nat [1..<Suc (length ?o)]"
    if "Suc (length ?o) < 2 ^ 64"
  proof -
    have "world_wf (s_world s)" "w_players (s_world s) = ?o" using inv that by (simp_all add: numbering_inv_def)
    then show ?thesis by (simp add: world_wf_def del: upt_Suc) (metis length_map)
  qed
  ultimately show ?thesis using inv nth wrap by (auto simp: numbering_inv_def nth_player_def)
qed

theorem player_ids_unique_until_wrap_witness:
  "\<exists>s. server_reachable Release (\<lambda>_. []) big_config s \<and> length (s_entity_spawn_order s) = 257 \<and>
     \<not> distinct (s_entity_spawn_order s) \<and> s_entity_spawn_order s ! 256 = 0 \<and> s_entity_spawn_order s ! 0 = 0"
proof -
  obtain s where s: "server_reachable Release (\<lambda>_. []) big_config s" "length (s_entity_spawn_order s) = 257"
    using many_release_joins[of 257] by auto
  have "sc_test_player_ids big_config = None" by (simp add: big_config_def dflt_simps)
  with player_ids_unique_until_wrap[OF s(1)] s show ?thesis by auto
qed

end
