(* ===== verification/MatchSpec.thy ===== *)
theory MatchSpec
  imports Server
begin

text \<open>
  The match that the Server Edge is meant to run, without its tables: one seat per player that ever
  joined, holding everything the server knows of that player, and a clock. The server keeps the same
  information in six hash maps, the world and the replay recorder; theory \<open>ServerRefine\<close> shows that
  its methods implement the operations below. Everything is executable and nothing overflows: ticks
  and counts are natural numbers.
\<close>

section \<open>Functional refinement\<close>

fun run_spec :: "('a \<Rightarrow> 'e \<Rightarrow> 'a option) \<Rightarrow> 'a \<Rightarrow> 'e list \<Rightarrow> 'a option" where
  "run_spec spec a [] = Some a"
| "run_spec spec a (e # es) = (case spec a e of None \<Rightarrow> None | Some a' \<Rightarrow> run_spec spec a' es)"

lemma run_spec_append:
  "run_spec spec a (es @ fs) = (case run_spec spec a es of None \<Rightarrow> None | Some a' \<Rightarrow> run_spec spec a' fs)"
  by (induction es arbitrary: a) (simp_all split: option.split)

definition implements :: "('s \<Rightarrow> 'a) \<Rightarrow> 's outcome \<Rightarrow> 'a option \<Rightarrow> bool" where
  "implements view r a = (case r of Done s \<Rightarrow> a = Some (view s) | Panic _ \<Rightarrow> a = None)"

lemma implements_simps [simp]:
  "implements view (Done s) a \<longleftrightarrow> a = Some (view s)" "implements view (Panic r) a \<longleftrightarrow> a = None"
  by (simp_all add: implements_def)

text \<open>
  A transition system whose every step is what a deterministic specification allows and refuses;
  \<open>fits s es\<close> limits the sequences of events for which this is claimed.
\<close>

locale refining_system = transition_system step start inv
  for step :: "'s \<Rightarrow> 'e \<Rightarrow> 's outcome" and start :: "'s \<Rightarrow> bool" and inv :: "'s \<Rightarrow> bool" +
  fixes view :: "'s \<Rightarrow> 'a"
    and spec :: "'a \<Rightarrow> 'e \<Rightarrow> 'a option"
    and initial :: 'a
    and fits :: "'s \<Rightarrow> 'e list \<Rightarrow> bool"
  assumes start_refines: "start s \<Longrightarrow> view s = initial"
    and step_refines: "inv s \<Longrightarrow> fits s (e # es) \<Longrightarrow> implements view (step s e) (spec (view s) e)"
    and step_fits: "inv s \<Longrightarrow> fits s (e # es) \<Longrightarrow> step s e = Done s' \<Longrightarrow> fits s' es"
begin

lemma run_refines:
  "inv s \<Longrightarrow> fits s es \<Longrightarrow> implements view (run_events step s es) (run_spec spec (view s) es)"
proof (induction es arbitrary: s)
  case (Cons e es)
  note here = step_refines[OF Cons.prems]
  show ?case
  proof (cases "step s e")
    case (Done s')
    then show ?thesis
      using here Cons.IH[of s'] step_inv[OF Cons.prems(1) Done] step_fits[OF Cons.prems Done] by simp
  qed (use here in simp)
qed simp

lemma run_fits: "inv s \<Longrightarrow> fits s es \<Longrightarrow> run_events step s es = Done s' \<Longrightarrow> fits s' []"
proof (induction es arbitrary: s)
  case (Cons e es)
  from Cons.prems(3) obtain u where u: "step s e = Done u" "run_events step u es = Done s'"
    by (auto simp: outcome_simps)
  show ?case
    by (rule Cons.IH[OF step_inv[OF Cons.prems(1) u(1)] step_fits[OF Cons.prems(1,2) u(1)] u(2)])
qed simp

lemma reachable_refines:
  "start s \<Longrightarrow> fits s es \<Longrightarrow> implements view (run_events step s es) (run_spec spec initial es)"
  using run_refines start_inv start_refines by metis

end

section \<open>State\<close>

record Seat =
  st_player :: PlayerId
  st_session :: "SessionId option"
  st_position :: vec2
  st_velocity :: vec2
  st_intent :: vec2
  st_pending :: "Tick \<Rightarrow> BufferEntry option"

record Match =
  m_tick :: nat
  m_seats :: "Seat list"
  m_opening :: "Baseline option"
  m_log :: "AppliedInput list"
  m_fingerprint :: "BuildFingerprintData option"

definition match_new :: Match where
  "match_new = \<lparr>m_tick = 0, m_seats = [], m_opening = None, m_log = [], m_fingerprint = None\<rparr>"

definition seat_new :: "PlayerId \<Rightarrow> SessionId \<Rightarrow> Seat" where
  "seat_new q sid =
     \<lparr>st_player = q, st_session = Some sid, st_position = (f64_zero, f64_zero),
      st_velocity = (f64_zero, f64_zero), st_intent = (f64_zero, f64_zero), st_pending = (\<lambda>_. None)\<rparr>"

text \<open>The world that a match shows: the characters are numbered in the order of joining.\<close>

definition seat_character :: "nat \<times> Seat \<Rightarrow> Character" where
  "seat_character = (\<lambda>(n, st).
     \<lparr>ch_entity_id = of_nat n, ch_player_id = st_player st, ch_position = st_position st,
      ch_velocity = st_velocity st\<rparr>)"

definition match_world :: "ServerConfig \<Rightarrow> Match \<Rightarrow> World" where
  "match_world c m =
     \<lparr>w_tick = of_nat (m_tick m), w_tick_rate_hz = sc_tick_rate_hz c,
      w_dt_seconds = f64_div f64_one (f64_of_u32 (sc_tick_rate_hz c)),
      w_characters = map seat_character (enumerate 1 (m_seats m)),
      w_next_entity_id = of_nat (Suc (length (m_seats m))), w_seed = sc_seed c\<rparr>"

section \<open>Operations\<close>

definition seats_online :: "Match \<Rightarrow> nat" where
  "seats_online m = length (filter (\<lambda>st. st_session st \<noteq> None) (m_seats m))"

definition match_join :: "ServerConfig \<Rightarrow> Match \<Rightarrow> Match option" where
  "match_join c m =
     (let n = length (m_seats m);
          enter = (\<lambda>q. Some (m\<lparr>m_seats := m_seats m @ [seat_new q (of_nat (Suc n))]\<rparr>))
      in if sc_max_sessions c \<le> seats_online m \<or> n = 255 then None
         else case sc_test_player_ids c of
                None \<Rightarrow> enter (of_nat n)
              | Some ids \<Rightarrow> if n < length ids then enter (ids ! n) else None)"

text \<open>The number of inputs that one player may send for one tick: the rate per tick, rounded up.\<close>

definition slot_limit :: "ServerConfig \<Rightarrow> nat" where
  "slot_limit c =
     (unat (sc_input_rate_limit_per_sec c) + unat (sc_tick_rate_hz c) - 1) div unat (sc_tick_rate_hz c)"

definition acceptable :: "ServerConfig \<Rightarrow> nat \<Rightarrow> Seat \<Rightarrow> InputCmdProto \<Rightarrow> bool" where
  "acceptable c t st i \<longleftrightarrow>
     length (ic_move_dir i) = 2 \<and> f64_is_finite (ic_move_dir i ! 0) \<and> f64_is_finite (ic_move_dir i ! 1) \<and>
     t + unat (sc_input_lead_ticks c) \<le> unat (ic_tick i) \<and>
     unat (ic_tick i) \<le> t + unat (sc_max_future_ticks c) \<and>
     (case st_pending st (ic_tick i) of
        None \<Rightarrow> True | Some e \<Rightarrow> unat (be_receive_count e) < slot_limit c)"

definition seat_input :: "ServerConfig \<Rightarrow> nat \<Rightarrow> SessionId \<times> InputCmdProto \<Rightarrow> Seat \<Rightarrow> Seat" where
  "seat_input c t = (\<lambda>(sid, i) st.
     if st_session st = Some sid \<and> acceptable c t st i
     then st\<lparr>st_pending := (st_pending st)(ic_tick i \<mapsto>
            (case st_pending st (ic_tick i) of None \<Rightarrow> first_entry i | Some e \<Rightarrow> count_in i e))\<rparr>
     else st)"

definition seat_leave :: "SessionId \<Rightarrow> Seat \<Rightarrow> Seat" where
  "seat_leave sid st =
     (if st_session st = Some sid then st\<lparr>st_session := None, st_intent := (f64_zero, f64_zero)\<rparr> else st)"

text \<open>A tick plays each seat's pending input for it, or the intent that the seat had last.\<close>

definition seat_choice :: "nat \<Rightarrow> Seat \<Rightarrow> vec2 \<times> bool" where
  "seat_choice t st =
     (case st_pending st (of_nat t) of
        None \<Rightarrow> (st_intent st, True)
      | Some e \<Rightarrow> if be_max_seq_tied e then (st_intent st, True) else (normalize_dir (be_selected e), False))"

definition seat_applied :: "nat \<Rightarrow> Seat \<Rightarrow> AppliedInput" where
  "seat_applied t st =
     \<lparr>ai_tick = of_nat t, ai_player_id = st_player st, ai_move_dir = fst (seat_choice t st),
      ai_is_fallback = snd (seat_choice t st)\<rparr>"

definition seat_tick :: "f64 \<Rightarrow> nat \<Rightarrow> Seat \<Rightarrow> Seat" where
  "seat_tick dt t st =
     (let d = fst (seat_choice t st);
          ch = move_character dt d (seat_character (0, st))
      in st\<lparr>st_position := ch_position ch, st_velocity := ch_velocity ch, st_intent := d,
            st_pending := (\<lambda>u. if unat u \<le> t then None else st_pending st u)\<rparr>)"

definition match_tick :: "ServerConfig \<Rightarrow> Match \<Rightarrow> Match" where
  "match_tick c m =
     (if unat (sc_match_duration_ticks c) \<le> m_tick m then m
      else m\<lparr>m_tick := Suc (m_tick m),
             m_seats := map (seat_tick (w_dt_seconds (match_world c m)) (m_tick m)) (m_seats m),
             m_opening := Some (case m_opening m of None \<Rightarrow> baseline (match_world c m) | Some b \<Rightarrow> b),
             m_log := m_log m @ map (seat_applied (m_tick m)) (m_seats m)\<rparr>)"

fun seats_event :: "ServerConfig \<Rightarrow> Match \<Rightarrow> event \<Rightarrow> Match option" where
  "seats_event c m EvJoin = match_join c m"
| "seats_event c m (EvInput sid i) =
     Some (m\<lparr>m_seats := map (seat_input c (m_tick m) (sid, i)) (m_seats m)\<rparr>)"
| "seats_event c m (EvLeave sid) = Some (m\<lparr>m_seats := map (seat_leave sid) (m_seats m)\<rparr>)"
| "seats_event c m EvStep = Some (match_tick c m)"
| "seats_event c m (EvFingerprint f) = Some (m\<lparr>m_fingerprint := Some f\<rparr>)"

section \<open>The archive\<close>

definition replay_config :: "ServerConfig \<Rightarrow> ReplayConfig" where
  "replay_config c =
     \<lparr>rc_seed = sc_seed c, rc_tick_rate_hz = sc_tick_rate_hz c, rc_rng_algorithm = ''none'',
      rc_test_mode = sc_test_mode c,
      rc_test_player_ids = (case sc_test_player_ids c of None \<Rightarrow> [] | Some ids \<Rightarrow> ids)\<rparr>"

definition match_artifact :: "ServerConfig \<Rightarrow> Match \<Rightarrow> EndReason \<Rightarrow> ReplayArtifact" where
  "match_artifact c m r =
     recorder_finalize
       \<lparr>rr_config = replay_config c, rr_entity_spawn_order = map st_player (m_seats m),
        rr_player_entity_mapping = map (\<lambda>(n, st). (st_player st, of_nat n)) (enumerate 1 (m_seats m)),
        rr_initial_baseline = m_opening m, rr_inputs = m_log m, rr_build_fingerprint = m_fingerprint m\<rparr>
       (state_digest (match_world c m)) (of_nat (m_tick m)) (end_reason_as_str r)"

section \<open>Interleaving\<close>

text \<open>
  Between two other events, what a seat receives is the subsequence of its own session's inputs: the
  order in which different clients' inputs arrive is lost.
\<close>

abbreviation input_events :: "(SessionId \<times> InputCmdProto) list \<Rightarrow> event list" where
  "input_events xs \<equiv> map (\<lambda>(sid, i). EvInput sid i) xs"

lemma seat_input_session [simp]: "st_session (seat_input c t x st) = st_session st"
  by (simp add: seat_input_def split_def)

lemma seat_inputs_own:
  "fold (seat_input c t) xs st = fold (seat_input c t) (filter (\<lambda>x. st_session st = Some (fst x)) xs) st"
  by (induction xs arbitrary: st) (auto simp: seat_input_def split_def)

lemma run_inputs:
  "run_spec (seats_event c) m (input_events xs) =
     Some (m\<lparr>m_seats := map (fold (seat_input c (m_tick m)) xs) (m_seats m)\<rparr>)"
  by (induction xs arbitrary: m) (auto simp: split_def comp_def)

lemma run_inputs_interleaved:
  assumes "\<And>sid. filter (\<lambda>x. fst x = sid) xs = filter (\<lambda>x. fst x = sid) ys"
  shows "run_spec (seats_event c) m (input_events xs) = run_spec (seats_event c) m (input_events ys)"
proof -
  have "filter (\<lambda>x. st_session st = Some (fst x)) xs = filter (\<lambda>x. st_session st = Some (fst x)) ys" for st :: Seat
    using assms by (cases "st_session st") (simp_all add: eq_commute)
  then have "fold (seat_input c t) xs st = fold (seat_input c t) ys st" for t st
    by (simp add: seat_inputs_own[of c t xs] seat_inputs_own[of c t ys])
  then show ?thesis by (simp add: run_inputs)
qed

end
