(* ===== verification/ServerRefine.thy ===== *)
theory ServerRefine
  imports ServerDemo MatchSpec
begin

text \<open>
  The Server Edge implements the match of theory \<open>MatchSpec\<close>: reading the seats off the server's
  tables, every event does to them exactly what the specification says, and panics exactly where
  the specification refuses. So the tables, the buffer and the recorder hold nothing else that a
  client or a replay could depend on.
\<close>

section \<open>The seats of a server\<close>

definition seat_of :: "Server \<Rightarrow> Character \<Rightarrow> Seat" where
  "seat_of s ch =
     \<lparr>st_player = ch_player_id ch, st_session = hm_get (s_player_sessions s) (ch_player_id ch),
      st_position = ch_position ch, st_velocity = ch_velocity ch,
      st_intent = (case hm_get (s_last_known_intent s) (ch_player_id ch) of
                     None \<Rightarrow> (f64_zero, f64_zero) | Some d \<Rightarrow> d),
      st_pending = slot (s_input_buffer s) (ch_player_id ch)\<rparr>"

definition match_of :: "Server \<Rightarrow> Match" where
  "match_of s =
     \<lparr>m_tick = unat (w_tick (s_world s)), m_seats = map (seat_of s) (w_characters (s_world s)),
      m_opening = rr_initial_baseline (s_replay_recorder s), m_log = rr_inputs (s_replay_recorder s),
      m_fingerprint = s_build_fingerprint s\<rparr>"

lemma seat_of_simps [simp]:
  "st_player (seat_of s ch) = ch_player_id ch"
  "st_session (seat_of s ch) = hm_get (s_player_sessions s) (ch_player_id ch)"
  "st_position (seat_of s ch) = ch_position ch" "st_velocity (seat_of s ch) = ch_velocity ch"
  "st_pending (seat_of s ch) = slot (s_input_buffer s) (ch_player_id ch)"
  by (simp_all add: seat_of_def)

lemma match_of_simps [simp]:
  "m_tick (match_of s) = unat (w_tick (s_world s))"
  "m_seats (match_of s) = map (seat_of s) (w_characters (s_world s))"
  "m_opening (match_of s) = rr_initial_baseline (s_replay_recorder s)"
  "m_log (match_of s) = rr_inputs (s_replay_recorder s)"
  "m_fingerprint (match_of s) = s_build_fingerprint s"
  by (simp_all add: match_of_def)

text \<open>Two things that never change: the input limit and the recorder's configuration.\<close>

definition frame_inv :: "ServerConfig \<Rightarrow> Server \<Rightarrow> bool" where
  "frame_inv c s \<longleftrightarrow>
     unat (ib_per_tick_limit (s_input_buffer s)) = slot_limit c \<and>
     rr_config (s_replay_recorder s) = replay_config c"

lemma nat_div_ceil:
  fixes a b :: nat
  assumes "0 < b"
  shows "(a + b - 1) div b = (if a mod b = 0 then a div b else a div b + 1)"
proof -
  have "a + b - 1 = a mod b + b - 1 + b * (a div b)" using assms by simp
  then have "(a + b - 1) div b = a div b + (a mod b + b - 1) div b"
    using assms by (simp only: div_mult_self2)
  moreover have "(a mod b + b - 1) div b = (if a mod b = 0 then 0 else 1)"
    using assms mod_less_divisor[OF assms, of a] by (simp add: div_nat_eqI)
  ultimately show ?thesis by simp
qed

lemma unat_div_ceil:
  assumes "div_ceil a b = Done q"
  shows "unat q = (unat a + unat b - 1) div unat b"
proof -
  have b: "0 < unat b" using assms by (auto simp: div_ceil_def unat_gt_0 split: if_splits)
  have rem: "a mod b = 0 \<longleftrightarrow> unat a mod unat b = 0" by (metis unat_eq_zero unat_mod)
  show ?thesis
  proof (cases "a mod b = 0")
    case True
    then show ?thesis using nat_div_ceil[OF b, of "unat a"] assms rem
      by (auto simp: div_ceil_def unat_div split: if_splits)
  next
    case False
    then have r: "unat a mod unat b \<noteq> 0" using rem by simp
    then have "unat b \<noteq> 1" by auto
    then have "unat a div unat b < unat a" using b r by (intro div_less_dividend) (auto intro: ccontr)
    moreover have "unat a < 2 ^ LENGTH(32)" by (rule unsigned_less)
    ultimately have "unat (a div b) + unat (1 :: u32) < 2 ^ LENGTH(32)" by (simp add: unat_div)
    then have "unat (a div b + 1) = unat a div unat b + 1" by (simp add: unat_plus_fits unat_div)
    then show ?thesis
      using nat_div_ceil[OF b, of "unat a"] False r assms
      by (auto simp: div_ceil_def word_gt_0 split: if_splits)
  qed
qed

lemma frame_start: "server_start c s \<Longrightarrow> frame_inv c s"
  by (auto simp: server_start_def Server_new_def Let_def outcome_simps InputBuffer_new_def frame_inv_def
      slot_limit_def replay_config_def ReplayRecorder_new_def unat_div_ceil)

lemma frame_serve:
  assumes "frame_inv c s" and "serve p enc s e = Done s'" and inv: "config_ok c" "players_inv c s"
  shows "frame_inv c s'"
proof (cases e)
  case EvJoin
  with assms show ?thesis
    by (auto simp: outcome_simps frame_inv_def joined_def record_spawn_def elim!: join_Done)
next
  case (EvInput sid i)
  then obtain r where recv: "receive_input p s sid i = Done (s', r)" using assms(2) by (auto simp: outcome_simps)
  then show ?thesis
  proof (cases rule: receive_input_Done)
    case (2 q b)
    from 2(3) have "ib_per_tick_limit b = ib_per_tick_limit (s_input_buffer s)"
      by (cases rule: validate_input_cases) simp_all
    with 2(2) assms(1) show ?thesis by (simp add: frame_inv_def)
  qed (use assms(1) in simp)
next
  case EvStep
  then show ?thesis
    using assms step_Done(14,18)[OF core_distinct[OF inv]]
    by (auto simp: outcome_simps frame_inv_def split: if_splits)
qed (use assms in \<open>auto simp: frame_inv_def server_set_build_fingerprint_def recorder_set_build_fingerprint_def\<close>)

section \<open>Who is online\<close>

lemma online_count:
  assumes c: "config_ok c" and core: "server_core c s"
  shows "seats_online (match_of s) = hm_len (s_sessions s)"
proof -
  let ?ps = "w_players (s_world s)" and ?f = "hm_get (s_player_sessions s)"
  have inv: "players_inv c s" "sessions_inv s" using core by (simp_all add: server_core_def)
  have ps: "?ps = s_entity_spawn_order s" using inv(1) by (simp add: players_inv_def)
  have wf: "hm_wf (s_sessions s)" using inv(2) by (simp add: sessions_inv_def)
  have dist: "distinct ?ps" unfolding ps by (rule core_distinct[OF c inv(1)])
  have owner: "?f (ses_player_id x) = Some sid" if "hm_get (s_sessions s) sid = Some x" for sid x
    using inv(2) that unfolding sessions_inv_def by blast
  have "seats_online (match_of s) = length (filter (\<lambda>q. ?f q \<noteq> None) ?ps)"
    by (simp add: seats_online_def filter_map comp_def)
  also have "\<dots> = card {q \<in> set ?ps. ?f q \<noteq> None}"
    using distinct_card[OF distinct_filter[OF dist]] by (metis set_filter)
  also have "{q \<in> set ?ps. ?f q \<noteq> None} = (\<lambda>sid. the (hm_get (s_session_players s) sid)) `
      {sid. hm_get (s_sessions s) sid \<noteq> None}" (is "?Q = ?g ` ?S")
  proof (intro equalityI subsetI)
    fix q assume "q \<in> ?Q"
    then obtain sid where "?f q = Some sid" by auto
    then have "hm_get (s_session_players s) sid = Some q" by (simp add: session_player_iff[OF inv(2)])
    moreover have "hm_get (s_sessions s) sid \<noteq> None" using calculation inv(2) by (auto simp: sessions_inv_def)
    ultimately show "q \<in> ?g ` ?S" by (force simp: image_iff)
  next
    fix q assume "q \<in> ?g ` ?S"
    then show "q \<in> ?Q" using inv(2) unfolding ps by (auto simp: sessions_inv_def)
  qed
  also have "card (?g ` ?S) = card ?S"
  proof (rule card_image, rule inj_onI)
    fix a b assume "a \<in> ?S" "b \<in> ?S" "?g a = ?g b"
    then obtain x y where "hm_get (s_sessions s) a = Some x" "hm_get (s_sessions s) b = Some y"
      "ses_player_id x = ses_player_id y" using inv(2) by (auto simp: sessions_inv_def)
    then show "a = b" using owner[of a x] owner[of b y] by simp
  qed
  finally show ?thesis by (simp add: hm.len_card[OF wf])
qed

section \<open>Event by event\<close>

lemma match_of_eqI:
  assumes "m_tick m = unat (w_tick (s_world s))" and "m_seats m = map (seat_of s) (w_characters (s_world s))"
    and "m_opening m = rr_initial_baseline (s_replay_recorder s)" and "m_log m = rr_inputs (s_replay_recorder s)"
    and "m_fingerprint m = s_build_fingerprint s"
  shows "m = match_of s"
  using assms by (simp add: match_of_def)

lemma leave_refines:
  assumes core: "server_core c s"
  shows "implements match_of (Done (disconnect_session s sid)) (seats_event c (match_of s) (EvLeave sid))"
proof -
  have ses: "sessions_inv s" using core by (simp add: server_core_def)
  have "seat_leave sid (seat_of s ch) = seat_of (disconnect_session s sid) ch" for ch
  proof (cases "hm_get (s_sessions s) sid")
    case None
    then have "hm_get (s_player_sessions s) (ch_player_id ch) \<noteq> Some sid"
      using ses unfolding sessions_inv_def by (metis option.distinct(1))
    then show ?thesis using None by (simp add: seat_leave_def disconnect_session_def)
  next
    case (Some x)
    then have "hm_get (s_player_sessions s) (ch_player_id ch) = Some sid \<longleftrightarrow> ch_player_id ch = ses_player_id x"
      using ses unfolding sessions_inv_def by (metis option.inject)
    then show ?thesis using Some by (auto simp: seat_leave_def disconnect_session_def seat_of_def)
  qed
  moreover have "s_build_fingerprint (disconnect_session s sid) = s_build_fingerprint s"
    by (simp add: disconnect_session_def split: option.split)
  ultimately show ?thesis by (simp add: match_of_def comp_def)
qed

lemma fingerprint_refines:
  "implements match_of (Done (server_set_build_fingerprint f s)) (seats_event c (match_of s) (EvFingerprint f))"
  by (simp add: server_set_build_fingerprint_def recorder_set_build_fingerprint_def match_of_def seat_of_def)

lemma acceptable_iff:
  assumes c: "config_ok c" and core: "server_core c s" and frame: "frame_inv c s"
  shows "acceptable c (unat (w_tick (s_world s))) (seat_of s ch) i \<longleftrightarrow>
    length (ic_move_dir i) = 2 \<and> finite_vec2 (vec2_of (ic_move_dir i)) \<and>
    w_tick (s_world s) + sc_input_lead_ticks c \<le> ic_tick i \<and>
    ic_tick i \<le> w_tick (s_world s) + sc_max_future_ticks c \<and>
    (case slot (s_input_buffer s) (ch_player_id ch) (ic_tick i) of
       None \<Rightarrow> True | Some e \<Rightarrow> be_receive_count e < ib_per_tick_limit (s_input_buffer s))"
proof -
  have "w_tick (s_world s) \<le> sc_match_duration_ticks c" using core by (simp add: server_core_def players_inv_def)
  note room = core_no_wrap[OF c this]
  have "unat (w_tick (s_world s) + sc_input_lead_ticks c) = unat (w_tick (s_world s)) + unat (sc_input_lead_ticks c)"
    "unat (w_tick (s_world s) + sc_max_future_ticks c) = unat (w_tick (s_world s)) + unat (sc_max_future_ticks c)"
    using room by (simp_all add: unat_plus_fits)
  then show ?thesis
    using frame
    by (simp add: acceptable_def finite_vec2_def vec2_of_def word_le_nat_alt word_less_nat_alt frame_inv_def
        split: option.split)
qed

lemma input_refines:
  assumes c: "config_ok c" and core: "server_core c s" and frame: "frame_inv c s"
  shows "implements match_of (serve p enc s (EvInput sid i)) (seats_event c (match_of s) (EvInput sid i))"
proof -
  let ?t = "unat (w_tick (s_world s))"
  have ses: "sessions_inv s" using core by (simp add: server_core_def)
  obtain s' r where recv: "receive_input p s sid i = Done (s', r)"
    using receive_input_total[OF c core] by blast
  note decision = receive_input_decision[OF c core recv]
  have mine: "st_session (seat_of s ch) = Some sid \<and> acceptable c ?t (seat_of s ch) i \<longleftrightarrow>
      hm_get (s_session_players s) sid = Some (ch_player_id ch) \<and> is_accepted r" for ch
    unfolding seat_of_simps session_player_iff[OF ses, symmetric] acceptable_iff[OF c core frame]
    using decision by auto
  have seat: "seat_input c ?t (sid, i) (seat_of s ch) = seat_of s' ch" for ch
  proof (cases "is_accepted r")
    case False
    then have "s' = s" "\<not> (st_session (seat_of s ch) = Some sid \<and> acceptable c ?t (seat_of s ch) i)"
      using mine[of ch] decision by blast+
    then show ?thesis by (simp only: seat_input_def prod.case if_False)
  next
    case True
    with recv obtain q where q: "hm_get (s_session_players s) sid = Some q"
      "s' = s\<lparr>s_input_buffer := snd (try_buffer (s_input_buffer s) q i)\<rparr>"
      by (rule receive_input_accepted)
    have own: "st_session (seat_of s ch) = Some sid \<and> acceptable c ?t (seat_of s ch) i \<longleftrightarrow> q = ch_player_id ch"
      using mine[of ch] True q(1) by simp
    have room: "case slot (s_input_buffer s) q (ic_tick i) of
        None \<Rightarrow> True | Some e \<Rightarrow> be_receive_count e < ib_per_tick_limit (s_input_buffer s)"
      using decision True q(1) by auto
    have "slot (snd (try_buffer (s_input_buffer s) q i)) (ch_player_id ch) =
        (if q = ch_player_id ch then (slot (s_input_buffer s) q)(ic_tick i \<mapsto>
           (case slot (s_input_buffer s) q (ic_tick i) of None \<Rightarrow> first_entry i | Some e \<Rightarrow> count_in i e))
         else slot (s_input_buffer s) (ch_player_id ch))"
    proof
      fix t
      show "slot (snd (try_buffer (s_input_buffer s) q i)) (ch_player_id ch) t =
        (if q = ch_player_id ch then (slot (s_input_buffer s) q)(ic_tick i \<mapsto>
           (case slot (s_input_buffer s) q (ic_tick i) of None \<Rightarrow> first_entry i | Some e \<Rightarrow> count_in i e))
         else slot (s_input_buffer s) (ch_player_id ch)) t"
        using slots.slot_offer[of "ch_player_id ch" t q i "s_input_buffer s"] room
        by (cases "(ch_player_id ch, t) = (q, ic_tick i)")
           (auto simp: slot_try_buffer not_le[symmetric] split: option.splits)
    qed
    then show ?thesis
      unfolding seat_input_def prod.case own by (simp add: q(2) seat_of_def)
  qed
  obtain b where "s' = s\<lparr>s_input_buffer := b\<rparr>" using receive_input_frame[OF recv] by blast
  then have frame: "s_world s' = s_world s" "s_replay_recorder s' = s_replay_recorder s"
    "s_build_fingerprint s' = s_build_fingerprint s" by simp_all
  then have "serve p enc s (EvInput sid i) = Done s'" by (simp add: recv)
  then show ?thesis unfolding implements_def by (simp add: match_of_def frame seat comp_def)
qed

section \<open>Ticks\<close>

lemma match_world_of:
  assumes "players_inv c s"
  shows "match_world c (match_of s) = s_world s"
proof -
  let ?chs = "w_characters (s_world s)"
  have wf: "world_wf (s_world s)" and c: "w_tick_rate_hz (s_world s) = sc_tick_rate_hz c"
    "w_seed (s_world s) = sc_seed c" using assms by (simp_all add: players_inv_def)
  have "map seat_character (enumerate 1 (map (seat_of s) ?chs)) = ?chs"
  proof (rule nth_equalityI)
    fix k assume "k < length (map seat_character (enumerate 1 (map (seat_of s) ?chs)))"
    then have k: "k < length ?chs" by simp
    have "map ch_entity_id ?chs = map of_nat [1..<Suc (length ?chs)]" using wf by (simp add: world_wf_def)
    then have "map ch_entity_id ?chs ! k = map of_nat [1..<Suc (length ?chs)] ! k" by simp
    then have "ch_entity_id (?chs ! k) = of_nat (Suc k)" using k by (simp del: upt_Suc)
    then show "map seat_character (enumerate 1 (map (seat_of s) ?chs)) ! k = ?chs ! k"
      using k by (simp add: nth_enumerate_eq seat_character_def)
  qed simp
  moreover have "of_nat (unat (w_tick (s_world s))) = w_tick (s_world s)" by simp
  ultimately show ?thesis using wf c by (simp add: match_world_def world_wf_def)
qed

lemma seat_applied_of:
  "seat_applied (unat (w_tick (s_world s))) (seat_of s ch) =
     applied_of (w_tick (s_world s)) (s_input_buffer s) (s_last_known_intent s) (ch_player_id ch)"
  by (simp add: seat_applied_def seat_choice_def applied_of_def choose_input_def take_input_slot seat_of_def
      split: option.split)

lemma seat_direction_of:
  "fst (seat_choice (unat (w_tick (s_world s))) (seat_of s ch)) = tick_direction s (ch_player_id ch)"
  using seat_applied_of[of s ch] by (simp add: seat_applied_def applied_of_direction[symmetric] flip: seat_applied_of)

lemma step_refines:
  assumes c: "config_ok c" "s_config s = c" and core: "server_core c s"
  shows "implements match_of (serve p enc s EvStep) (seats_event c (match_of s) EvStep)"
proof (cases "should_end_match s = None")
  case False
  then have "unat (sc_match_duration_ticks c) \<le> unat (w_tick (s_world s))"
    using c(2) by (simp add: running_iff word_less_nat_alt)
  then show ?thesis using False by (auto simp: match_tick_def)
next
  case True
  let ?t = "w_tick (s_world s)"
  have inv: "players_inv c s" "buffer_inv c s" "recorder_inv c s" using core by (simp_all add: server_core_def)
  obtain s' snap fl bs where st: "step p enc s = Done (s', snap, fl, bs)"
    using step_total[OF c core True] by blast
  note after = step_Done[OF core_distinct[OF c(1) inv(1)] st]
  note moved = step_characters(1)[OF c(1) inv(1) st]
  have lt: "?t < sc_match_duration_ticks c" using True c(2) by (simp add: running_iff)
  note tick = tick_Suc(1)[OF lt]
  have wf: "buffer_wf (s_input_buffer s)" using inv(2) by (simp add: buffer_inv_def)
  have pl: "w_players (s_world s) = s_entity_spawn_order s" using inv(1) by (simp add: players_inv_def)
  have seat: "seat_tick (w_dt_seconds (s_world s)) (unat ?t) (seat_of s ch) =
      seat_of s' (move_character (w_dt_seconds (s_world s)) (tick_direction s (ch_player_id ch)) ch)"
    if ch: "ch \<in> set (w_characters (s_world s))" for ch
  proof -
    have q: "ch_player_id ch \<in> set (s_entity_spawn_order s)" unfolding pl[symmetric] using ch by simp
    have "slot (s_input_buffer s') (ch_player_id ch) =
        (\<lambda>u. if unat u \<le> unat ?t then None else slot (s_input_buffer s) (ch_player_id ch) u)"
      using q tick by (auto simp: after(2,14) stepped_buffer(1)[OF wf] word_le_nat_alt not_less_eq_eq)
    moreover have "hm_get (s_last_known_intent s') (ch_player_id ch) = Some (tick_direction s (ch_player_id ch))"
      using q by (simp add: after(15) applied_of_direction)
    ultimately show ?thesis
      unfolding seat_tick_def seat_direction_of Let_def seat_of_simps
      by (simp add: seat_of_def after(10) move_character_def Let_def seat_character_def)
  qed
  have applied: "map (seat_applied (unat ?t)) (map (seat_of s) (w_characters (s_world s))) = step_applied s"
    unfolding step_applied_def pl[symmetric] by (simp add: seat_applied_of)
  have first: "rr_initial_baseline (s_replay_recorder s') =
      Some (case rr_initial_baseline (s_replay_recorder s) of None \<Rightarrow> baseline (s_world s) | Some b \<Rightarrow> b)"
    using inv(3) by (auto simp: after(18) recorder_inv_def split: if_splits)
  have "match_tick c (match_of s) = match_of s'"
  proof (rule match_of_eqI)
    show "m_seats (match_tick c (match_of s)) = map (seat_of s') (w_characters (s_world s'))"
      using lt seat by (simp add: match_tick_def match_world_of[OF inv(1)] moved comp_def word_less_nat_alt)
  qed (use lt tick applied first in
       \<open>simp_all add: match_tick_def match_world_of[OF inv(1)] after(2,18,19) word_less_nat_alt
       split: option.split\<close>)
  then show ?thesis using True st by simp
qed

section \<open>Joins\<close>

lemma join_refines:
  assumes c: "config_ok c" "s_config s = c" and core: "server_core c s"
    and room: "p = Dev \<or> length (s_entity_spawn_order s) < 255"
  shows "implements match_of (serve p enc s EvJoin) (seats_event c (match_of s) EvJoin)"
proof (cases "join p s")
  case (Panic r)
  let ?n = "length (s_entity_spawn_order s)"
  have inv: "players_inv c s" using core by (simp add: server_core_def)
  have n: "length (m_seats (match_of s)) = ?n" using inv by (simp add: players_inv_def) (metis length_map)
  have "match_join c (match_of s) = None"
    using Panic room unfolding match_join_def Let_def n online_count[OF c(1) core] join_panics_iff[OF c core]
    by (auto split: option.split)
  with Panic show ?thesis by simp
next
  case (Done x)
  let ?n = "length (s_entity_spawn_order s)"
  have inv: "players_inv c s" "sessions_inv s" "buffer_inv c s" "recorder_inv c s"
    using core by (simp_all add: server_core_def)
  have n: "length (m_seats (match_of s)) = ?n" using inv(1) by (simp add: players_inv_def) (metis length_map)
  obtain s' wel where j: "join p s = Done (s', wel)" using Done by (cases x) simp
  then obtain pid w eid where s': "s' = joined s pid w eid" "spawn_character p (s_world s) pid = Done (w, eid)"
    "assign_player_id (s_config s) (s_next_player_id s) = Done pid"
    "p = Dev \<longrightarrow> unat (s_next_player_id s) + 1 < 256" by (rule join_Done)
  note ids = next_ids[OF inv(1)]
  have lt: "?n < 255" using room s'(4) ids(1) by auto
  have pid: "assign_player_id c (s_next_player_id s) = Done pid" using s'(3) c(2) by simp
  note fresh = join_fresh(2)[OF c inv(1) lt pid]
  note pj = players_inv_joined[OF c inv(1) lt pid s'(2)]
  have max: "hm_len (s_sessions s) < sc_max_sessions c"
    using Done join_panics_iff[OF c core, of p MaxSessionsExceeded] by (auto simp: not_less[symmetric])
  have pl: "w_players (s_world s) = s_entity_spawn_order s" using inv(1) by (simp add: players_inv_def)
  have chs: "w_characters w = w_characters (s_world s) @ [Character_new eid pid]"
  proof -
    have "length (w_characters (s_world s)) = ?n" using pl by (metis length_map)
    then have "length (w_characters (s_world s)) + 2 < 2 ^ 64" using lt by simp
    then show ?thesis using spawn_character_wf(5)[OF _ _ s'(2)] inv(1) by (simp add: players_inv_def)
  qed
  have old: "seat_of s' ch = seat_of s ch" if "ch \<in> set (w_characters (s_world s))" for ch
  proof -
    have "ch_player_id ch \<noteq> pid" using that fresh unfolding pl[symmetric] by auto
    then show ?thesis by (simp add: seat_of_def s'(1) joined_def)
  qed
  have new: "seat_of s' (Character_new eid pid) = seat_new pid (of_nat (Suc ?n))"
  proof -
    have "slot (s_input_buffer s) pid = (\<lambda>_. None)"
      using inv(3) fresh unfolding buffer_inv_def by blast
    moreover have "s_next_session_id s = of_nat (Suc ?n)" using inv(1) by (simp add: players_inv_def)
    ultimately show ?thesis by (simp add: seat_of_def seat_new_def s'(1) joined_def Character_new_def)
  qed
  have "match_join c (match_of s) = Some (match_of s\<lparr>m_seats := m_seats (match_of s) @ [seat_new pid (of_nat (Suc ?n))]\<rparr>)"
    using max lt pid inv(1) ids(1) unfolding match_join_def Let_def n online_count[OF c(1) core]
    by (auto simp: assign_player_id_def players_inv_def split: option.splits if_splits)
  also have "\<dots> = Some (match_of s')"
    unfolding option.inject
    by (rule match_of_eqI) (use old new chs pj(2) in \<open>simp_all add: s'(1) joined_def record_spawn_def\<close>)
  finally show ?thesis using j by simp
qed

section \<open>The refinement\<close>

definition refine_inv :: "profile \<Rightarrow> ServerConfig \<Rightarrow> Server \<Rightarrow> bool" where
  "refine_inv p c s \<longleftrightarrow> running_inv p c s \<and> (p = Dev \<or> length (s_entity_spawn_order s) \<le> 255 \<longrightarrow> frame_inv c s)"

text \<open>The 256th join panics in the dev profile; in the release profile at most 255 are considered.\<close>

definition few_joins :: "profile \<Rightarrow> Server \<Rightarrow> event list \<Rightarrow> bool" where
  "few_joins p s es \<longleftrightarrow> p = Dev \<or> length (s_entity_spawn_order s) + count_list es EvJoin \<le> 255"

lemma serve_spawns:
  assumes "serve p enc s e = Done s'" and "config_ok c" "players_inv c s"
  shows "length (s_entity_spawn_order s') = length (s_entity_spawn_order s) + (if e = EvJoin then 1 else 0)"
proof (cases e)
  case EvStep
  with assms(1) show ?thesis
    using step_Done(12)[OF core_distinct[OF assms(2,3)]] by (auto simp: outcome_simps split: if_splits)
qed (use assms(1) in \<open>auto simp: outcome_simps joined_def server_set_build_fingerprint_def
  elim!: join_Done dest: receive_input_frame\<close>)

interpretation match: refining_system "serve p enc" "server_start c" "refine_inv p c" match_of "seats_event c"
    match_new "few_joins p"
  for p enc c
proof unfold_locales
  show "refine_inv p c s" if "server_start c s" for s
    using that server.start_inv frame_start by (auto simp: refine_inv_def)
  show "match_of s = match_new" if "server_start c s" for s
    using that
    by (auto simp: server_start_def Server_new_def Let_def outcome_simps match_of_def match_new_def
        ReplayRecorder_new_def World_new_def split: if_splits)
next
  fix s e s' assume inv: "refine_inv p c s" and serve: "serve p enc s e = Done s'"
  have run: "running_inv p c s" using inv by (simp add: refine_inv_def)
  have "frame_inv c s'" if small: "p = Dev \<or> length (s_entity_spawn_order s') \<le> 255"
  proof -
    have "p = Dev \<or> length (s_entity_spawn_order s) \<le> 255"
      using small serve_spawn_order[OF serve] by auto
    then have "frame_inv c s" "config_ok c" "players_inv c s"
      using inv run by (auto simp: refine_inv_def running_inv_def server_inv_def server_core_def)
    then show ?thesis using frame_serve[OF _ serve] by blast
  qed
  then show "refine_inv p c s'" using running_inv_serve[OF run serve] by (simp add: refine_inv_def)
next
  fix s e es assume inv: "refine_inv p c s" and few: "few_joins p s (e # es)"
  have core: "config_ok c" "s_config s = c" "server_core c s" "frame_inv c s"
    using inv few by (auto simp: refine_inv_def few_joins_def running_inv_def server_inv_def)
  show "implements match_of (serve p enc s e) (seats_event c (match_of s) e)"
  proof (cases e)
    case EvJoin
    moreover have "p = Dev \<or> length (s_entity_spawn_order s) < 255" using few EvJoin by (auto simp: few_joins_def)
    ultimately show ?thesis using join_refines[OF core(1-3), of p enc] by simp
  next
    case (EvInput sid i)
    then show ?thesis using input_refines[OF core(1,3,4)] by simp
  next
    case (EvLeave sid)
    then show ?thesis using leave_refines[OF core(3), of sid] by simp
  next
    case EvStep
    then show ?thesis using step_refines[OF core(1-3)] by simp
  next
    case (EvFingerprint f)
    then show ?thesis using fingerprint_refines[of f s c] by simp
  qed
  show "few_joins p s' es" if "serve p enc s e = Done s'" for s'
    using few serve_spawns[OF that core(1)] core(3)
    by (auto simp: few_joins_def server_core_def split: if_splits)
qed

text \<open>What a client or a replay can see of a server is read off its match.\<close>

lemma artifact_of:
  assumes core: "server_core c s" and frame: "frame_inv c s"
  shows "server_finalize s r = match_artifact c (match_of s) r"
proof -
  have inv: "players_inv c s" "recorder_inv c s" using core by (simp_all add: server_core_def)
  have pl: "w_players (s_world s) = s_entity_spawn_order s" using inv(1) by (simp add: players_inv_def)
  have "map (\<lambda>(n, st). (st_player st, of_nat n)) (enumerate 1 (map (seat_of s) (w_characters (s_world s)))) =
      number_from 1 (w_players (s_world s))"
    by (rule nth_equalityI) (simp_all add: number_from_def nth_enumerate_eq del: upt_Suc)
  then have "s_replay_recorder s =
      \<lparr>rr_config = replay_config c, rr_entity_spawn_order = map st_player (m_seats (match_of s)),
       rr_player_entity_mapping = map (\<lambda>(n, st). (st_player st, of_nat n)) (enumerate 1 (m_seats (match_of s))),
       rr_initial_baseline = m_opening (match_of s), rr_inputs = m_log (match_of s),
       rr_build_fingerprint = m_fingerprint (match_of s)\<rparr>"
    using inv(2) frame pl by (simp add: recorder_inv_def frame_inv_def comp_def)
  then show ?thesis
    by (simp add: server_finalize_def match_artifact_def match_world_of[OF inv(1)])
qed

lemma start_few:
  assumes "server_start c s0" and "p = Dev \<or> count_list es EvJoin \<le> 255"
  shows "few_joins p s0 es"
  using assms by (auto simp: few_joins_def server_start_def Server_new_def Let_def outcome_simps)

lemma run_refines_done:
  assumes "server_start c s0" and "p = Dev \<or> count_list es EvJoin \<le> 255"
    and "run_events (serve p enc) s0 es = Done s"
  shows "run_spec (seats_event c) match_new es = Some (match_of s)" "config_ok c" "server_core c s" "frame_inv c s"
proof -
  note few = start_few[OF assms(1,2)]
  show "run_spec (seats_event c) match_new es = Some (match_of s)"
    using match.reachable_refines[OF assms(1) few, of enc] assms(3) by simp
  have inv: "refine_inv p c s0" using assms(1) by (rule match.start_inv)
  have "refine_inv p c s" "few_joins p s []"
    using match.run_inv[OF inv assms(3)] match.run_fits[OF inv few assms(3)] by simp_all
  then show "config_ok c" "server_core c s" "frame_inv c s"
    by (auto simp: refine_inv_def few_joins_def running_inv_def server_inv_def)
qed

section \<open>Properties\<close>

text \<open>
  C12. The server refines the match: for every sequence of events after its start the server panics
  exactly where the specification refuses, and otherwise its world, the replay it would
  archive, the number of its sessions and who plays in which session are those of the
  specification's match. In the release profile this is claimed for up to 255 joins.
\<close>

theorem server_refines_match:
  assumes "server_start c s0" and "p = Dev \<or> count_list es EvJoin \<le> 255"
  shows "case run_events (serve p enc) s0 es of
      Panic _ \<Rightarrow> run_spec (seats_event c) match_new es = None
    | Done s \<Rightarrow> (\<exists>m. run_spec (seats_event c) match_new es = Some m \<and>
        s_world s = match_world c m \<and> (\<forall>r. server_finalize s r = match_artifact c m r) \<and>
        session_count s = seats_online m \<and>
        (\<forall>sid q. hm_get (s_session_players s) sid = Some q \<longleftrightarrow>
           (\<exists>st \<in> set (m_seats m). st_session st = Some sid \<and> st_player st = q)))"
proof (cases "run_events (serve p enc) s0 es")
  case (Panic r)
  then show ?thesis using match.reachable_refines[OF assms(1) start_few[OF assms], of enc] by simp
next
  case (Done s)
  note run = run_refines_done[OF assms Done]
  have inv: "players_inv c s" "sessions_inv s" using run(3) by (simp_all add: server_core_def)
  have "hm_get (s_session_players s) sid = Some q \<longleftrightarrow>
      (\<exists>st \<in> set (m_seats (match_of s)). st_session st = Some sid \<and> st_player st = q)" for sid q
  proof -
    have "q \<in> set (w_players (s_world s))" if "hm_get (s_session_players s) sid = Some q"
      using that inv by (auto simp: sessions_inv_def players_inv_def)
    then show ?thesis by (auto simp: session_player_iff[OF inv(2)])
  qed
  then show ?thesis
    using Done run(1) match_world_of[OF inv(1)] artifact_of[OF run(3,4)] online_count[OF run(2,3)]
    by (auto simp: session_count_def)
qed

theorem server_refines_match_witness:
  "\<exists>s0 s r. server_start dflt s0 \<and>
     run_events (serve Dev (\<lambda>_. [])) s0 [EvJoin, EvJoin, EvLeave 1] = Done s \<and> session_count s = 1 \<and>
     run_events (serve Dev (\<lambda>_. [])) s0 (replicate 17 EvJoin) = Panic r"
proof -
  obtain s0 where s0: "server_start dflt s0" using dflt_start by blast
  have spec: "run_spec (seats_event dflt) match_new [EvJoin, EvJoin, EvLeave 1] \<noteq> None"
    "\<And>m. run_spec (seats_event dflt) match_new [EvJoin, EvJoin, EvLeave 1] = Some m \<Longrightarrow> seats_online m = 1"
    "run_spec (seats_event dflt) match_new (replicate 17 EvJoin) = None"
    by (simp_all add: match_join_def match_new_def seat_new_def seat_leave_def seats_online_def dflt_simps
        numeral_eq_Suc)
  note spec_of = server_refines_match[OF s0, of Dev]
  obtain s where "run_events (serve Dev (\<lambda>_. [])) s0 [EvJoin, EvJoin, EvLeave 1] = Done s" "session_count s = 1"
    using spec_of[of "[EvJoin, EvJoin, EvLeave 1]" "\<lambda>_. []"] spec(1,2) by (auto split: outcome.splits)
  moreover obtain r where "run_events (serve Dev (\<lambda>_. [])) s0 (replicate 17 EvJoin) = Panic r"
    using spec_of[of "replicate 17 EvJoin" "\<lambda>_. []"] spec(3) by (auto split: outcome.splits)
  ultimately show ?thesis using s0 by blast
qed

text \<open>
  C13. The interleaving of clients is irrelevant: if between two other events the inputs of different
  sessions arrive in another order, each session's own inputs keeping theirs, the server ends in
  the same world and would archive the same replay. So neither the network nor the order in which
  the peers are polled decides anything.
\<close>

theorem interleaving_irrelevant:
  assumes "server_start c s0" and "p = Dev \<or> count_list (es @ fs) EvJoin \<le> 255"
    and "\<And>sid. filter (\<lambda>x. fst x = sid) xs = filter (\<lambda>x. fst x = sid) ys"
    and "run_events (serve p enc) s0 (es @ input_events xs @ fs) = Done s"
  shows "\<exists>s'. run_events (serve p enc) s0 (es @ input_events ys @ fs) = Done s' \<and>
    s_world s' = s_world s \<and> server_finalize s' r = server_finalize s r"
proof -
  have joins: "count_list (es @ input_events zs @ fs) EvJoin = count_list (es @ fs) EvJoin" for zs
    by (induction zs) (auto simp: split_def)
  have few: "p = Dev \<or> count_list (es @ input_events zs @ fs) EvJoin \<le> 255" for zs
    unfolding joins by (rule assms(2))
  note run = run_refines_done[OF assms(1) few assms(4)]
  have same: "run_spec (seats_event c) match_new (es @ input_events ys @ fs) = Some (match_of s)"
    using run(1) by (auto simp: run_spec_append run_inputs_interleaved[OF assms(3)] split: option.splits)
  then obtain s' where s': "run_events (serve p enc) s0 (es @ input_events ys @ fs) = Done s'"
    using match.reachable_refines[OF assms(1) start_few[OF assms(1) few], of enc ys]
    by (cases "run_events (serve p enc) s0 (es @ input_events ys @ fs)") simp_all
  note run' = run_refines_done[OF assms(1) few s']
  have eq: "match_of s' = match_of s" using run'(1) same by simp
  have "players_inv c s" "players_inv c s'" using run(3) run'(3) by (simp_all add: server_core_def)
  from this[THEN match_world_of] eq have "s_world s' = s_world s" by simp
  moreover have "server_finalize s' r = server_finalize s r"
    using artifact_of[OF run(3,4)] artifact_of[OF run'(3,4)] eq by simp
  ultimately show ?thesis using s' by blast
qed

theorem interleaving_irrelevant_witness:
  "\<exists>s0 s s'. server_start dflt s0 \<and>
     run_events (serve Dev (\<lambda>_. [])) s0 [EvJoin, EvJoin, EvInput 1 (cmd 1 0 f64_one 0), EvInput 2 (cmd 1 0 0 0)] = Done s \<and>
     run_events (serve Dev (\<lambda>_. [])) s0 [EvJoin, EvJoin, EvInput 2 (cmd 1 0 0 0), EvInput 1 (cmd 1 0 f64_one 0)] = Done s' \<and>
     server_finalize s' Complete = server_finalize s Complete"
proof -
  let ?i = "(1, cmd 1 0 f64_one 0) :: SessionId \<times> InputCmdProto" and ?j = "(2, cmd 1 0 0 0) :: SessionId \<times> InputCmdProto"
  obtain s0 where s0: "server_start dflt s0" using dflt_start by blast
  have "run_spec (seats_event dflt) match_new ([EvJoin, EvJoin] @ input_events [?i, ?j] @ []) \<noteq> None"
    by (simp add: match_join_def match_new_def seat_new_def seats_online_def dflt_simps)
  then obtain s where s: "run_events (serve Dev (\<lambda>_. [])) s0 ([EvJoin, EvJoin] @ input_events [?i, ?j] @ []) = Done s"
    using match.reachable_refines[OF s0 start_few[OF s0], of Dev "[EvJoin, EvJoin] @ input_events [?i, ?j] @ []" "\<lambda>_. []"]
    by (cases "run_events (serve Dev (\<lambda>_. [])) s0 ([EvJoin, EvJoin] @ input_events [?i, ?j] @ [])") simp_all
  have own: "filter (\<lambda>x. fst x = sid) [?i, ?j] = filter (\<lambda>x. fst x = sid) [?j, ?i]" for sid by simp
  from interleaving_irrelevant[OF s0 _ own s, of Complete] s0 s show ?thesis by fastforce
qed

end
