(* ===== verification/Transport.thy ===== *)
theory Transport
  imports Wire
begin

text \<open>
  The ENet transport as its users see it. ENet is third-party code: what a call of
  \<^verbatim>\<open>host.service()\<close> answers is the next element of an arbitrary finite script, and a host whose
  script is used up is idle. Peers are numbered; what is handed to the host for sending is kept in
  a list.
\<close>

type_synonym PeerID = nat

datatype enet_event =
    Connect PeerID
  | Disconnect PeerID
  | Receive PeerID u8 bytes

type_synonym service_result = "string + enet_event option"

datatype packet =
    Reliable bytes
  | Unreliable bytes

datatype sent =
    SendTo PeerID u8 packet
  | Broadcast u8 packet
  | Flush

datatype io_error =
    TimedOut string
  | NotFound string
  | AlreadyExists string
  | InvalidData string
  | IoOther string

definition enet_error :: "string \<Rightarrow> string \<Rightarrow> io_error" where
  "enet_error what e = IoOther (what @ e)"

end
