(* ===== verification/TickLoop.thy ===== *)
theory TickLoop
  imports ServerProps Transport
begin

text \<open>
  The drive loop, \<^verbatim>\<open>crates/server/src/tick_loop.rs\<close>: accepting and welcoming peers, routing their
  packets to sessions, and ticking until the match ends. ENet is third-party code: what
  \<^verbatim>\<open>host.service()\<close> answers, call by call, is an arbitrary finite script, after which the host is
  idle, and what the loop hands to the host is collected in a list. The protobuf codec and the
  host's peer table are the parameters of type \<open>net\<close>. Time enters as the number of polls that fit
  before the connect deadline; sleeping is in \<open>Pacing\<close>, log output is left out.
\<close>

section \<open>Parameters and state\<close>

record net =
  client_hello_decodes :: "bytes \<Rightarrow> bool"
  input_cmd_decode :: "bytes \<Rightarrow> InputCmdProto option"
  welcome_encode :: "ServerWelcome \<Rightarrow> bytes"
  baseline_encode :: "JoinBaseline \<Rightarrow> bytes"
  snapshot_encode :: "SnapshotProto \<Rightarrow> bytes"
  peer_exists :: "PeerID \<Rightarrow> bool"

definition MAX_CONSECUTIVE_SERVICE_ERRORS :: u32 where
  "MAX_CONSECUTIVE_SERVICE_ERRORS = 32"

record loop_state =
  lp_server :: Server
  lp_peer_sessions :: "(PeerID, SessionId) hashmap"
  lp_sent :: "sent list"

section \<open>Handshake and packets\<close>

definition accept_and_welcome :: "profile \<Rightarrow> net \<Rightarrow> loop_state \<Rightarrow> PeerID \<Rightarrow> loop_state outcome" where
  "accept_and_welcome p n st peer_id =
     obind (accept_session p (lp_server st)) (\<lambda>(server, session_id, _).
       let peer_sessions = hm_insert peer_id session_id (lp_peer_sessions st) in
       obind (welcome_for p server session_id) (\<lambda>(server, welcome).
         let welcome_bytes = welcome_encode n welcome;
             baseline_bytes = baseline_encode n (baseline_proto server)
         in Done \<lparr>lp_server = server, lp_peer_sessions = peer_sessions,
                  lp_sent = lp_sent st @
                    (if peer_exists n peer_id
                     then [SendTo peer_id CHANNEL_CONTROL (Reliable welcome_bytes),
                           SendTo peer_id CHANNEL_CONTROL (Reliable baseline_bytes)]
                     else [])\<rparr>))"

definition is_new_client :: "net \<Rightarrow> loop_state \<Rightarrow> PeerID \<Rightarrow> u8 \<Rightarrow> bytes \<Rightarrow> bool" where
  "is_new_client n st peer_id channel_id data \<longleftrightarrow>
     channel_id = CHANNEL_CONTROL \<and> \<not> hm_has (lp_peer_sessions st) peer_id \<and> client_hello_decodes n data"

fun connect_event :: "profile \<Rightarrow> net \<Rightarrow> loop_state \<Rightarrow> enet_event \<Rightarrow> loop_state outcome" where
  "connect_event p n st (Receive peer_id channel_id data) =
     (if is_new_client n st peer_id channel_id data then accept_and_welcome p n st peer_id
      else Done st)"
| "connect_event p n st (Disconnect peer_id) = Done st"
| "connect_event p n st (Connect peer_id) = Done st"

fun match_event :: "profile \<Rightarrow> net \<Rightarrow> loop_state \<Rightarrow> enet_event \<Rightarrow> loop_state outcome" where
  "match_event p n st (Receive peer_id channel_id data) =
     (if is_new_client n st peer_id channel_id data then accept_and_welcome p n st peer_id
      else if channel_id = CHANNEL_REALTIME then
        (case hm_get (lp_peer_sessions st) peer_id of
           None \<Rightarrow> Done st
         | Some session_id \<Rightarrow>
             (case input_cmd_decode n data of
                None \<Rightarrow> Done st
              | Some input \<Rightarrow>
                  obind (receive_input p (lp_server st) session_id input)
                    (\<lambda>(server, _). Done (st\<lparr>lp_server := server\<rparr>))))
      else Done st)"
| "match_event p n st (Disconnect peer_id) =
     (case hm_get (lp_peer_sessions st) peer_id of
        None \<Rightarrow> Done st
      | Some session_id \<Rightarrow>
          Done (st\<lparr>lp_peer_sessions := hm_remove peer_id (lp_peer_sessions st),
                   lp_server := disconnect_session (lp_server st) session_id\<rparr>))"
| "match_event p n st (Connect peer_id) = Done st"

section \<open>The loops\<close>

text \<open>One drain pass: until the host is idle, or has reported too many errors.\<close>

fun drain ::
  "(loop_state \<Rightarrow> enet_event \<Rightarrow> loop_state outcome) \<Rightarrow> u32 \<Rightarrow> service_result list \<Rightarrow> loop_state \<Rightarrow>
     (loop_state \<times> service_result list) outcome" where
  "drain handle consecutive_errors [] st = Done (st, [])"
| "drain handle consecutive_errors (result # script) st =
     (case result of
        Inr (Some ev) \<Rightarrow> obind (handle st ev) (drain handle consecutive_errors script)
      | Inr None \<Rightarrow> Done (st, script)
      | Inl e \<Rightarrow>
          let consecutive_errors = consecutive_errors + 1 in
          if consecutive_errors \<noteq> 1 \<and> MAX_CONSECUTIVE_SERVICE_ERRORS \<le> consecutive_errors
          then Done (st, script)
          else drain handle consecutive_errors script st)"

fun connect_phase ::
  "profile \<Rightarrow> net \<Rightarrow> nat \<Rightarrow> service_result list \<Rightarrow> loop_state \<Rightarrow>
     (io_error + loop_state \<times> service_result list) outcome" where
  "connect_phase p n 0 script st =
     (if session_count (lp_server st) < 1
      then Done (Inl (TimedOut ''connect_timeout_ms exceeded before any session connected''))
      else Done (Inr (st, script)))"
| "connect_phase p n (Suc polls) script st =
     (if session_count (lp_server st) < 1
      then obind (drain (connect_event p n) 0 script st)
             (\<lambda>(st, script). connect_phase p n polls script st)
      else Done (Inr (st, script)))"

definition tick :: "profile \<Rightarrow> net \<Rightarrow> loop_state \<Rightarrow> loop_state outcome" where
  "tick p n st =
     obind (step p (snapshot_encode n) (lp_server st)) (\<lambda>(server, _, _, snapshot_bytes).
       Done (st\<lparr>lp_server := server,
               lp_sent := lp_sent st @
                 [Broadcast CHANNEL_REALTIME (Unreliable snapshot_bytes), Flush]\<rparr>))"

text \<open>
  The tick loop ends because every tick moves the clock towards the configured duration and
  nothing else moves it: the facts its termination proof needs.
\<close>

definition remaining :: "Server \<Rightarrow> nat" where
  "remaining s = unat (sc_match_duration_ticks (s_config s)) - unat (w_tick (s_world s))"

lemma accept_and_welcome_join:
  "accept_and_welcome p n st peer = Done st' \<longleftrightarrow>
     (\<exists>server sid q e server' wel. accept_session p (lp_server st) = Done (server, sid, q, e) \<and>
        welcome_for p server sid = Done (server', wel) \<and>
        st' = \<lparr>lp_server = server', lp_peer_sessions = hm_insert peer sid (lp_peer_sessions st),
               lp_sent = lp_sent st @
                 (if peer_exists n peer
                  then [SendTo peer CHANNEL_CONTROL (Reliable (welcome_encode n wel)),
                        SendTo peer CHANNEL_CONTROL (Reliable (baseline_encode n (baseline_proto server')))]
                  else [])\<rparr>)"
  by (auto simp: accept_and_welcome_def outcome_simps Let_def)

lemma accept_session_clock:
  "accept_session p s = Done (s', r) \<Longrightarrow>
     s_config s' = s_config s \<and> w_tick (s_world s') = w_tick (s_world s)"
  by (auto simp: accept_session_def Let_def outcome_simps spawn_character_def split: if_splits)

lemma welcome_for_clock:
  "welcome_for p s sid = Done (s', r) \<Longrightarrow>
     s_config s' = s_config s \<and> w_tick (s_world s') = w_tick (s_world s)"
  by (auto simp: welcome_for_def outcome_simps split: option.splits)

lemma match_event_clock:
  assumes "match_event p n st ev = Done st'"
  shows "s_config (lp_server st') = s_config (lp_server st) \<and>
    w_tick (s_world (lp_server st')) = w_tick (s_world (lp_server st))"
  using assms
proof (cases ev)
  case (Receive peer ch data)
  then show ?thesis
    using assms
    by (auto simp: accept_and_welcome_join outcome_simps split: if_splits option.splits
        dest!: accept_session_clock welcome_for_clock receive_input_frame)
qed (auto split: option.splits)

lemma drain_keeps:
  assumes "\<And>st ev st'. handle st ev = Done st' \<Longrightarrow> f st' = f st"
  shows "drain handle k script st = Done (st', rest) \<Longrightarrow> f st' = f st"
proof (induction script arbitrary: k st)
  case (Cons r script)
  then show ?case
    using assms by (auto simp: outcome_simps Let_def split: sum.splits option.splits if_splits)
qed simp

lemma drain_clock:
  "drain (match_event p n) k script st = Done (st', rest) \<Longrightarrow>
     s_config (lp_server st') = s_config (lp_server st) \<and>
     w_tick (s_world (lp_server st')) = w_tick (s_world (lp_server st))"
  using drain_keeps[where f = "\<lambda>st. (s_config (lp_server st), w_tick (s_world (lp_server st)))"
      and handle = "match_event p n" and k = k and script = script and st = st and st' = st' and rest = rest]
    match_event_clock
  by auto

lemma step_clock:
  "step p enc s = Done (s', out) \<Longrightarrow>
     s_config s' = s_config s \<and> w_tick (s_world s') = w_tick (s_world s) + 1"
  by (auto simp: step_def Let_def split_beta outcome_simps record_first_baseline_def advance_Done_iff)

lemma tick_clock:
  "tick p n st = Done st' \<Longrightarrow>
     s_config (lp_server st') = s_config (lp_server st) \<and>
     w_tick (s_world (lp_server st')) = w_tick (s_world (lp_server st)) + 1"
  by (auto simp: tick_def outcome_simps dest!: step_clock)

function tick_loop ::
  "profile \<Rightarrow> net \<Rightarrow> service_result list \<Rightarrow> loop_state \<Rightarrow> (loop_state \<times> EndReason) outcome" where
  "tick_loop p n script st =
     (case should_end_match (lp_server st) of
        Some reason \<Rightarrow> Done (st, reason)
      | None \<Rightarrow>
          (case drain (match_event p n) 0 script st of
             Panic r \<Rightarrow> Panic r
           | Done (st, script) \<Rightarrow>
               (case tick p n st of
                  Panic r \<Rightarrow> Panic r
                | Done st \<Rightarrow> tick_loop p n script st)))"
  by pat_completeness auto

lemma remaining_less:
  assumes "should_end_match (lp_server st) = None"
    and "drain (match_event p n) 0 script st = Done (u, rest)" and "tick p n u = Done v"
  shows "remaining (lp_server v) < remaining (lp_server st)"
proof -
  have lt: "w_tick (s_world (lp_server st)) < sc_match_duration_ticks (s_config (lp_server st))"
    using assms(1) by (simp add: running_iff)
  show ?thesis
    using drain_clock[OF assms(2)] tick_clock[OF assms(3)] tick_Suc(1)[OF lt] lt
    by (simp add: remaining_def word_less_nat_alt)
qed

termination tick_loop
  by (relation "measure (\<lambda>(p, n, script, st). remaining (lp_server st))")
     (auto dest: remaining_less)

declare tick_loop.simps [simp del]

definition run ::
  "profile \<Rightarrow> net \<Rightarrow> io_error option \<Rightarrow> nat \<Rightarrow> service_result list \<Rightarrow> ServerConfig \<Rightarrow>
     (io_error + ReplayArtifact \<times> sent list) outcome" where
  "run p n bind_error polls script config =
     (if sc_tick_rate_hz config = 0 then Panic DurationOutOfRange
      else case bind_error of
        Some e \<Rightarrow> Done (Inl e)
      | None \<Rightarrow>
          obind (Server_new config) (\<lambda>server.
          obind (connect_phase p n polls script \<lparr>lp_server = server, lp_peer_sessions = [], lp_sent = []\<rparr>)
            (\<lambda>r. try_bind r (\<lambda>(st, script).
               obind (tick_loop p n script st) (\<lambda>(st, end_reason).
                 Done (Inr (server_finalize (lp_server st) end_reason, lp_sent st)))))))"

end
