(* ===== verification/TickLoopInv.thy ===== *)
theory TickLoopInv
  imports TickLoop
begin

text \<open>
  The drive loop as a user of the server: every server state it holds is a reachable one, every
  connected session belongs to exactly one peer, and a join needs a packet.
\<close>

section \<open>Packets that may join\<close>

fun is_hello :: "net \<Rightarrow> enet_event \<Rightarrow> bool" where
  "is_hello n (Receive peer ch data) = (ch = CHANNEL_CONTROL \<and> client_hello_decodes n data)"
| "is_hello n _ = False"

fun hellos :: "net \<Rightarrow> service_result list \<Rightarrow> nat" where
  "hellos n [] = 0"
| "hellos n (Inr (Some ev) # script) = of_bool (is_hello n ev) + hellos n script"
| "hellos n (_ # script) = hellos n script"

lemma hellos_Cons: "hellos n script \<le> hellos n (r # script)"
  by (cases "(n, r # script)" rule: hellos.cases) auto

section \<open>The loop's states\<close>

definition server_joins :: "loop_state \<Rightarrow> nat" where
  "server_joins st = length (s_entity_spawn_order (lp_server st))"

text \<open>Peers and sessions correspond one to one.\<close>

definition peer_table_ok :: "(PeerID, SessionId) hashmap \<Rightarrow> (SessionId, Session) hashmap \<Rightarrow> bool" where
  "peer_table_ok peers sessions \<longleftrightarrow> hm_wf peers \<and>
     (\<forall>sid. hm_has sessions sid \<longleftrightarrow> (\<exists>peer. hm_get peers peer = Some sid)) \<and>
     (\<forall>peer peer' sid. hm_get peers peer = Some sid \<longrightarrow> hm_get peers peer' = Some sid \<longrightarrow> peer' = peer)"

definition peers_inv :: "loop_state \<Rightarrow> bool" where
  "peers_inv st \<longleftrightarrow> peer_table_ok (lp_peer_sessions st) (s_sessions (lp_server st))"

lemma peers_invD:
  assumes "peers_inv st"
  shows "hm_wf (lp_peer_sessions st)"
    "hm_get (lp_peer_sessions st) peer = Some sid \<Longrightarrow> hm_has (s_sessions (lp_server st)) sid"
    "hm_has (s_sessions (lp_server st)) sid \<Longrightarrow> \<exists>peer. hm_get (lp_peer_sessions st) peer = Some sid"
    "hm_get (lp_peer_sessions st) peer = Some sid \<Longrightarrow> hm_get (lp_peer_sessions st) peer' = Some sid \<Longrightarrow>
       peer' = peer"
  using assms unfolding peers_inv_def peer_table_ok_def by blast+

definition loop_inv :: "profile \<Rightarrow> net \<Rightarrow> ServerConfig \<Rightarrow> loop_state \<Rightarrow> bool" where
  "loop_inv p n c st \<longleftrightarrow> server_reachable p (snapshot_encode n) c (lp_server st) \<and>
     (p = Dev \<or> server_joins st \<le> 255 \<longrightarrow> peers_inv st)"

lemma loop_inv_core:
  assumes "loop_inv p n c st" and "p = Dev \<or> server_joins st \<le> 255"
  shows "config_ok c" "s_config (lp_server st) = c" "server_core c (lp_server st)" "peers_inv st"
  using assms server_reachable_core[of p "snapshot_encode n" c "lp_server st"]
  by (auto simp: loop_inv_def server_joins_def)

lemma accept_and_welcome_is_join:
  assumes "accept_and_welcome p n st peer = Done st'"
  obtains wel sid where "join p (lp_server st) = Done (lp_server st', wel)"
    "lp_peer_sessions st' = hm_insert peer sid (lp_peer_sessions st)"
    "sid = s_next_session_id (lp_server st)"
    "lp_sent st' = lp_sent st @
       (if peer_exists n peer
        then [SendTo peer CHANNEL_CONTROL (Reliable (welcome_encode n wel)),
              SendTo peer CHANNEL_CONTROL (Reliable (baseline_encode n (baseline_proto (lp_server st'))))]
        else [])"
  using assms
  by (auto simp: accept_and_welcome_join join_def)
     (auto simp: accept_session_def Let_def outcome_simps split: if_splits)

lemma joined_count:
  "join p s = Done (s', wel) \<Longrightarrow>
     length (s_entity_spawn_order s') = Suc (length (s_entity_spawn_order s))"
  by (erule join_Done) (simp add: joined_def)

lemma hm_fresh_exists:
  assumes "\<not> hm_has m peer"
  shows "(\<exists>k. (if k = peer then Some x else hm_get m k) = Some y) \<longleftrightarrow> y = x \<or> (\<exists>k. hm_get m k = Some y)"
proof
  assume "\<exists>k. (if k = peer then Some x else hm_get m k) = Some y"
  then show "y = x \<or> (\<exists>k. hm_get m k = Some y)" by (auto split: if_splits)
next
  assume "y = x \<or> (\<exists>k. hm_get m k = Some y)"
  then show "\<exists>k. (if k = peer then Some x else hm_get m k) = Some y"
  proof
    assume "y = x"
    then show ?thesis by (intro exI[of _ peer]) simp
  next
    assume "\<exists>k. hm_get m k = Some y"
    then obtain k where k: "hm_get m k = Some y" ..
    with assms have "k \<noteq> peer" by auto
    with k show ?thesis by (intro exI[of _ k]) simp
  qed
qed

lemma peers_inv_accepted:
  assumes inv: "peers_inv st" and core: "server_core c (lp_server st)"
    and acc: "accept_and_welcome p n st peer = Done st'" and new: "\<not> hm_has (lp_peer_sessions st) peer"
  shows "peers_inv st'"
proof -
  obtain wel where j: "join p (lp_server st) = Done (lp_server st', wel)"
    and ps: "lp_peer_sessions st' = hm_insert peer (s_next_session_id (lp_server st)) (lp_peer_sessions st)"
    using acc by (rule accept_and_welcome_is_join) blast
  let ?sid = "s_next_session_id (lp_server st)"
  obtain pid w eid where srv: "lp_server st' = joined (lp_server st) pid w eid"
    by (rule join_Done[OF j])
  have sess: "hm_has (s_sessions (lp_server st')) k \<longleftrightarrow> k = ?sid \<or> hm_has (s_sessions (lp_server st)) k" for k
    by (auto simp: srv joined_def)
  have "hm_get (s_sessions (lp_server st)) ?sid = None"
    using core by (cases "hm_get (s_sessions (lp_server st)) ?sid") (auto simp: server_core_def sessions_inv_def)
  then have unused: "hm_get (lp_peer_sessions st) k \<noteq> Some ?sid" for k
    using peers_invD(2)[OF inv, of k ?sid] by auto
  have get: "hm_get (lp_peer_sessions st') k = (if k = peer then Some ?sid else hm_get (lp_peer_sessions st) k)" for k
    by (simp add: ps)
  have "hm_wf (lp_peer_sessions st')" using peers_invD(1)[OF inv] by (simp add: ps)
  moreover have "hm_has (s_sessions (lp_server st')) sid \<longleftrightarrow>
      (\<exists>k. hm_get (lp_peer_sessions st') k = Some sid)" for sid
  proof -
    have "(\<exists>k. hm_get (lp_peer_sessions st') k = Some sid) \<longleftrightarrow>
        sid = ?sid \<or> (\<exists>k. hm_get (lp_peer_sessions st) k = Some sid)"
      unfolding get by (rule hm_fresh_exists[OF new])
    moreover have "hm_has (s_sessions (lp_server st)) sid \<longleftrightarrow> (\<exists>k. hm_get (lp_peer_sessions st) k = Some sid)"
      using peers_invD(2,3)[OF inv] by blast
    ultimately show ?thesis by (simp only: sess)
  qed
  moreover have "k' = k" if "hm_get (lp_peer_sessions st') k = Some sid" "hm_get (lp_peer_sessions st') k' = Some sid" for k k' sid
    using that unused peers_invD(4)[OF inv, of k sid k'] by (auto simp: get split: if_splits)
  ultimately show ?thesis unfolding peers_inv_def peer_table_ok_def by blast
qed

lemma peers_inv_left:
  assumes inv: "peers_inv st" and peer: "hm_get (lp_peer_sessions st) peer = Some sid"
  shows "peers_inv (st\<lparr>lp_peer_sessions := hm_remove peer (lp_peer_sessions st),
                      lp_server := disconnect_session (lp_server st) sid\<rparr>)"
proof -
  have sess: "hm_has (s_sessions (disconnect_session (lp_server st) sid)) k \<longleftrightarrow>
      k \<noteq> sid \<and> hm_has (s_sessions (lp_server st)) k" for k
    using peers_invD(2)[OF inv peer] by (auto simp: disconnect_session_def split: option.split)
  have get: "hm_get (hm_remove peer (lp_peer_sessions st)) k = Some x \<longleftrightarrow>
      x \<noteq> sid \<and> hm_get (lp_peer_sessions st) k = Some x" for k x
    using peers_invD(4)[OF inv, of k x peer] peer by auto
  have same: "hm_has (s_sessions (lp_server st)) x \<longleftrightarrow> (\<exists>k. hm_get (lp_peer_sessions st) k = Some x)" for x
    using peers_invD(2,3)[OF inv] by blast
  have "hm_has (s_sessions (disconnect_session (lp_server st) sid)) x \<longleftrightarrow>
      (\<exists>k. hm_get (hm_remove peer (lp_peer_sessions st)) k = Some x)" for x
    unfolding sess same get by blast
  moreover have "k' = k" if "hm_get (hm_remove peer (lp_peer_sessions st)) k = Some x"
    "hm_get (hm_remove peer (lp_peer_sessions st)) k' = Some x" for k k' x
    using that peers_invD(4)[OF inv] unfolding get by blast
  moreover have "hm_wf (hm_remove peer (lp_peer_sessions st))" using peers_invD(1)[OF inv] by simp
  ultimately have "peer_table_ok (hm_remove peer (lp_peer_sessions st))
      (s_sessions (disconnect_session (lp_server st) sid))"
    unfolding peer_table_ok_def by blast
  then show ?thesis by (simp add: peers_inv_def)
qed

lemma receive_input_sessions:
  "receive_input p s sid i = Done (s', r) \<Longrightarrow> s_sessions s' = s_sessions s"
  using receive_input_frame by fastforce

lemma peers_inv_same:
  "lp_peer_sessions st' = lp_peer_sessions st \<Longrightarrow> s_sessions (lp_server st') = s_sessions (lp_server st) \<Longrightarrow>
     peers_inv st \<Longrightarrow> peers_inv st'"
  by (simp add: peers_inv_def)

text \<open>
  What one event of the tick loop does to the server is one event of the server, or none.
\<close>

lemma match_event_serves:
  assumes "match_event p n st ev = Done st'"
  obtains (join) peer where "accept_and_welcome p n st peer = Done st'" "\<not> hm_has (lp_peer_sessions st) peer"
      "serve p (snapshot_encode n) (lp_server st) EvJoin = Done (lp_server st')"
      "is_hello n ev"
  | (input) sid i r where "receive_input p (lp_server st) sid i = Done (lp_server st', r)"
      "st' = st\<lparr>lp_server := lp_server st'\<rparr>"
  | (left) peer sid where "hm_get (lp_peer_sessions st) peer = Some sid" "ev = Disconnect peer"
      "st' = st\<lparr>lp_peer_sessions := hm_remove peer (lp_peer_sessions st),
               lp_server := disconnect_session (lp_server st) sid\<rparr>"
  | (ignored) "st' = st"
proof (cases ev)
  case (Connect peer)
  with assms show thesis by (intro ignored) simp
next
  case (Disconnect peer)
  then show thesis using assms left[of peer] ignored by (auto split: option.splits)
next
  case (Receive peer ch data)
  show thesis
  proof (cases "is_new_client n st peer ch data")
    case True
    then have acc: "accept_and_welcome p n st peer = Done st'" using assms Receive by simp
    then obtain wel where "join p (lp_server st) = Done (lp_server st', wel)"
      by (rule accept_and_welcome_is_join) blast
    with acc True Receive show thesis by (intro join[of peer]) (auto simp: is_new_client_def)
  next
    case False
    then show thesis
      using assms Receive ignored input
      by (auto simp: outcome_simps split: if_splits option.splits)
  qed
qed

lemma reachable_leave:
  "server_reachable p enc c s \<Longrightarrow> server_reachable p enc c (disconnect_session s sid)"
  by (rule reachable_serve[of p enc c s "EvLeave sid"]) simp_all

lemma reachable_input:
  "server_reachable p enc c s \<Longrightarrow> receive_input p s sid i = Done (s', r) \<Longrightarrow> server_reachable p enc c s'"
  by (rule reachable_serve[of p enc c s "EvInput sid i"]) simp_all

lemma match_event_inv:
  assumes inv: "loop_inv p n c st" and ev: "match_event p n st ev = Done st'"
  shows "loop_inv p n c st' \<and> server_joins st' \<le> server_joins st + of_bool (is_hello n ev)"
  using ev
proof (cases rule: match_event_serves)
  case (join peer)
  have reach: "server_reachable p (snapshot_encode n) c (lp_server st')"
    by (rule reachable_serve[OF _ join(3)]) (use inv in \<open>simp add: loop_inv_def\<close>)
  obtain wel where "join p (lp_server st) = Done (lp_server st', wel)"
    using join(3) by (auto simp: outcome_simps)
  then have count: "server_joins st' = Suc (server_joins st)"
    by (simp add: server_joins_def joined_count)
  have "peers_inv st'" if "p = Dev \<or> server_joins st' \<le> 255"
  proof -
    have small: "p = Dev \<or> server_joins st \<le> 255" using that count by auto
    note core = loop_inv_core[OF inv small]
    show ?thesis by (rule peers_inv_accepted[OF core(4,3) join(1,2)])
  qed
  with reach count join(4) show ?thesis by (simp add: loop_inv_def)
next
  case (input sid i r)
  have frame: "s_entity_spawn_order (lp_server st') = s_entity_spawn_order (lp_server st)"
    using receive_input_frame[OF input(1)] by auto
  have same: "lp_peer_sessions st' = lp_peer_sessions st"
    by (subst input(2)) simp
  have "peers_inv st \<Longrightarrow> peers_inv st'"
    by (rule peers_inv_same[OF same receive_input_sessions[OF input(1)]])
  then show ?thesis
    using inv reachable_input[OF _ input(1)] frame by (auto simp: loop_inv_def server_joins_def)
next
  case (left peer sid)
  then show ?thesis
    using inv peers_inv_left[OF _ left(1)] reachable_leave by (auto simp: loop_inv_def server_joins_def)
next
  case ignored
  with inv show ?thesis by simp
qed

lemma connect_event_match:
  "connect_event p n st ev = Done st' \<Longrightarrow> st' = st \<or> match_event p n st ev = Done st'"
  by (cases ev) (auto split: if_splits)

lemma connect_event_inv:
  assumes "loop_inv p n c st" and "connect_event p n st ev = Done st'"
  shows "loop_inv p n c st' \<and> server_joins st' \<le> server_joins st + of_bool (is_hello n ev)"
  using connect_event_match[OF assms(2)]
proof
  assume "st' = st"
  with assms(1) show ?thesis by simp
qed (rule match_event_inv[OF assms(1)])

lemma drain_ConsE:
  assumes "drain handle k (r # script) st = Done (st', rest)"
  obtains (event) ev u where "r = Inr (Some ev)" "handle st ev = Done u"
      "drain handle k script u = Done (st', rest)"
  | (idle) "st' = st" "rest = script"
  | (more) k' where "drain handle k' script st = Done (st', rest)"
proof (cases r)
  case (Inl e)
  show thesis
  proof (cases "k + 1 \<noteq> 1 \<and> MAX_CONSECUTIVE_SERVICE_ERRORS \<le> k + 1")
    case True
    then show thesis using assms Inl by (intro idle) (simp_all add: Let_def)
  next
    case False
    have "drain handle (k + 1) script st = Done (st', rest)"
      using assms Inl False by (simp only: drain.simps sum.case Let_def if_False)
    then show thesis by (rule more)
  qed
next
  case (Inr out)
  show thesis
  proof (cases out)
    case None
    then show thesis using assms Inr by (intro idle) simp_all
  next
    case (Some ev)
    then obtain u where "handle st ev = Done u" "drain handle k script u = Done (st', rest)"
      using assms Inr by (auto simp: obind_Done_iff)
    then show thesis using Inr Some by (intro event) simp_all
  qed
qed

lemma drain_inv:
  assumes keep: "\<And>st ev st'. loop_inv p n c st \<Longrightarrow> handle st ev = Done st' \<Longrightarrow>
      loop_inv p n c st' \<and> server_joins st' \<le> server_joins st + of_bool (is_hello n ev)"
  shows "loop_inv p n c st \<Longrightarrow> drain handle k script st = Done (st', rest) \<Longrightarrow>
    loop_inv p n c st' \<and> server_joins st' + hellos n rest \<le> server_joins st + hellos n script \<and>
    set rest \<subseteq> set script"
proof (induction script arbitrary: k st)
  case Nil
  then show ?case by simp
next
  case (Cons r script)
  from Cons.prems(2) show ?case
  proof (cases rule: drain_ConsE)
    case (event ev u)
    have inv_u: "loop_inv p n c u" and le: "server_joins u \<le> server_joins st + of_bool (is_hello n ev)"
      using keep[OF Cons.prems(1) event(2)] by simp_all
    from Cons.IH[OF inv_u event(3)] le show ?thesis by (auto simp: event(1))
  next
    case idle
    then show ?thesis using Cons.prems(1) hellos_Cons[of n script r] by auto
  next
    case (more k')
    from Cons.IH[OF Cons.prems(1) more] hellos_Cons[of n script r] show ?thesis by auto
  qed
qed

end
