(* ===== verification/TickLoopSpec.thy ===== *)
theory TickLoopSpec
  imports TickLoopInv ServerDemo
begin

text \<open>
  What the drive loop achieves: under the peer limit that it gives to its transport, and as long as
  there are ids for the players, it does not panic; it times out exactly if it hears no hello in time, and else
  returns the artifact of a reachable server whose match is complete; and what it gets wrong when
  a peer disconnects before the match starts.
\<close>

section \<open>Room for every peer\<close>

text \<open>
  \<^verbatim>\<open>bind_host\<close> gives ENet the peer limit \<open>max_sessions\<close>: at any time the host numbers its peers
  below it. The mapping therefore never holds more peers than there may be sessions.
\<close>

fun event_peer :: "enet_event \<Rightarrow> PeerID" where
  "event_peer (Connect peer) = peer"
| "event_peer (Disconnect peer) = peer"
| "event_peer (Receive peer ch data) = peer"

definition within_peer_limit :: "ServerConfig \<Rightarrow> service_result list \<Rightarrow> bool" where
  "within_peer_limit c script \<longleftrightarrow>
     (\<forall>r \<in> set script. case r of Inr (Some ev) \<Rightarrow> event_peer ev < sc_max_sessions c | _ \<Rightarrow> True)"

definition slots_inv :: "ServerConfig \<Rightarrow> loop_state \<Rightarrow> bool" where
  "slots_inv c st \<longleftrightarrow> (\<forall>peer. hm_has (lp_peer_sessions st) peer \<longrightarrow> peer < sc_max_sessions c)"

lemma room_for_peer:
  assumes peers: "peers_inv st" and core: "server_core c (lp_server st)" and slots: "slots_inv c st"
    and new: "\<not> hm_has (lp_peer_sessions st) peer" and lim: "peer < sc_max_sessions c"
  shows "hm_len (s_sessions (lp_server st)) < sc_max_sessions c"
proof -
  let ?P = "{k. hm_get (lp_peer_sessions st) k \<noteq> None}"
  have wf: "hm_wf (s_sessions (lp_server st))" using core by (simp add: server_core_def sessions_inv_def)
  have fin: "finite ?P" by (rule hm.finite_dom)
  have "{sid. hm_get (s_sessions (lp_server st)) sid \<noteq> None} \<subseteq>
      (\<lambda>k. the (hm_get (lp_peer_sessions st) k)) ` ?P"
  proof
    fix sid
    assume "sid \<in> {sid. hm_get (s_sessions (lp_server st)) sid \<noteq> None}"
    then have "hm_has (s_sessions (lp_server st)) sid" by simp
    from peers_invD(3)[OF peers this] obtain k where "hm_get (lp_peer_sessions st) k = Some sid" ..
    then show "sid \<in> (\<lambda>k. the (hm_get (lp_peer_sessions st) k)) ` ?P"
      by (intro image_eqI[of _ _ k]) simp_all
  qed
  then have "hm_len (s_sessions (lp_server st)) \<le> card ?P"
    unfolding hm.len_card[OF wf] using fin by (rule surj_card_le[rotated])
  moreover have "?P \<subseteq> {..<sc_max_sessions c} - {peer}" using slots new by (auto simp: slots_inv_def)
  then have "card ?P \<le> card ({..<sc_max_sessions c} - {peer})" by (intro card_mono) simp_all
  ultimately show ?thesis using lim by simp
qed

text \<open>How many players there are ids for: 255, or as many as a test configures if these are fewer.\<close>

definition id_room :: "ServerConfig \<Rightarrow> nat" where
  "id_room c = (case sc_test_player_ids c of None \<Rightarrow> 255 | Some ids \<Rightarrow> min 255 (length ids))"

lemma id_room_le: "id_room c \<le> 255"
  by (simp add: id_room_def split: option.split)

lemma room_255: "server_joins st + k \<le> id_room c \<Longrightarrow> server_joins st \<le> 255"
  using id_room_le[of c] by linarith

definition loop_good :: "profile \<Rightarrow> net \<Rightarrow> ServerConfig \<Rightarrow> loop_state \<Rightarrow> bool" where
  "loop_good p n c st \<longleftrightarrow> loop_inv p n c st \<and> slots_inv c st"

lemma match_event_total:
  assumes good: "loop_good p n c st" and room: "server_joins st + of_bool (is_hello n ev) \<le> id_room c"
    and lim: "event_peer ev < sc_max_sessions c"
  shows "\<exists>st'. match_event p n st ev = Done st' \<and> slots_inv c st'"
proof -
  have inv: "loop_inv p n c st" and slots: "slots_inv c st" using good by (simp_all add: loop_good_def)
  have small: "p = Dev \<or> server_joins st \<le> 255" using room_255[OF room] by simp
  note core = loop_inv_core[OF inv small]
  show ?thesis
  proof (cases ev)
    case (Connect peer)
    then show ?thesis using slots by simp
  next
    case (Disconnect peer)
    then show ?thesis using slots by (auto simp: slots_inv_def split: option.split)
  next
    case (Receive peer ch data)
    show ?thesis
    proof (cases "is_new_client n st peer ch data")
      case True
      then have new: "\<not> hm_has (lp_peer_sessions st) peer" by (simp add: is_new_client_def)
      have hello: "is_hello n ev" using True Receive by (simp add: is_new_client_def)
      have lim': "peer < sc_max_sessions c" using lim Receive by simp
      note free = room_for_peer[OF core(4,3) slots new lim']
      have "\<exists>s' wel. join p (lp_server st) = Done (s', wel)"
        by (rule join_total[OF core(1-3) free])
           (use room hello in \<open>auto simp: server_joins_def id_room_def split: option.splits\<close>)
      then obtain st' where acc: "accept_and_welcome p n st peer = Done st'"
        by (auto simp: join_def accept_and_welcome_def outcome_simps Let_def)
      moreover obtain sid where "lp_peer_sessions st' = hm_insert peer sid (lp_peer_sessions st)"
        by (rule accept_and_welcome_is_join[OF acc]) blast
      ultimately show ?thesis using True Receive slots lim' by (auto simp: slots_inv_def)
    next
      case False
      show ?thesis
      proof (cases "ch = CHANNEL_REALTIME \<and> hm_has (lp_peer_sessions st) peer \<and> input_cmd_decode n data \<noteq> None")
        case True
        then obtain sid i where "hm_get (lp_peer_sessions st) peer = Some sid" "input_cmd_decode n data = Some i"
          by auto
        moreover obtain s' r where "receive_input p (lp_server st) sid i = Done (s', r)"
          using receive_input_total[OF core(1,3)] by blast
        ultimately show ?thesis using False True Receive slots by (simp add: slots_inv_def)
      next
        case idle: False
        then have "match_event p n st ev = Done st"
          using False Receive by (auto split: option.split)
        with slots show ?thesis by blast
      qed
    qed
  qed
qed

lemma connect_event_total:
  assumes "loop_good p n c st" and "server_joins st + of_bool (is_hello n ev) \<le> id_room c"
    and "event_peer ev < sc_max_sessions c"
  shows "\<exists>st'. connect_event p n st ev = Done st' \<and> slots_inv c st'"
proof (cases "connect_event p n st ev = match_event p n st ev")
  case True
  with match_event_total[OF assms] show ?thesis by simp
next
  case False
  then have "connect_event p n st ev = Done st" by (cases ev) (auto split: if_splits)
  then show ?thesis using assms(1) by (simp add: loop_good_def)
qed

lemma drain_total:
  assumes keep: "\<And>st ev st'. loop_inv p n c st \<Longrightarrow> handle st ev = Done st' \<Longrightarrow>
      loop_inv p n c st' \<and> server_joins st' \<le> server_joins st + of_bool (is_hello n ev)"
    and total: "\<And>st ev. loop_good p n c st \<Longrightarrow> server_joins st + of_bool (is_hello n ev) \<le> id_room c \<Longrightarrow> event_peer ev < sc_max_sessions c \<Longrightarrow>
      \<exists>st'. handle st ev = Done st' \<and> slots_inv c st'"
  shows "loop_good p n c st \<Longrightarrow> within_peer_limit c script \<Longrightarrow> server_joins st + hellos n script \<le> id_room c \<Longrightarrow>
    \<exists>st' rest. drain handle k script st = Done (st', rest) \<and> loop_good p n c st' \<and>
      within_peer_limit c rest \<and> server_joins st' + hellos n rest \<le> server_joins st + hellos n script"
proof (induction script arbitrary: k st)
  case Nil
  then show ?case by simp
next
  case (Cons r script)
  have lim: "within_peer_limit c script" using Cons.prems(2) by (simp add: within_peer_limit_def)
  have less: "server_joins st + hellos n script \<le> id_room c" using Cons.prems(3) hellos_Cons[of n script r] by simp
  show ?case
  proof (cases r)
    case (Inl e)
    let ?stop = "k + 1 \<noteq> 1 \<and> MAX_CONSECUTIVE_SERVICE_ERRORS \<le> k + 1"
    show ?thesis
    proof (cases ?stop)
      case True
      then have "drain handle k (r # script) st = Done (st, script)" using Inl by (simp add: Let_def)
      then show ?thesis using Cons.prems(1) lim Inl by simp
    next
      case False
      then have "drain handle k (r # script) st = drain handle (k + 1) script st"
        using Inl by (simp only: drain.simps sum.case Let_def if_False)
      then show ?thesis using Cons.IH[OF Cons.prems(1) lim less, of "k + 1"] Inl by auto
    qed
  next
    case (Inr out)
    show ?thesis
    proof (cases out)
      case None
      then show ?thesis using Inr Cons.prems(1) lim by simp
    next
      case (Some ev)
      have ev: "event_peer ev < sc_max_sessions c"
        using Cons.prems(2) Inr Some by (simp add: within_peer_limit_def)
      have room: "server_joins st + of_bool (is_hello n ev) \<le> id_room c" using Cons.prems(3) Inr Some by simp
      obtain u where u: "handle st ev = Done u" "slots_inv c u" using total[OF Cons.prems(1) room ev] by blast
      have inv: "loop_inv p n c st" using Cons.prems(1) by (simp add: loop_good_def)
      note after = keep[OF inv u(1)]
      have good: "loop_good p n c u" using after u(2) by (simp add: loop_good_def)
      have fits: "server_joins u + hellos n script \<le> id_room c" using after Cons.prems(3) Inr Some by simp
      from Cons.IH[OF good lim fits, of k] after show ?thesis
        using Inr Some u(1) by auto
    qed
  qed
qed

lemma drain_match_total:
  assumes "loop_good p n c st" and "within_peer_limit c script"
    and "server_joins st + hellos n script \<le> id_room c"
  shows "\<exists>st' rest. drain (match_event p n) k script st = Done (st', rest) \<and> loop_good p n c st' \<and>
    within_peer_limit c rest \<and> server_joins st' + hellos n rest \<le> server_joins st + hellos n script"
  by (rule drain_total[OF match_event_inv match_event_total assms])

lemma drain_connect_total:
  assumes "loop_good p n c st" and "within_peer_limit c script"
    and "server_joins st + hellos n script \<le> id_room c"
  shows "\<exists>st' rest. drain (connect_event p n) k script st = Done (st', rest) \<and> loop_good p n c st' \<and>
    within_peer_limit c rest \<and> server_joins st' + hellos n rest \<le> server_joins st + hellos n script"
  by (rule drain_total[OF connect_event_inv connect_event_total assms])

section \<open>The connect phase\<close>

text \<open>
  What one pass over \<^verbatim>\<open>service()\<close> hears, apart from the server: the events up to the first idle answer,
  or up to the error that uses up the errors it has left, of 32.
\<close>

fun pass_of :: "nat \<Rightarrow> service_result list \<Rightarrow> enet_event list \<times> service_result list" where
  "pass_of errors [] = ([], [])"
| "pass_of errors (Inr None # script) = ([], script)"
| "pass_of errors (Inr (Some ev) # script) = apfst ((#) ev) (pass_of errors script)"
| "pass_of errors (Inl e # script) = (if errors \<le> 1 then ([], script) else pass_of (errors - 1) script)"

text \<open>A hello is heard in time if one of the first \<open>polls\<close> passes hears it.\<close>

fun hello_in_time :: "net \<Rightarrow> nat \<Rightarrow> service_result list \<Rightarrow> bool" where
  "hello_in_time n 0 script = False"
| "hello_in_time n (Suc polls) script =
     (let (events, rest) = pass_of 32 script in list_ex (is_hello n) events \<or> hello_in_time n polls rest)"

lemma error_limit:
  assumes "k < 32"
  shows "(of_nat k :: u32) + 1 \<noteq> 1 \<and> MAX_CONSECUTIVE_SERVICE_ERRORS \<le> of_nat k + 1 \<longleftrightarrow> k = 31"
proof -
  have "unat ((of_nat k :: u32) + 1) = Suc k" using assms by (simp add: unat_plus_fits unat_of_nat_small)
  then show ?thesis
    using assms by (auto simp: MAX_CONSECUTIVE_SERVICE_ERRORS_def word_le_nat_alt word_unat_eq_iff)
qed

lemma drain_pass:
  "k < 32 \<Longrightarrow> drain handle (of_nat k) script st =
     obind (run_events handle st (fst (pass_of (32 - k) script))) (\<lambda>u. Done (u, snd (pass_of (32 - k) script)))"
proof (induction script arbitrary: k st)
  case (Cons r script)
  show ?case
  proof (cases r)
    case (Inl e)
    show ?thesis
    proof (cases "k = 31")
      case True
      then show ?thesis using Inl error_limit[of 31] by (simp add: Let_def)
    next
      case False
      then have more: "Suc k < 32" using Cons.prems by simp
      have "drain handle (of_nat k) (r # script) st = drain handle (of_nat k + 1) script st"
        using Inl False error_limit[OF Cons.prems] by (simp only: drain.simps sum.case Let_def if_False)
      also have "\<dots> = drain handle (of_nat (Suc k)) script st" by (simp add: add.commute)
      finally show ?thesis using Cons.IH[OF more, of st] Inl more by (simp add: numeral_eq_Suc Suc_diff_le)
    qed
  next
    case (Inr out)
    show ?thesis
    proof (cases out)
      case (Some ev)
      then show ?thesis using Inr Cons.IH[OF Cons.prems] by (cases "handle st ev") simp_all
    qed (simp add: Inr)
  qed
qed simp

lemma drain_from_0:
  "drain handle 0 script st =
     obind (run_events handle st (fst (pass_of 32 script))) (\<lambda>u. Done (u, snd (pass_of 32 script)))"
  using drain_pass[of 0 handle script st] by simp

text \<open>Without a hello nothing happens; the first one connects a session, which then stays.\<close>

definition nobody_yet :: "loop_state \<Rightarrow> bool" where
  "nobody_yet st \<longleftrightarrow> lp_peer_sessions st = [] \<and> s_sessions (lp_server st) = []"

definition somebody :: "loop_state \<Rightarrow> bool" where
  "somebody st \<longleftrightarrow> s_sessions (lp_server st) \<noteq> [] \<and> 0 < server_joins st"

lemma session_count_iff: "session_count s = 0 \<longleftrightarrow> s_sessions s = []"
  by (simp add: session_count_def hm_len_def)

lemma accepted_somebody:
  assumes "accept_and_welcome p n st peer = Done st'"
  shows "somebody st'"
proof -
  obtain wel where j: "join p (lp_server st) = Done (lp_server st', wel)"
    by (rule accept_and_welcome_is_join[OF assms])
  obtain pid w eid where "lp_server st' = joined (lp_server st) pid w eid" by (rule join_Done[OF j])
  then show ?thesis
    by (cases "s_sessions (lp_server st)") (auto simp: somebody_def server_joins_def joined_def hm_insert_def)
qed

lemma connect_event_somebody: "somebody st \<Longrightarrow> connect_event p n st ev = Done st' \<Longrightarrow> somebody st'"
  by (cases ev) (auto intro: accepted_somebody split: if_splits)

lemma connect_event_nobody:
  assumes "nobody_yet st" and "connect_event p n st ev = Done st'"
  shows "if is_hello n ev then somebody st' else st' = st"
  using assms
  by (cases ev) (auto simp: is_new_client_def nobody_yet_def hm_get_def intro: accepted_somebody)

lemma connect_pass_somebody:
  "somebody st \<Longrightarrow> run_events (connect_event p n) st evs = Done st' \<Longrightarrow> somebody st'"
  by (induction evs arbitrary: st) (auto simp: obind_Done_iff dest: connect_event_somebody)

lemma connect_pass:
  "nobody_yet st \<Longrightarrow> run_events (connect_event p n) st evs = Done st' \<Longrightarrow>
     if list_ex (is_hello n) evs then somebody st' else st' = st"
proof (induction evs arbitrary: st)
  case (Cons ev evs)
  from Cons.prems(2) obtain u where u: "connect_event p n st ev = Done u"
    "run_events (connect_event p n) u evs = Done st'" by (auto simp: obind_Done_iff)
  show ?case
  proof (cases "is_hello n ev")
    case True
    then have "somebody u" using connect_event_nobody[OF Cons.prems(1) u(1)] by simp
    with True show ?thesis using connect_pass_somebody[OF _ u(2)] by simp
  next
    case False
    then have "u = st" using connect_event_nobody[OF Cons.prems(1) u(1)] by simp
    with False u(2) show ?thesis using Cons.IH[OF Cons.prems(1)] by simp
  qed
qed simp

lemma connect_phase_exact:
  "loop_good p n c st \<Longrightarrow> nobody_yet st \<Longrightarrow> within_peer_limit c script \<Longrightarrow>
     server_joins st + hellos n script \<le> id_room c \<Longrightarrow>
   (if hello_in_time n polls script
    then \<exists>st' rest. connect_phase p n polls script st = Done (Inr (st', rest)) \<and> loop_good p n c st' \<and>
       somebody st' \<and> within_peer_limit c rest \<and> server_joins st' + hellos n rest \<le> server_joins st + hellos n script
    else connect_phase p n polls script st =
       Done (Inl (TimedOut ''connect_timeout_ms exceeded before any session connected'')))"
proof (induction polls arbitrary: script st)
  case 0
  then have "session_count (lp_server st) < 1" by (simp add: nobody_yet_def session_count_iff)
  then show ?case by simp
next
  case (Suc polls)
  have none: "session_count (lp_server st) < 1" using Suc.prems(2) by (simp add: nobody_yet_def session_count_iff)
  obtain u rest where u: "drain (connect_event p n) 0 script st = Done (u, rest)" "loop_good p n c u"
    "within_peer_limit c rest" "server_joins u + hellos n rest \<le> server_joins st + hellos n script"
    using drain_connect_total[OF Suc.prems(1,3,4)] by blast
  obtain evs where evs: "pass_of 32 script = (evs, rest)" "run_events (connect_event p n) st evs = Done u"
    using u(1) by (cases "pass_of 32 script") (auto simp: drain_from_0 obind_Done_iff)
  note heard = connect_pass[OF Suc.prems(2) evs(2)]
  show ?case
  proof (cases "list_ex (is_hello n) evs")
    case True
    then have "somebody u" using heard by simp
    moreover from this have "connect_phase p n polls rest u = Done (Inr (u, rest))"
      by (cases polls) (simp_all add: somebody_def session_count_iff)
    ultimately show ?thesis using True none u evs(1) by simp
  next
    case False
    then have same: "u = st" using heard by simp
    have "server_joins st + hellos n rest \<le> id_room c" using u(4) same Suc.prems(4) by simp
    from Suc.IH[OF Suc.prems(1,2) u(3) this] u(4) show ?thesis
      using False none u(1) evs(1) same by (auto split: if_splits)
  qed
qed

section \<open>The tick loop\<close>

fun is_broadcast :: "sent \<Rightarrow> bool" where
  "is_broadcast (Broadcast ch pkt) = True"
| "is_broadcast _ = False"

definition broadcasts :: "loop_state \<Rightarrow> nat" where
  "broadcasts st = length (filter is_broadcast (lp_sent st))"

lemma match_event_broadcasts: "match_event p n st ev = Done st' \<Longrightarrow> broadcasts st' = broadcasts st"
proof (erule match_event_serves)
  fix peer
  assume "accept_and_welcome p n st peer = Done st'"
  then show "broadcasts st' = broadcasts st"
    by (auto simp: broadcasts_def accept_and_welcome_join)
next
  fix sid i r
  assume "st' = st\<lparr>lp_server := lp_server st'\<rparr>"
  then have "lp_sent st' = lp_sent st" by (metis loop_state.ext_inject loop_state.surjective loop_state.update_convs(1))
  then show "broadcasts st' = broadcasts st" by (simp add: broadcasts_def)
qed (simp_all add: broadcasts_def)

lemma connect_event_broadcasts: "connect_event p n st ev = Done st' \<Longrightarrow> broadcasts st' = broadcasts st"
  using connect_event_match[of p n st ev st'] match_event_broadcasts by auto

lemma tick_total:
  assumes good: "loop_good p n c st" and small: "server_joins st \<le> 255"
    and run: "should_end_match (lp_server st) = None"
  shows "\<exists>st'. tick p n st = Done st' \<and> loop_good p n c st' \<and> server_joins st' = server_joins st \<and>
    broadcasts st' = Suc (broadcasts st)"
proof -
  have inv: "loop_inv p n c st" using good by (simp add: loop_good_def)
  note core = loop_inv_core[OF inv disjI2[OF small]]
  obtain s' snap fl bs where st: "step p (snapshot_encode n) (lp_server st) = Done (s', snap, fl, bs)"
    using step_total[OF core(1-3) run] by blast
  have pinv: "players_inv c (lp_server st)" using core(3) by (simp add: server_core_def)
  note after = step_Done[OF core_distinct[OF core(1) pinv] st]
  have "server_reachable p (snapshot_encode n) c s'"
  proof (rule reachable_serve)
    show "server_reachable p (snapshot_encode n) c (lp_server st)" using inv by (simp add: loop_inv_def)
    show "serve p (snapshot_encode n) (lp_server st) EvStep = Done s'" using run st by simp
  qed
  moreover define st' where "st' = st\<lparr>lp_server := s',
      lp_sent := lp_sent st @ [Broadcast CHANNEL_REALTIME (Unreliable bs), Flush]\<rparr>"
  ultimately have reach: "server_reachable p (snapshot_encode n) c (lp_server st')" by simp
  have "peers_inv st'" using core(4) after(7) by (simp add: st'_def peers_inv_def)
  then have "loop_good p n c st'"
    using reach good by (simp add: loop_good_def loop_inv_def slots_inv_def st'_def)
  moreover have "tick p n st = Done st'" by (simp add: tick_def st st'_def)
  moreover have "server_joins st' = server_joins st" "broadcasts st' = Suc (broadcasts st)"
    using after(12) by (simp_all add: st'_def server_joins_def broadcasts_def)
  ultimately show ?thesis by blast
qed

lemma drain_mono:
  fixes f :: "loop_state \<Rightarrow> nat"
  assumes "\<And>st ev st'. handle st ev = Done st' \<Longrightarrow> f st \<le> f st'"
  shows "drain handle k script st = Done (st', rest) \<Longrightarrow> f st \<le> f st'"
proof (induction script arbitrary: k st)
  case (Cons r script)
  from Cons.prems show ?case
    by (cases rule: drain_ConsE) (use Cons.IH assms order_trans in blast)+
qed simp

lemma match_event_joins: "match_event p n st ev = Done st' \<Longrightarrow> server_joins st \<le> server_joins st'"
proof (erule match_event_serves)
  fix peer
  assume "serve p (snapshot_encode n) (lp_server st) EvJoin = Done (lp_server st')"
  then show "server_joins st \<le> server_joins st'" unfolding server_joins_def by (rule serve_spawn_order)
next
  fix sid i r
  assume "receive_input p (lp_server st) sid i = Done (lp_server st', r)"
  then show "server_joins st \<le> server_joins st'" using receive_input_frame by (fastforce simp: server_joins_def)
qed (auto simp: server_joins_def disconnect_session_def split: option.split)

lemma tick_loop_total:
  "loop_good p n c st \<Longrightarrow> within_peer_limit c script \<Longrightarrow> server_joins st + hellos n script \<le> id_room c \<Longrightarrow>
    \<exists>st'. tick_loop p n script st = Done (st', Complete) \<and> loop_inv p n c st' \<and>
      server_joins st \<le> server_joins st' \<and> server_joins st' \<le> server_joins st + hellos n script \<and>
      should_end_match (lp_server st') = Some Complete \<and>
      broadcasts st' = broadcasts st + remaining (lp_server st)"
proof (induction "remaining (lp_server st)" arbitrary: st script rule: less_induct)
  case less
  show ?case
  proof (cases "should_end_match (lp_server st)")
    case (Some reason)
    then have "remaining (lp_server st) = 0" "reason = Complete"
      by (simp_all add: should_end_match_def remaining_def word_le_nat_alt split: if_splits)
    then show ?thesis
      using Some less.prems by (simp add: tick_loop.simps[of p n script st] loop_good_def)
  next
    case None
    obtain u rest where u: "drain (match_event p n) 0 script st = Done (u, rest)" "loop_good p n c u"
      "within_peer_limit c rest" "server_joins u + hellos n rest \<le> server_joins st + hellos n script"
      using drain_match_total[OF less.prems] by blast
    have fits: "server_joins u + hellos n rest \<le> id_room c" using u(4) less.prems(3) by simp
    note clock = drain_clock[OF u(1)]
    have run: "should_end_match (lp_server u) = None"
      using None clock by (simp add: should_end_match_def)
    obtain v where v: "tick p n u = Done v" "loop_good p n c v" "server_joins v = server_joins u"
      "broadcasts v = Suc (broadcasts u)"
      using tick_total[OF u(2) room_255[OF fits] run] by auto
    have dec: "remaining (lp_server v) < remaining (lp_server st)" by (rule remaining_less[OF None u(1) v(1)])
    have lt: "w_tick (s_world (lp_server st)) < sc_match_duration_ticks (s_config (lp_server st))"
      using None by (simp add: running_iff)
    have one: "remaining (lp_server st) = Suc (remaining (lp_server v))"
      using clock tick_clock[OF v(1)] tick_Suc(1)[OF lt] lt by (simp add: remaining_def word_less_nat_alt)
    have same: "broadcasts u = broadcasts st"
      by (rule drain_keeps[OF match_event_broadcasts u(1)])
    have fits_v: "server_joins v + hellos n rest \<le> id_room c" using fits v(3) by simp
    from less.hyps[OF dec v(2) u(3) fits_v] obtain st' where
      "tick_loop p n rest v = Done (st', Complete)" "loop_inv p n c st'"
      "server_joins v \<le> server_joins st'" "server_joins st' \<le> server_joins v + hellos n rest"
      "should_end_match (lp_server st') = Some Complete"
      "broadcasts st' = broadcasts v + remaining (lp_server v)" by blast
    moreover have "server_joins st \<le> server_joins u" by (rule drain_mono[OF match_event_joins u(1)])
    ultimately show ?thesis
      using None u(1,4) v(1,3,4) one same by (simp add: tick_loop.simps[of p n script st])
  qed
qed

section \<open>The whole run\<close>

lemma Server_new_total:
  assumes "0 < sc_tick_rate_hz c"
  shows "\<exists>s. Server_new c = Done s"
  using assms
  by (auto simp: Server_new_def Let_def World_new_eq InputBuffer_new_def div_ceil_def outcome_simps)

text \<open>What every event keeps, the connect phase keeps; what every tick keeps too, the tick loop keeps.\<close>

lemma connect_phase_keeps:
  assumes keep: "\<And>st ev st'. connect_event p n st ev = Done st' \<Longrightarrow> f st' = f st"
  shows "connect_phase p n polls script st = Done (Inr (st', rest)) \<Longrightarrow> f st' = f st"
proof (induction polls arbitrary: script st)
  case (Suc polls)
  show ?case
  proof (cases "session_count (lp_server st) < 1")
    case True
    then obtain u mid where u: "drain (connect_event p n) 0 script st = Done (u, mid)"
      "connect_phase p n polls mid u = Done (Inr (st', rest))"
      using Suc.prems by (auto simp: obind_Done_iff)
    have "f u = f st" by (rule drain_keeps[OF keep u(1)])
    with Suc.IH[OF u(2)] show ?thesis by simp
  qed (use Suc.prems in auto)
qed (auto split: if_splits)

lemma tick_loop_keeps:
  assumes event: "\<And>st ev st'. match_event p n st ev = Done st' \<Longrightarrow> f st' = f st"
    and tick: "\<And>st st'. tick p n st = Done st' \<Longrightarrow> f st' = f st"
  shows "tick_loop p n script st = Done (st', reason) \<Longrightarrow> f st' = f st"
proof (induction "remaining (lp_server st)" arbitrary: st script rule: less_induct)
  case less
  show ?case
  proof (cases "should_end_match (lp_server st)")
    case (Some r)
    then show ?thesis using less.prems by (simp add: tick_loop.simps[of p n script st])
  next
    case None
    obtain u rest v where u: "drain (match_event p n) 0 script st = Done (u, rest)" and v: "tick p n u = Done v"
      and loop: "tick_loop p n rest v = Done (st', reason)"
      using less.prems None by (auto simp: tick_loop.simps[of p n script st] split: outcome.splits)
    have "f u = f st" by (rule drain_keeps[OF event u])
    with less.hyps[OF remaining_less[OF None u v] loop] tick[OF v] show ?thesis by simp
  qed
qed

lemma connect_phase_clock:
  assumes "connect_phase p n polls script st = Done (Inr (st', rest))"
  shows "w_tick (s_world (lp_server st')) = w_tick (s_world (lp_server st)) \<and> broadcasts st' = broadcasts st"
proof -
  let ?f = "\<lambda>st. (w_tick (s_world (lp_server st)), broadcasts st)"
  have "?f v = ?f w" if "connect_event p n w ev = Done v" for v w ev
    using connect_event_match[OF that] match_event_clock[of p n w ev v] match_event_broadcasts[of p n w ev v]
    by auto
  from connect_phase_keeps[where f = ?f, OF this assms] show ?thesis by simp
qed

text \<open>Nothing in the loop sets a build fingerprint.\<close>

lemma match_event_fingerprint:
  assumes "match_event p n st ev = Done st'"
  shows "s_build_fingerprint (lp_server st') = s_build_fingerprint (lp_server st)"
  using assms
proof (cases rule: match_event_serves)
  case (join peer)
  obtain wel where "join p (lp_server st) = Done (lp_server st', wel)"
    by (rule accept_and_welcome_is_join[OF join(1)])
  then show ?thesis by (rule join_Done) (simp add: joined_def)
next
  case (input sid i r)
  then show ?thesis using receive_input_frame[OF input(1)] by auto
next
  case (left peer sid)
  then show ?thesis by (auto simp: disconnect_session_def split: option.split)
next
  case ignored
  then show ?thesis by simp
qed

lemma tick_fingerprint:
  "tick p n st = Done st' \<Longrightarrow> s_build_fingerprint (lp_server st') = s_build_fingerprint (lp_server st)"
  by (auto simp: tick_def outcome_simps step_def Let_def split_beta record_first_baseline_def)

lemma run_fingerprint:
  assumes "Server_new c = Done s0"
    and "connect_phase p n polls script \<lparr>lp_server = s0, lp_peer_sessions = [], lp_sent = []\<rparr> = Done (Inr (u, rest))"
    and "tick_loop p n rest u = Done (v, reason)"
  shows "s_build_fingerprint (lp_server v) = None"
proof -
  let ?f = "\<lambda>st. s_build_fingerprint (lp_server st)"
  have "?f y = ?f x" if "connect_event p n x ev = Done y" for x y ev
    using connect_event_match[OF that] match_event_fingerprint by auto
  from connect_phase_keeps[where f = ?f, OF this assms(2)]
  have "?f u = s_build_fingerprint s0" by simp
  moreover have "?f v = ?f u"
    by (rule tick_loop_keeps[where f = ?f, OF match_event_fingerprint tick_fingerprint assms(3)])
  moreover have "s_build_fingerprint s0 = None"
    using assms(1) by (auto simp: Server_new_def Let_def outcome_simps)
  ultimately show ?thesis by simp
qed

lemma loop_start:
  assumes "server_start c s"
  shows "loop_good p n c \<lparr>lp_server = s, lp_peer_sessions = [], lp_sent = []\<rparr>" "w_tick (s_world s) = 0"
    "server_joins \<lparr>lp_server = s, lp_peer_sessions = [], lp_sent = []\<rparr> = 0"
    "nobody_yet \<lparr>lp_server = s, lp_peer_sessions = [], lp_sent = []\<rparr>"
proof -
  have new: "s_sessions s = []" "s_entity_spawn_order s = []" "w_tick (s_world s) = 0"
    using assms
    by (auto simp: server_start_def Server_new_def Let_def outcome_simps World_new_def split: if_splits)
  then show "w_tick (s_world s) = 0" by simp
  have "peers_inv \<lparr>lp_server = s, lp_peer_sessions = [], lp_sent = []\<rparr>"
    by (simp add: peers_inv_def peer_table_ok_def new)
  then show "loop_good p n c \<lparr>lp_server = s, lp_peer_sessions = [], lp_sent = []\<rparr>"
    using server_reachable.start[OF assms] by (simp add: loop_good_def loop_inv_def slots_inv_def)
  show "server_joins \<lparr>lp_server = s, lp_peer_sessions = [], lp_sent = []\<rparr> = 0"
    "nobody_yet \<lparr>lp_server = s, lp_peer_sessions = [], lp_sent = []\<rparr>"
    by (simp_all add: server_joins_def nobody_yet_def new)
qed

lemma run_total:
  assumes c: "config_ok c" and rate: "0 < sc_tick_rate_hz c"
    and lim: "within_peer_limit c script" and few: "hellos n script \<le> id_room c"
  shows "if hello_in_time n polls script
    then \<exists>s sent. run p n None polls script c = Done (Inr (server_finalize s Complete, sent)) \<and>
       server_reachable p (snapshot_encode n) c s \<and> should_end_match s = Some Complete \<and>
       w_tick (s_world s) = sc_match_duration_ticks c \<and> s_build_fingerprint s = None \<and>
       0 < length (s_entity_spawn_order s) \<and> length (s_entity_spawn_order s) \<le> hellos n script \<and>
       length (filter is_broadcast sent) = unat (sc_match_duration_ticks c)
    else run p n None polls script c =
       Done (Inl (TimedOut ''connect_timeout_ms exceeded before any session connected''))"
proof -
  obtain s0 where s0: "Server_new c = Done s0" using Server_new_total[OF rate] ..
  then have start: "server_start c s0" using c by (simp add: server_start_def)
  let ?st = "\<lparr>lp_server = s0, lp_peer_sessions = [], lp_sent = []\<rparr>"
  note st = loop_start(1)[OF start, of p n] loop_start(2-4)[OF start]
  have fits: "server_joins ?st + hellos n script \<le> id_room c" using st(3) few by simp
  have rate': "sc_tick_rate_hz c \<noteq> 0" using rate by auto
  note connected = connect_phase_exact[OF st(1,4) lim fits, where polls = polls]
  show ?thesis
  proof (cases "hello_in_time n polls script")
    case False
    then show ?thesis using connected s0 rate' by (simp add: run_def)
  next
    case True
    then obtain u rest where u: "connect_phase p n polls script ?st = Done (Inr (u, rest))" "loop_good p n c u"
      "somebody u" "within_peer_limit c rest" "server_joins u + hellos n rest \<le> hellos n script"
      using connected st(3) by auto
    have fits_u: "server_joins u + hellos n rest \<le> id_room c" using u(5) few by simp
    obtain v where v: "tick_loop p n rest u = Done (v, Complete)" "loop_inv p n c v"
      "server_joins u \<le> server_joins v" "server_joins v \<le> server_joins u + hellos n rest"
      "should_end_match (lp_server v) = Some Complete"
      "broadcasts v = broadcasts u + remaining (lp_server u)"
      using tick_loop_total[OF u(2,4) fits_u] by blast
    have "server_joins v \<le> 255" using v(4) fits_u id_room_le[of c] by linarith
    note core = loop_inv_core[OF v(2) disjI2[OF this]]
    have conf: "s_config (lp_server u) = c"
      using loop_inv_core(2) u(2) room_255[OF fits_u] by (fastforce simp: loop_good_def)
    have "w_tick (s_world (lp_server v)) \<le> sc_match_duration_ticks c"
      using core(3) by (simp add: server_core_def players_inv_def)
    moreover have "sc_match_duration_ticks c \<le> w_tick (s_world (lp_server v))"
      using v(5) core(2) by (simp add: should_end_match_def split: if_splits)
    ultimately have tick: "w_tick (s_world (lp_server v)) = sc_match_duration_ticks c" by simp
    have "broadcasts v = unat (sc_match_duration_ticks c)"
      using v(6) connect_phase_clock[OF u(1)] st(2) conf by (simp add: broadcasts_def remaining_def)
    moreover have "run p n None polls script c = Done (Inr (server_finalize (lp_server v) Complete, lp_sent v))"
      using s0 rate' u(1) v(1) by (simp add: run_def)
    moreover have "server_reachable p (snapshot_encode n) c (lp_server v)" using v(2) by (simp add: loop_inv_def)
    moreover have "s_build_fingerprint (lp_server v) = None" by (rule run_fingerprint[OF s0 u(1) v(1)])
    moreover have "0 < server_joins v" "server_joins v \<le> hellos n script"
      using u(3,5) v(3,4) by (simp_all add: somebody_def)
    ultimately show ?thesis using True v(5) tick unfolding broadcasts_def server_joins_def by auto
  qed
qed

section \<open>A peer that leaves too early\<close>

fun sent_to :: "PeerID \<Rightarrow> sent \<Rightarrow> bool" where
  "sent_to peer (SendTo k ch pkt) = (k = peer)"
| "sent_to peer _ = False"

lemma mapped_peer_event:
  assumes "match_event p n st ev = Done st'" and "ev \<noteq> Disconnect peer"
    and "hm_get (lp_peer_sessions st) peer = Some sid"
  shows "hm_get (lp_peer_sessions st') peer = Some sid \<and>
    filter (sent_to peer) (lp_sent st') = filter (sent_to peer) (lp_sent st)"
  using assms(1)
proof (cases rule: match_event_serves)
  case (join k)
  then have "k \<noteq> peer" using assms(3) by auto
  then show ?thesis using join(1) assms(3) by (auto simp: accept_and_welcome_join)
next
  case (input k i r)
  have "lp_peer_sessions st' = lp_peer_sessions st" "lp_sent st' = lp_sent st" by (subst input(2); simp)+
  with assms(3) show ?thesis by simp
next
  case (left k x)
  then have "k \<noteq> peer" using assms(2) by auto
  with left assms(3) show ?thesis by simp
next
  case ignored
  with assms(3) show ?thesis by simp
qed

lemma mapped_peer_drain:
  "drain (match_event p n) k script st = Done (st', rest) \<Longrightarrow> Inr (Some (Disconnect peer)) \<notin> set script \<Longrightarrow>
     hm_get (lp_peer_sessions st) peer = Some sid \<Longrightarrow>
     hm_get (lp_peer_sessions st') peer = Some sid \<and>
     filter (sent_to peer) (lp_sent st') = filter (sent_to peer) (lp_sent st)"
proof (induction script arbitrary: k st)
  case (Cons r script)
  have tail: "Inr (Some (Disconnect peer)) \<notin> set script" using Cons.prems(2) by simp
  from Cons.prems(1) show ?case
  proof (cases rule: drain_ConsE)
    case (event ev u)
    have "ev \<noteq> Disconnect peer" using Cons.prems(2) event(1) by auto
    from mapped_peer_event[OF event(2) this Cons.prems(3)] Cons.IH[OF event(3) tail] show ?thesis by auto
  next
    case idle
    then show ?thesis using Cons.prems(3) by simp
  next
    case (more k')
    from Cons.IH[OF more tail Cons.prems(3)] show ?thesis .
  qed
qed simp

lemma drain_rest: "drain handle k script st = Done (st', rest) \<Longrightarrow> set rest \<subseteq> set script"
proof (induction script arbitrary: k st)
  case (Cons r script)
  from Cons.prems show ?case
    by (cases rule: drain_ConsE) (use Cons.IH in auto)
qed simp

lemma mapped_peer_loop:
  "tick_loop p n script st = Done (st', reason) \<Longrightarrow> Inr (Some (Disconnect peer)) \<notin> set script \<Longrightarrow>
     hm_get (lp_peer_sessions st) peer = Some sid \<Longrightarrow>
     hm_get (lp_peer_sessions st') peer = Some sid \<and>
     filter (sent_to peer) (lp_sent st') = filter (sent_to peer) (lp_sent st)"
proof (induction "remaining (lp_server st)" arbitrary: st script rule: less_induct)
  case less
  show ?case
  proof (cases "should_end_match (lp_server st)")
    case (Some r)
    then show ?thesis using less.prems by (simp add: tick_loop.simps[of p n script st])
  next
    case None
    obtain u rest v where u: "drain (match_event p n) 0 script st = Done (u, rest)" and v: "tick p n u = Done v"
      and loop: "tick_loop p n rest v = Done (st', reason)"
      using less.prems(1) None by (auto simp: tick_loop.simps[of p n script st] split: outcome.splits)
    have quiet: "Inr (Some (Disconnect peer)) \<notin> set rest" using drain_rest[OF u] less.prems(2) by auto
    note same = mapped_peer_drain[OF u less.prems(2,3)]
    have "lp_peer_sessions v = lp_peer_sessions u"
      "filter (sent_to peer) (lp_sent v) = filter (sent_to peer) (lp_sent u)"
      using v by (auto simp: tick_def outcome_simps)
    then show ?thesis
      using less.hyps[OF remaining_less[OF None u v] loop quiet] same by simp
  qed
qed

section \<open>Properties\<close>

definition demo_net :: net where
  "demo_net = \<lparr>client_hello_decodes = \<lambda>_. True, input_cmd_decode = \<lambda>_. None, welcome_encode = \<lambda>_. [],
     baseline_encode = \<lambda>_. [], snapshot_encode = \<lambda>_. [], peer_exists = \<lambda>_. True\<rparr>"

lemma demo_connected:
  obtains s0 st sid wel where "Server_new dflt = Done s0" "server_start dflt s0"
    "connect_event Dev demo_net \<lparr>lp_server = s0, lp_peer_sessions = [], lp_sent = []\<rparr>
       (Receive 3 CHANNEL_CONTROL []) = Done st"
    "loop_good Dev demo_net dflt st" "server_joins st \<le> 1" "lp_peer_sessions st = hm_insert 3 sid []"
    "join Dev s0 = Done (lp_server st, wel)"
proof -
  let ?ev = "Receive 3 CHANNEL_CONTROL []"
  have fits: "0 < sc_tick_rate_hz dflt" "id_room dflt = 255" "event_peer ?ev < sc_max_sessions dflt"
    by (simp_all add: dflt_simps id_room_def)
  obtain s0 where s0: "Server_new dflt = Done s0" using Server_new_total[OF fits(1)] ..
  then have start: "server_start dflt s0" using dflt_ok by (simp add: server_start_def)
  let ?st = "\<lparr>lp_server = s0, lp_peer_sessions = [], lp_sent = []\<rparr>"
  note first = loop_start[OF start]
  have inv0: "loop_inv Dev demo_net dflt ?st" using first(1) by (simp add: loop_good_def)
  have room: "server_joins ?st + of_bool (is_hello demo_net ?ev) \<le> id_room dflt"
    using first(3) fits(2) by (simp add: demo_net_def)
  obtain st where st: "connect_event Dev demo_net ?st ?ev = Done st" "slots_inv dflt st"
    using connect_event_total[OF first(1) room fits(3)] by blast
  have acc: "accept_and_welcome Dev demo_net ?st 3 = Done st"
    using st(1) by (simp add: is_new_client_def demo_net_def)
  obtain wel sid where sid: "lp_peer_sessions st = hm_insert 3 sid []" "join Dev s0 = Done (lp_server st, wel)"
    by (rule accept_and_welcome_is_join[OF acc]) simp
  note kept = connect_event_inv[OF inv0 st(1)]
  have "loop_good Dev demo_net dflt st" using kept st(2) by (simp add: loop_good_def)
  moreover have "server_joins st \<le> 1" using kept first(3) by (simp add: demo_net_def)
  ultimately show thesis using s0 start st(1) sid by (intro that)
qed

text \<open>
  C27. When the server process runs a match to its end: given a valid configuration with a tick rate, a
  transport that numbers its peers below the peer limit it was given, and no more hello packets than
  there are player ids (255, or the configured test ids if these are fewer), \<open>run\<close> returns without a panic,
  whatever else the packets hold and however often \<open>service\<close> fails. It reports the connect timeout exactly
  if none of the passes before the deadline hears a hello. If one does, it returns the artifact
  of a reachable server that at least one and at most one player per hello has joined and whose tick is
  exactly the match duration, after one broadcast per tick.
\<close>

theorem run_completes:
  assumes "config_ok c" and "0 < sc_tick_rate_hz c"
    and "within_peer_limit c script" and "hellos n script \<le> id_room c"
  shows "if hello_in_time n polls script
    then \<exists>s sent. run p n None polls script c = Done (Inr (server_finalize s Complete, sent)) \<and>
       server_reachable p (snapshot_encode n) c s \<and> should_end_match s = Some Complete \<and>
       w_tick (s_world s) = sc_match_duration_ticks c \<and>
       0 < length (s_entity_spawn_order s) \<and> length (s_entity_spawn_order s) \<le> hellos n script \<and>
       length (filter is_broadcast sent) = unat (sc_match_duration_ticks c)
    else run p n None polls script c =
       Done (Inl (TimedOut ''connect_timeout_ms exceeded before any session connected''))"
  using run_total[OF assms, of polls p] by (auto split: if_splits)

theorem run_completes_witness:
  "(\<exists>s sent. run Dev demo_net None 1 [Inl ''e'', Inr (Some (Receive 3 CHANNEL_CONTROL []))] dflt =
      Done (Inr (server_finalize s Complete, sent)) \<and> length (s_entity_spawn_order s) = 1 \<and>
      length (filter is_broadcast sent) = 1800) \<and>
   run Dev demo_net None 1 [Inr None, Inr (Some (Receive 3 CHANNEL_CONTROL []))] dflt =
      Done (Inl (TimedOut ''connect_timeout_ms exceeded before any session connected''))"
proof -
  let ?hello = "Inr (Some (Receive 3 CHANNEL_CONTROL [])) :: service_result"
  have rate: "0 < sc_tick_rate_hz dflt" by (simp add: dflt_simps)
  have ok: "within_peer_limit dflt [r, ?hello]" "hellos demo_net [r, ?hello] \<le> id_room dflt"
    if "r = Inl ''e'' \<or> r = Inr None" for r
    using that by (auto simp: dflt_simps within_peer_limit_def id_room_def)
  have heard: "hello_in_time demo_net 1 [Inl ''e'', ?hello]" "\<not> hello_in_time demo_net 1 [Inr None, ?hello]"
    "hellos demo_net [Inl ''e'', ?hello] = 1"
    by (simp_all add: demo_net_def)
  have "\<exists>s sent. run Dev demo_net None 1 [Inl ''e'', ?hello] dflt = Done (Inr (server_finalize s Complete, sent)) \<and>
      length (s_entity_spawn_order s) = 1 \<and> length (filter is_broadcast sent) = 1800"
    using run_completes[OF dflt_ok rate ok[of "Inl ''e''"], of 1 Dev] heard(1,3)
    by (auto simp: dflt_simps Suc_le_eq dest!: le_antisym)
  moreover have "run Dev demo_net None 1 [Inr None, ?hello] dflt =
      Done (Inl (TimedOut ''connect_timeout_ms exceeded before any session connected''))"
    using run_completes[OF dflt_ok rate ok[of "Inr None"], of 1 Dev] heard(2) by simp
  ultimately show ?thesis by blast
qed

text \<open>
  C29. A peer that disconnects during the connect phase locks its slot: the event is ignored there, so
  the peer stays mapped to its dead session, and through the whole match - until the transport
  reports another disconnect of the slot - it stays mapped and nothing is sent to it, so a client
  that reconnects on the slot is never welcomed. The tick loop's own comment explains why the
  mapping has to be removed.
\<close>

theorem early_disconnect_locks_slot:
  assumes "hm_get (lp_peer_sessions st) peer = Some sid"
    and "connect_event p n st (Disconnect peer) = Done u"
    and "tick_loop p n script u = Done (v, reason)" and "Inr (Some (Disconnect peer)) \<notin> set script"
  shows "hm_get (lp_peer_sessions v) peer = Some sid \<and>
    filter (sent_to peer) (lp_sent v) = filter (sent_to peer) (lp_sent st)"
proof -
  have "u = st" using assms(2) by simp
  then show ?thesis using mapped_peer_loop[OF assms(3,4)] assms(1) by simp
qed

theorem early_disconnect_locks_slot_witness:
  "\<exists>st sid v. hm_get (lp_peer_sessions st) 3 = Some sid \<and>
     connect_event Dev demo_net st (Disconnect 3) = Done st \<and>
     tick_loop Dev demo_net [Inr (Some (Receive 3 CHANNEL_CONTROL []))] st = Done (v, Complete) \<and>
     hm_get (lp_peer_sessions v) 3 = Some sid"
proof -
  let ?script = "[Inr (Some (Receive 3 CHANNEL_CONTROL []))]"
  have lim: "within_peer_limit dflt ?script"
    by (simp add: dflt_simps within_peer_limit_def)
  obtain s0 st sid where good: "loop_good Dev demo_net dflt st" and "server_joins st \<le> 1"
    and sid: "lp_peer_sessions st = hm_insert 3 sid []"
    by (rule demo_connected)
  then have few: "server_joins st + hellos demo_net ?script \<le> id_room dflt"
    by (simp add: demo_net_def id_room_def dflt_simps)
  obtain v where v: "tick_loop Dev demo_net ?script st = Done (v, Complete)"
    using tick_loop_total[OF good lim few] by blast
  have map3: "hm_get (lp_peer_sessions st) 3 = Some sid" by (simp add: sid)
  have dis: "connect_event Dev demo_net st (Disconnect 3) = Done st" by simp
  have quiet: "Inr (Some (Disconnect 3)) \<notin> set ?script" by simp
  from early_disconnect_locks_slot[OF map3 dis v quiet] map3 dis v show ?thesis by blast
qed

end
