(* ===== verification/Client.thy ===== *)
theory Client
  imports Transport
begin

text \<open>
  The game client, \<^verbatim>\<open>crates/client/src\<close>: tick floor (\<^verbatim>\<open>tick_floor.rs\<close>), input sequence numbers and
  input sending (\<^verbatim>\<open>input.rs\<close>), handshake (\<^verbatim>\<open>connection.rs\<close>), baseline and snapshot reception
  (\<^verbatim>\<open>state.rs\<close>), the client object (\<^verbatim>\<open>lib.rs\<close>) and scripted movement (\<^verbatim>\<open>sim_input.rs\<close>). The
  protobuf codec is the parameter of type \<open>client_net\<close>; timeouts are the number of polls that fit
  before the deadline.
\<close>

section \<open>Tick floor\<close>

datatype TickFloor = TickFloor Tick

text \<open>Floors are ordered by their tick; folding one in takes the maximum.\<close>

fun floor_get :: "TickFloor \<Rightarrow> Tick" where
  "floor_get (TickFloor t) = t"

definition from_welcome :: "Tick \<Rightarrow> TickFloor" where
  "from_welcome target_tick_floor = TickFloor target_tick_floor"

fun observe :: "Tick \<Rightarrow> TickFloor \<Rightarrow> TickFloor" where
  "observe received (TickFloor t) = TickFloor (max t received)"

instantiation TickFloor :: linorder
begin

definition less_eq_TickFloor :: "TickFloor \<Rightarrow> TickFloor \<Rightarrow> bool" where
  "less_eq_TickFloor f g \<longleftrightarrow> floor_get f \<le> floor_get g"

definition less_TickFloor :: "TickFloor \<Rightarrow> TickFloor \<Rightarrow> bool" where
  "less_TickFloor f g \<longleftrightarrow> floor_get f < floor_get g"

instance
proof
  fix f g h :: TickFloor
  show "f < g \<longleftrightarrow> f \<le> g \<and> \<not> g \<le> f" by (auto simp: less_eq_TickFloor_def less_TickFloor_def)
  show "f \<le> f" by (simp add: less_eq_TickFloor_def)
  show "f \<le> g \<Longrightarrow> g \<le> h \<Longrightarrow> f \<le> h" by (simp add: less_eq_TickFloor_def)
  show "f \<le> g \<Longrightarrow> g \<le> f \<Longrightarrow> f = g" by (cases f; cases g) (simp add: less_eq_TickFloor_def)
  show "f \<le> g \<or> g \<le> f" by (auto simp: less_eq_TickFloor_def)
qed

end

lemma observe_max: "observe t f = max f (TickFloor t)"
  by (cases f) (simp add: max_def less_eq_TickFloor_def)

section \<open>The host\<close>

text \<open>What the host answers to an attempt to send; with no answer left, no peer is connected.\<close>

datatype send_answer =
    NoPeer
  | SendFails string
  | Queued PeerID

record client_host =
  ch_events :: "service_result list"
  ch_sends :: "send_answer list"
  ch_sent :: "sent list"

record client_net =
  hello_bytes :: bytes
  welcome_decode :: "bytes \<Rightarrow> ServerWelcome option"
  baseline_decode :: "bytes \<Rightarrow> JoinBaseline option"
  snapshot_decode :: "bytes \<Rightarrow> SnapshotProto option"
  input_encode :: "InputCmdProto \<Rightarrow> bytes"

definition CHANNEL_LIMIT :: nat where "CHANNEL_LIMIT = 2"

definition next_answer :: "client_host \<Rightarrow> send_answer \<times> client_host" where
  "next_answer h =
     (case ch_sends h of [] \<Rightarrow> (NoPeer, h) | a # as \<Rightarrow> (a, h\<lparr>ch_sends := as\<rparr>))"

section \<open>Input\<close>

datatype InputSeqGen = InputSeqGen InputSeq

definition InputSeqGen_new :: InputSeqGen where
  "InputSeqGen_new = InputSeqGen 0"

fun seq_advance :: "profile \<Rightarrow> InputSeqGen \<Rightarrow> (InputSeqGen \<times> InputSeq) outcome" where
  "seq_advance p (InputSeqGen n) = obind (checked_plus p n 1) (\<lambda>n. Done (InputSeqGen n, n))"

definition target_tick :: "Tick \<Rightarrow> Tick \<Rightarrow> Tick" where
  "target_tick flr desired_tick = max desired_tick flr"

datatype SendInputError = SendIo io_error | NotConnected

definition input_cmd :: "Tick \<Rightarrow> Tick \<Rightarrow> InputSeq \<Rightarrow> vec2 \<Rightarrow> InputCmdProto" where
  "input_cmd flr desired_tick input_seq move_dir =
     \<lparr>ic_tick = target_tick flr desired_tick, ic_input_seq = input_seq, ic_move_dir = to_vec move_dir\<rparr>"

definition send_input ::
  "client_net \<Rightarrow> client_host \<Rightarrow> Tick \<Rightarrow> Tick \<Rightarrow> InputSeq \<Rightarrow> vec2 \<Rightarrow> (SendInputError + unit) \<times> client_host" where
  "send_input n h flr desired_tick input_seq move_dir =
     (let bytes = input_encode n (input_cmd flr desired_tick input_seq move_dir) in
      case next_answer h of
        (NoPeer, h) \<Rightarrow> (Inl NotConnected, h)
      | (SendFails e, h) \<Rightarrow> (Inl (SendIo (enet_error ''failed to send InputCmdProto: '' e)), h)
      | (Queued peer, h) \<Rightarrow>
          (Inr (), h\<lparr>ch_sent := ch_sent h @ [SendTo peer CHANNEL_REALTIME (Unreliable bytes), Flush]\<rparr>))"

section \<open>Handshake\<close>

datatype ConnectError = ConnectIo io_error | ConnectTimeout

definition service_error :: "string \<Rightarrow> io_error" where
  "service_error e = enet_error ''ENet service error: '' e"

text \<open>One pass over what has arrived: say hello once connected, stop at the first welcome.\<close>

fun handshake_pass ::
  "client_net \<Rightarrow> bool \<Rightarrow> service_result list \<Rightarrow> client_host \<Rightarrow>
     ConnectError + (ServerWelcome option \<times> bool \<times> client_host)" where
  "handshake_pass n hello_sent [] h = Inr (None, hello_sent, h\<lparr>ch_events := []\<rparr>)"
| "handshake_pass n hello_sent (Inl e # events) h = Inl (ConnectIo (service_error e))"
| "handshake_pass n hello_sent (Inr None # events) h = Inr (None, hello_sent, h\<lparr>ch_events := events\<rparr>)"
| "handshake_pass n hello_sent (Inr (Some (Connect peer)) # events) h =
     (if hello_sent then handshake_pass n hello_sent events h
      else case next_answer h of
        (SendFails e, h) \<Rightarrow> Inl (ConnectIo (enet_error ''failed to send ClientHello: '' e))
      | (_, h) \<Rightarrow>
          handshake_pass n True events
            (h\<lparr>ch_sent := ch_sent h @ [SendTo peer CHANNEL_CONTROL (Reliable (hello_bytes n))]\<rparr>))"
| "handshake_pass n hello_sent (Inr (Some (Receive peer channel_id data)) # events) h =
     (if channel_id = CHANNEL_CONTROL then
        (case welcome_decode n data of
           Some welcome \<Rightarrow> Inr (Some welcome, hello_sent, h\<lparr>ch_events := events\<rparr>)
         | None \<Rightarrow> handshake_pass n hello_sent events h)
      else handshake_pass n hello_sent events h)"
| "handshake_pass n hello_sent (Inr (Some (Disconnect peer)) # events) h =
     handshake_pass n hello_sent events h"

fun handshake ::
  "client_net \<Rightarrow> nat \<Rightarrow> bool \<Rightarrow> client_host \<Rightarrow> ConnectError + (client_host \<times> ServerWelcome)" where
  "handshake n 0 hello_sent h = Inl ConnectTimeout"
| "handshake n (Suc polls) hello_sent h =
     (case handshake_pass n hello_sent (ch_events h) h of
        Inl e \<Rightarrow> Inl e
      | Inr (Some welcome, _, h) \<Rightarrow> Inr (h, welcome)
      | Inr (None, hello_sent, h) \<Rightarrow> handshake n polls hello_sent h)"

text \<open>\<open>setup_error\<close>: what binding the socket, creating the host or initiating the connection answers.\<close>

definition connection_connect ::
  "client_net \<Rightarrow> io_error option \<Rightarrow> nat \<Rightarrow> client_host \<Rightarrow> ConnectError + (client_host \<times> ServerWelcome)" where
  "connection_connect n setup_error polls h =
     (case setup_error of Some e \<Rightarrow> Inl (ConnectIo e) | None \<Rightarrow> handshake n polls False h)"

section \<open>Baseline and snapshots\<close>

datatype BaselineError = BaselineIo io_error | BaselineTimeout | BaselineInvalid string

fun baseline_pass ::
  "client_net \<Rightarrow> service_result list \<Rightarrow> (BaselineError + Baseline option) \<times> service_result list" where
  "baseline_pass n [] = (Inr None, [])"
| "baseline_pass n (Inl e # events) = (Inl (BaselineIo (service_error e)), events)"
| "baseline_pass n (Inr None # events) = (Inr None, events)"
| "baseline_pass n (Inr (Some (Receive peer channel_id data)) # events) =
     (if channel_id = CHANNEL_CONTROL then
        (case baseline_decode n data of
           Some join_baseline \<Rightarrow>
             (case Baseline_try_from join_baseline of
                Inl e \<Rightarrow> (Inl (BaselineInvalid e), events)
              | Inr received \<Rightarrow> (Inr (Some received), events))
         | None \<Rightarrow> baseline_pass n events)
      else baseline_pass n events)"
| "baseline_pass n (Inr (Some ev) # events) = baseline_pass n events"

fun state_recv_baseline :: "client_net \<Rightarrow> nat \<Rightarrow> client_host \<Rightarrow> (BaselineError + Baseline) \<times> client_host" where
  "state_recv_baseline n 0 h = (Inl BaselineTimeout, h)"
| "state_recv_baseline n (Suc polls) h =
     (case baseline_pass n (ch_events h) of
        (Inl e, events) \<Rightarrow> (Inl e, h\<lparr>ch_events := events\<rparr>)
      | (Inr (Some received), events) \<Rightarrow> (Inr received, h\<lparr>ch_events := events\<rparr>)
      | (Inr None, events) \<Rightarrow> state_recv_baseline n polls (h\<lparr>ch_events := events\<rparr>))"

datatype SnapshotError = SnapshotIo io_error

definition is_newer :: "Tick option \<Rightarrow> Tick \<Rightarrow> bool" where
  "is_newer existing candidate_tick \<longleftrightarrow> (case existing of None \<Rightarrow> True | Some t \<Rightarrow> t < candidate_tick)"

text \<open>What one event contributes: a well-formed snapshot on the realtime channel, with its floor.\<close>

fun snapshot_of_event :: "client_net \<Rightarrow> enet_event \<Rightarrow> (Snapshot \<times> Tick) option" where
  "snapshot_of_event n (Receive peer channel_id data) =
     (if channel_id = CHANNEL_REALTIME then
        (case snapshot_decode n data of
           None \<Rightarrow> None
         | Some proto \<Rightarrow>
             (case Snapshot_try_from proto of
                Inl e \<Rightarrow> None
              | Inr snapshot \<Rightarrow> Some (snapshot, sp_target_tick_floor proto)))
      else None)"
| "snapshot_of_event n ev = None"

definition take_newer :: "(Snapshot \<times> Tick) option \<Rightarrow> (Snapshot \<times> Tick) option \<Rightarrow> (Snapshot \<times> Tick) option" where
  "take_newer latest candidate =
     (case candidate of
        None \<Rightarrow> latest
      | Some (snapshot, flr) \<Rightarrow>
          if is_newer (map_option (\<lambda>(s, _). sn_tick s) latest) (sn_tick snapshot)
          then Some (snapshot, flr) else latest)"

fun poll_events ::
  "client_net \<Rightarrow> (Snapshot \<times> Tick) option \<Rightarrow> service_result list \<Rightarrow>
     (SnapshotError + (Snapshot \<times> Tick) option) \<times> service_result list" where
  "poll_events n latest [] = (Inr latest, [])"
| "poll_events n latest (Inl e # events) = (Inl (SnapshotIo (service_error e)), events)"
| "poll_events n latest (Inr None # events) = (Inr latest, events)"
| "poll_events n latest (Inr (Some ev) # events) =
     poll_events n (take_newer latest (snapshot_of_event n ev)) events"

section \<open>The client\<close>

record TestClient =
  tc_host :: client_host
  tc_welcome :: ServerWelcome
  tc_tick_floor :: TickFloor
  tc_baseline :: "Baseline option"
  tc_snapshot :: "Snapshot option"
  tc_input_seq :: InputSeqGen

definition client_connect ::
  "client_net \<Rightarrow> io_error option \<Rightarrow> nat \<Rightarrow> client_host \<Rightarrow> ConnectError + TestClient" where
  "client_connect n setup_error polls h =
     (case connection_connect n setup_error polls h of
        Inl e \<Rightarrow> Inl e
      | Inr (host, welcome) \<Rightarrow>
          Inr \<lparr>tc_host = host, tc_welcome = welcome,
               tc_tick_floor = from_welcome (sw_target_tick_floor welcome),
               tc_baseline = None, tc_snapshot = None, tc_input_seq = InputSeqGen_new\<rparr>)"

definition client_recv_baseline ::
  "client_net \<Rightarrow> nat \<Rightarrow> TestClient \<Rightarrow> TestClient \<times> (BaselineError + Baseline)" where
  "client_recv_baseline n polls c =
     (case state_recv_baseline n polls (tc_host c) of
        (Inl e, host) \<Rightarrow> (c\<lparr>tc_host := host\<rparr>, Inl e)
      | (Inr received, host) \<Rightarrow> (c\<lparr>tc_host := host, tc_baseline := Some received\<rparr>, Inr received))"

definition client_tick_floor :: "TestClient \<Rightarrow> Tick" where
  "client_tick_floor c = floor_get (tc_tick_floor c)"

definition observe_tick_floor :: "Tick \<Rightarrow> TestClient \<Rightarrow> TestClient" where
  "observe_tick_floor received c = c\<lparr>tc_tick_floor := observe received (tc_tick_floor c)\<rparr>"

definition client_send_input ::
  "profile \<Rightarrow> client_net \<Rightarrow> Tick \<Rightarrow> vec2 \<Rightarrow> TestClient \<Rightarrow> (TestClient \<times> (SendInputError + unit)) outcome" where
  "client_send_input p n desired_tick move_dir c =
     obind (seq_advance p (tc_input_seq c)) (\<lambda>(gen, input_seq).
       let (r, host) = send_input n (tc_host c) (client_tick_floor c) desired_tick input_seq move_dir
       in Done (c\<lparr>tc_input_seq := gen, tc_host := host\<rparr>, r))"

definition client_poll_snapshot ::
  "client_net \<Rightarrow> TestClient \<Rightarrow> TestClient \<times> (SnapshotError + Snapshot option)" where
  "client_poll_snapshot n c =
     (case poll_events n None (ch_events (tc_host c)) of
        (Inl e, events) \<Rightarrow> (c\<lparr>tc_host := (tc_host c)\<lparr>ch_events := events\<rparr>\<rparr>, Inl e)
      | (Inr None, events) \<Rightarrow> (c\<lparr>tc_host := (tc_host c)\<lparr>ch_events := events\<rparr>\<rparr>, Inr None)
      | (Inr (Some (snapshot, flr)), events) \<Rightarrow>
          ((observe_tick_floor flr (c\<lparr>tc_host := (tc_host c)\<lparr>ch_events := events\<rparr>\<rparr>))
             \<lparr>tc_snapshot := Some snapshot\<rparr>, Inr (Some snapshot)))"

text \<open>Scripted movement: one input per tick of a range, stopping at the first error.\<close>

fun drive_ticks ::
  "profile \<Rightarrow> client_net \<Rightarrow> Tick \<Rightarrow> u64 list \<Rightarrow> vec2 \<Rightarrow> TestClient \<Rightarrow>
     (TestClient \<times> (SendInputError + unit)) outcome" where
  "drive_ticks p n start_tick [] move_dir c = Done (c, Inr ())"
| "drive_ticks p n start_tick (offset # offsets) move_dir c =
     obind (checked_plus p start_tick offset) (\<lambda>desired_tick.
     obind (client_send_input p n desired_tick move_dir c) (\<lambda>(c, r).
       case r of Inl e \<Rightarrow> Done (c, Inl e) | Inr _ \<Rightarrow> drive_ticks p n start_tick offsets move_dir c))"

definition drive_move_dir ::
  "profile \<Rightarrow> client_net \<Rightarrow> TestClient \<Rightarrow> Tick \<Rightarrow> u64 \<Rightarrow> vec2 \<Rightarrow>
     (TestClient \<times> (SendInputError + unit)) outcome" where
  "drive_move_dir p n c start_tick tick_count move_dir =
     drive_ticks p n start_tick (tick_range 0 tick_count) move_dir c"

end
