(* ===== verification/ClientSpec.thy ===== *)
theory ClientSpec
  imports Client
begin

text \<open>
  Properties of the client: which snapshot a poll keeps, and what the tick floor and the input
  sequence numbers do over a run of client calls.
\<close>

section \<open>Polling\<close>

text \<open>The events that one drain of the host yields, up to its end or its first error.\<close>

fun arrived :: "service_result list \<Rightarrow> enet_event list" where
  "arrived (Inr (Some ev) # events) = ev # arrived events"
| "arrived _ = []"

definition candidates :: "client_net \<Rightarrow> service_result list \<Rightarrow> (Snapshot \<times> Tick) list" where
  "candidates n events = List.map_filter (snapshot_of_event n) (arrived events)"

definition newest :: "(Snapshot \<times> Tick) option \<Rightarrow> (Snapshot \<times> Tick) list \<Rightarrow> (Snapshot \<times> Tick) option" where
  "newest latest cs = fold (\<lambda>c latest. take_newer latest (Some c)) cs latest"

lemma poll_events_newest:
  "fst (poll_events n latest events) = Inr res \<Longrightarrow> res = newest latest (candidates n events)"
proof (induction n latest events rule: poll_events.induct)
  case (4 n latest ev events)
  then show ?case
    by (cases "snapshot_of_event n ev") (simp_all add: candidates_def newest_def map_filter_simps take_newer_def)
qed (simp_all add: candidates_def newest_def map_filter_simps)

lemma take_newer_Some:
  "take_newer latest (Some c) =
     (case latest of None \<Rightarrow> Some c | Some l \<Rightarrow> Some (if sn_tick (fst l) < sn_tick (fst c) then c else l))"
  by (cases c) (auto simp: take_newer_def is_newer_def split: option.split prod.split)

lemma newest_Some:
  "newest (Some l) cs = Some c \<Longrightarrow>
     c \<in> set (l # cs) \<and> (\<forall>d \<in> set (l # cs). sn_tick (fst d) \<le> sn_tick (fst c))"
proof (induction cs arbitrary: l)
  case (Cons d cs)
  let ?m = "if sn_tick (fst l) < sn_tick (fst d) then d else l"
  have "newest (Some ?m) cs = Some c" using Cons.prems by (simp add: newest_def take_newer_Some)
  from Cons.IH[OF this] show ?case by (auto split: if_splits)
qed (simp add: newest_def)

lemma newest_Cons: "newest None (c # cs) = newest (Some c) cs"
  by (simp add: newest_def take_newer_Some)

lemma newest_not_None: "newest (Some l) cs \<noteq> None"
  by (induction cs arbitrary: l) (simp_all add: newest_def take_newer_Some split: if_splits)

lemma newest_None_iff: "newest None cs = None \<longleftrightarrow> cs = []"
  using newest_not_None by (cases cs) (simp_all add: newest_Cons, simp add: newest_def)

lemma newest_spec:
  "newest None cs = Some c \<Longrightarrow> c \<in> set cs \<and> (\<forall>d \<in> set cs. sn_tick (fst d) \<le> sn_tick (fst c))"
proof (cases cs)
  case (Cons d ds)
  assume "newest None cs = Some c"
  then show ?thesis using newest_Some[of d ds c] unfolding Cons newest_Cons by blast
qed (simp add: newest_def)

text \<open>What a poll that reports no error returns and changes.\<close>

lemma poll_newest:
  assumes "client_poll_snapshot n c = (c', Inr res)"
  shows "(res = None \<longleftrightarrow> candidates n (ch_events (tc_host c)) = []) \<and>
    (\<forall>s. res = Some s \<longrightarrow> tc_snapshot c' = Some s \<and>
       (\<exists>flr. (s, flr) \<in> set (candidates n (ch_events (tc_host c))) \<and>
          tc_tick_floor c' = max (tc_tick_floor c) (TickFloor flr)) \<and>
       (\<forall>(s', flr') \<in> set (candidates n (ch_events (tc_host c))). sn_tick s' \<le> sn_tick s))"
proof -
  obtain latest rest where poll: "poll_events n None (ch_events (tc_host c)) = (Inr latest, rest)"
    using assms by (auto simp: client_poll_snapshot_def split: prod.splits sum.splits)
  then have latest: "latest = newest None (candidates n (ch_events (tc_host c)))"
    using poll_events_newest[of n None "ch_events (tc_host c)" latest] by simp
  show ?thesis
  proof (cases latest)
    case None
    then have "res = None" using assms poll by (auto simp: client_poll_snapshot_def)
    with None latest newest_None_iff show ?thesis by auto
  next
    case (Some sf)
    obtain s flr where sf: "sf = (s, flr)" by (cases sf)
    have "res = Some s" "tc_snapshot c' = Some s" "tc_tick_floor c' = max (tc_tick_floor c) (TickFloor flr)"
      using assms poll Some sf by (auto simp: client_poll_snapshot_def observe_tick_floor_def observe_max)
    moreover have "newest None (candidates n (ch_events (tc_host c))) = Some (s, flr)"
      using latest Some sf by simp
    note newest_spec[OF this]
    ultimately show ?thesis using newest_None_iff[of "candidates n (ch_events (tc_host c))"] latest Some by auto
  qed
qed

section \<open>The client as a transition system\<close>

datatype client_event =
    CSend Tick vec2
  | CPoll
  | CObserve Tick
  | CBaseline nat

fun client_act :: "profile \<Rightarrow> client_net \<Rightarrow> TestClient \<Rightarrow> client_event \<Rightarrow> TestClient outcome" where
  "client_act p n c (CSend desired_tick move_dir) =
     obind (client_send_input p n desired_tick move_dir c) (\<lambda>(c', _). Done c')"
| "client_act p n c CPoll = Done (fst (client_poll_snapshot n c))"
| "client_act p n c (CObserve received) = Done (observe_tick_floor received c)"
| "client_act p n c (CBaseline polls) = Done (fst (client_recv_baseline n polls c))"

fun is_send :: "client_event \<Rightarrow> bool" where
  "is_send (CSend t d) = True"
| "is_send _ = False"

definition sends :: "client_event list \<Rightarrow> nat" where
  "sends es = length (filter is_send es)"

definition client_start :: "TestClient \<Rightarrow> bool" where
  "client_start c \<longleftrightarrow> tc_tick_floor c = from_welcome (sw_target_tick_floor (tc_welcome c)) \<and>
     tc_input_seq c = InputSeqGen_new"

definition client_inv :: "TestClient \<Rightarrow> bool" where
  "client_inv c \<longleftrightarrow> TickFloor (sw_target_tick_floor (tc_welcome c)) \<le> tc_tick_floor c"

definition floor_gauge :: "TestClient \<Rightarrow> nat" where
  "floor_gauge c = unat (client_tick_floor c)"

lemma floor_gauge_le: "floor_gauge c \<le> floor_gauge d \<longleftrightarrow> tc_tick_floor c \<le> tc_tick_floor d"
  by (simp add: floor_gauge_def client_tick_floor_def less_eq_TickFloor_def word_le_nat_alt)

lemma send_input_frame:
  "client_send_input p n t d c = Done (c', r) \<Longrightarrow>
     tc_tick_floor c' = tc_tick_floor c \<and> tc_welcome c' = tc_welcome c \<and>
     seq_advance p (tc_input_seq c) = Done (tc_input_seq c', case tc_input_seq c' of InputSeqGen k \<Rightarrow> k)"
  by (cases "tc_input_seq c") (auto simp: client_send_input_def outcome_simps Let_def split: prod.splits)

lemma poll_frame:
  "tc_tick_floor c \<le> tc_tick_floor (fst (client_poll_snapshot n c)) \<and>
     tc_welcome (fst (client_poll_snapshot n c)) = tc_welcome c \<and>
     tc_input_seq (fst (client_poll_snapshot n c)) = tc_input_seq c"
  by (auto simp: client_poll_snapshot_def observe_tick_floor_def observe_max
      split: prod.split sum.split option.split)

lemma recv_baseline_frame:
  "tc_tick_floor (fst (client_recv_baseline n polls c)) = tc_tick_floor c \<and>
     tc_welcome (fst (client_recv_baseline n polls c)) = tc_welcome c \<and>
     tc_input_seq (fst (client_recv_baseline n polls c)) = tc_input_seq c"
  by (auto simp: client_recv_baseline_def split: prod.split sum.split)

lemma client_act_frame:
  assumes "client_act p n c e = Done c'"
  shows "tc_welcome c' = tc_welcome c \<and> tc_tick_floor c \<le> tc_tick_floor c' \<and>
    (if is_send e then \<exists>k. seq_advance p (tc_input_seq c) = Done (tc_input_seq c', k)
     else tc_input_seq c' = tc_input_seq c)"
proof (cases e)
  case (CSend t d)
  then show ?thesis using assms send_input_frame by (fastforce simp: outcome_simps)
next
  case CPoll
  then show ?thesis using assms poll_frame by auto
next
  case (CObserve t)
  then show ?thesis using assms by (auto simp: observe_tick_floor_def observe_max)
next
  case (CBaseline polls)
  then show ?thesis using assms recv_baseline_frame by auto
qed

interpretation client: monotone_system "client_act p n" client_start client_inv floor_gauge
  for p n
proof unfold_locales
  show "client_start c \<Longrightarrow> client_inv c" for c
    by (simp add: client_start_def client_inv_def from_welcome_def)
  show "client_inv c \<Longrightarrow> client_act p n c e = Done c' \<Longrightarrow> client_inv c'" for c e c'
    using client_act_frame[of p n c e c'] by (auto simp: client_inv_def intro: order_trans)
  show "client_inv c \<Longrightarrow> client_act p n c e = Done c' \<Longrightarrow> floor_gauge c \<le> floor_gauge c'" for c e c'
    using client_act_frame[of p n c e c'] by (simp add: floor_gauge_le)
qed

lemma client_run_seq:
  "run_events (client_act p n) c es = Done c' \<Longrightarrow> tc_input_seq c = InputSeqGen k \<Longrightarrow>
     tc_input_seq c' = InputSeqGen (k + of_nat (sends es)) \<and> tc_welcome c' = tc_welcome c"
proof (induction es arbitrary: c k)
  case Nil
  then show ?case by (simp add: sends_def)
next
  case (Cons e es)
  from Cons.prems(1) obtain u where u: "client_act p n c e = Done u" "run_events (client_act p n) u es = Done c'"
    by (auto simp: outcome_simps)
  note frame = client_act_frame[OF u(1)]
  show ?case
  proof (cases "is_send e")
    case True
    then have "tc_input_seq u = InputSeqGen (k + 1)"
      using frame Cons.prems(2) by (auto simp: outcome_simps)
    from Cons.IH[OF u(2) this] show ?thesis using True frame by (simp add: sends_def)
  next
    case False
    then have "tc_input_seq u = InputSeqGen k" using frame Cons.prems(2) by simp
    from Cons.IH[OF u(2) this] show ?thesis using False frame by (simp add: sends_def)
  qed
qed

lemma client_connect_start:
  "client_connect n setup_error polls h = Inr c \<Longrightarrow> client_start c"
  by (auto simp: client_connect_def client_start_def split: sum.splits)

section \<open>Properties\<close>

text \<open>
  C30. Input targeting (ADR-0006, DM-0026): whatever a client did since it connected - sending,
  polling, observing floors, with any packets from the network - its tick floor has never moved
  back and is at least the welcome's, and the next input it sends carries the next sequence
  number, one more than the number of inputs it has tried to send, and a tick not below the floor.
\<close>

theorem client_targets_floor:
  assumes "client_connect n setup_error polls h = Inr c0" and "run_events (client_act p n) c0 es = Done c"
    and "sends es + 1 < 2 ^ 64"
  shows "client_tick_floor c0 \<le> client_tick_floor c \<and>
    sw_target_tick_floor (tc_welcome c0) \<le> client_tick_floor c \<and>
    (\<exists>c' r. client_send_input p n desired_tick move_dir c = Done (c', r) \<and>
       (\<forall>peer answers. ch_sends (tc_host c) = Queued peer # answers \<longrightarrow> r = Inr () \<and>
          ch_sent (tc_host c') = ch_sent (tc_host c) @
            [SendTo peer CHANNEL_REALTIME (Unreliable (input_encode n
               \<lparr>ic_tick = max desired_tick (client_tick_floor c), ic_input_seq = of_nat (sends es + 1),
                ic_move_dir = to_vec move_dir\<rparr>)), Flush]))"
proof -
  have start: "client_start c0" by (rule client_connect_start[OF assms(1)])
  have inv: "client_inv c" by (rule client.reachable_inv[OF start assms(2)])
  have "floor_gauge c0 \<le> floor_gauge c"
    by (rule client.run_gauge[OF client.start_inv[OF start] assms(2)])
  then have mono: "client_tick_floor c0 \<le> client_tick_floor c"
    by (simp add: floor_gauge_def word_le_nat_alt)
  have "tc_input_seq c0 = InputSeqGen 0" using start by (simp add: client_start_def InputSeqGen_new_def)
  from client_run_seq[OF assms(2) this]
  have seq: "tc_input_seq c = InputSeqGen (of_nat (sends es))" and same: "tc_welcome c = tc_welcome c0" by simp_all
  have "unat (of_nat (sends es) :: u64) = sends es" using assms(3) by (intro unat_of_nat_small) simp
  then have "checked_plus p (of_nat (sends es) :: u64) 1 = Done (of_nat (sends es) + 1)"
    using assms(3) by (intro checked_plus_fits) simp
  then have "\<exists>c' r. client_send_input p n desired_tick move_dir c = Done (c', r) \<and>
       (\<forall>peer answers. ch_sends (tc_host c) = Queued peer # answers \<longrightarrow> r = Inr () \<and>
          ch_sent (tc_host c') = ch_sent (tc_host c) @
            [SendTo peer CHANNEL_REALTIME (Unreliable (input_encode n
               \<lparr>ic_tick = max desired_tick (client_tick_floor c), ic_input_seq = of_nat (sends es + 1),
                ic_move_dir = to_vec move_dir\<rparr>)), Flush])"
    by (auto simp: client_send_input_def seq Let_def send_input_def next_answer_def input_cmd_def
        target_tick_def split_beta add.commute)
  then show ?thesis
    using mono inv same
    by (simp add: client_inv_def less_eq_TickFloor_def client_tick_floor_def)
qed

definition demo_client_net :: client_net where
  "demo_client_net =
     \<lparr>hello_bytes = [],
      welcome_decode = \<lambda>_. Some \<lparr>sw_target_tick_floor = 5, sw_tick_rate_hz = 30, sw_player_id = 0,
                                sw_controlled_entity_id = 1\<rparr>,
      baseline_decode = \<lambda>_. None,
      snapshot_decode = \<lambda>data. Some \<lparr>sp_tick = of_nat (length data), sp_entities = [], sp_digest = 0,
                                    sp_target_tick_floor = of_nat (length data) + 1\<rparr>,
      input_encode = \<lambda>_. []\<rparr>"

definition demo_host :: client_host where
  "demo_host =
     \<lparr>ch_events = [Inr (Some (Connect 0)), Inr (Some (Receive 0 CHANNEL_CONTROL [])),
                   Inr (Some (Receive 0 CHANNEL_REALTIME [1, 1, 1, 1, 1, 1, 1])),
                   Inr (Some (Receive 0 CHANNEL_REALTIME [1, 1]))],
      ch_sends = [Queued 0, Queued 0, Queued 0], ch_sent = []\<rparr>"

definition demo_client :: TestClient where
  "demo_client =
     \<lparr>tc_host = \<lparr>ch_events = [Inr (Some (Receive 0 CHANNEL_REALTIME [1, 1, 1, 1, 1, 1, 1])),
                             Inr (Some (Receive 0 CHANNEL_REALTIME [1, 1]))],
                ch_sends = [Queued 0, Queued 0], ch_sent = [SendTo 0 CHANNEL_CONTROL (Reliable [])]\<rparr>,
      tc_welcome = \<lparr>sw_target_tick_floor = 5, sw_tick_rate_hz = 30, sw_player_id = 0,
                    sw_controlled_entity_id = 1\<rparr>,
      tc_tick_floor = TickFloor 5, tc_baseline = None, tc_snapshot = None, tc_input_seq = InputSeqGen 0\<rparr>"

lemma demo_connects: "client_connect demo_client_net None 1 demo_host = Inr demo_client"
  by (simp add: client_connect_def connection_connect_def demo_client_net_def demo_host_def demo_client_def
      next_answer_def from_welcome_def InputSeqGen_new_def)

theorem client_targets_floor_witness:
  "\<exists>c. run_events (client_act Dev demo_client_net) demo_client [CPoll, CSend 3 (0, 0)] = Done c \<and>
     5 \<le> client_tick_floor c"
proof -
  have "\<exists>c. run_events (client_act Dev demo_client_net) demo_client [CPoll, CSend 3 (0, 0)] = Done c"
    by (simp add: client_poll_snapshot_def demo_client_def demo_client_net_def take_newer_def is_newer_def
        Snapshot_try_from_def client_send_input_def checked_plus_def Let_def send_input_def next_answer_def
        observe_tick_floor_def client_tick_floor_def CHANNEL_REALTIME_def)
  then obtain c where run: "run_events (client_act Dev demo_client_net) demo_client [CPoll, CSend 3 (0, 0)] = Done c" ..
  have "sends [CPoll, CSend 3 (0, 0)] + 1 < 2 ^ 64" by (simp add: sends_def)
  from client_targets_floor[OF demo_connects run this] have "5 \<le> client_tick_floor c"
    by (simp add: demo_client_def)
  with run show ?thesis by blast
qed

text \<open>
  C31. A poll keeps the newest snapshot: of the well-formed snapshots that arrived on the realtime
  channel it returns one of greatest tick, none exactly when there was none, folds that snapshot's
  floor into the tick floor, and replaces the snapshot the client held.
\<close>

theorem poll_keeps_newest:
  assumes "client_poll_snapshot n c = (c', Inr res)"
  shows "(res = None \<longleftrightarrow> candidates n (ch_events (tc_host c)) = []) \<and>
    (\<forall>s. res = Some s \<longrightarrow> tc_snapshot c' = Some s \<and>
       (\<exists>flr. (s, flr) \<in> set (candidates n (ch_events (tc_host c))) \<and>
          tc_tick_floor c' = max (tc_tick_floor c) (TickFloor flr)) \<and>
       (\<forall>(s', flr') \<in> set (candidates n (ch_events (tc_host c))). sn_tick s' \<le> sn_tick s))"
  by (rule poll_newest[OF assms])

theorem poll_keeps_newest_witness:
  "\<exists>c' s. client_poll_snapshot demo_client_net demo_client = (c', Inr (Some s)) \<and> sn_tick s = 7 \<and>
     tc_tick_floor c' = TickFloor 8"
proof -
  have cands: "candidates demo_client_net (ch_events (tc_host demo_client)) =
      [(\<lparr>sn_tick = 7, sn_entities = [], sn_digest = 0\<rparr>, 8), (\<lparr>sn_tick = 2, sn_entities = [], sn_digest = 0\<rparr>, 3)]"
    by (simp add: candidates_def demo_client_def demo_client_net_def Snapshot_try_from_def map_filter_simps
        CHANNEL_REALTIME_def)
  obtain c' res where poll: "client_poll_snapshot demo_client_net demo_client = (c', Inr res)"
    by (simp add: client_poll_snapshot_def demo_client_def demo_client_net_def take_newer_def is_newer_def
        Snapshot_try_from_def CHANNEL_REALTIME_def)
  note kept = poll_keeps_newest[OF poll, unfolded cands]
  then obtain s where s: "res = Some s" by (cases res) auto
  with kept have "s = \<lparr>sn_tick = 7, sn_entities = [], sn_digest = 0\<rparr>"
    "tc_tick_floor c' = max (tc_tick_floor demo_client) (TickFloor 8)"
    by auto
  moreover have "max (tc_tick_floor demo_client) (TickFloor 8) = TickFloor 8"
    by (simp add: demo_client_def max_def less_eq_TickFloor_def)
  ultimately show ?thesis using poll s by simp
qed

end
