(* ===== verification/ReplayIO.thy ===== *)
theory ReplayIO
  imports Replay Transport
begin

text \<open>
  The input and output of the replay crate: the build fingerprint (\<^verbatim>\<open>acquire_build_fingerprint\<close> and
  its helpers) and replay files (\<^verbatim>\<open>write_replay\<close>, \<^verbatim>\<open>read_replay\<close>). The file system is a map from
  paths to contents; what the operating system answers to each call is a parameter, as are the
  SHA-256 hasher and the protobuf codec of the artifact, which are third-party code.
\<close>

section \<open>Build fingerprint\<close>

datatype target_os = Windows | Linux | MacOS | OtherOS
datatype target_arch = X86_64 | Aarch64 | OtherArch

fun get_target_triple :: "target_os \<Rightarrow> target_arch \<Rightarrow> string" where
  "get_target_triple Windows X86_64 = ''x86_64-pc-windows-msvc''"
| "get_target_triple Windows Aarch64 = ''aarch64-pc-windows-msvc''"
| "get_target_triple Windows OtherArch = ''unknown-pc-windows-msvc''"
| "get_target_triple Linux X86_64 = ''x86_64-unknown-linux-gnu''"
| "get_target_triple Linux Aarch64 = ''aarch64-unknown-linux-gnu''"
| "get_target_triple Linux OtherArch = ''unknown-unknown-linux-gnu''"
| "get_target_triple MacOS X86_64 = ''x86_64-apple-darwin''"
| "get_target_triple MacOS Aarch64 = ''aarch64-apple-darwin''"
| "get_target_triple MacOS OtherArch = ''unknown-apple-darwin''"
| "get_target_triple OtherOS arch = ''unknown-unknown-unknown''"

text \<open>The environment variable \<^verbatim>\<open>FLOWSTATE_GIT_COMMIT\<close>, when it is set to valid unicode.\<close>

definition get_git_commit :: "(string \<Rightarrow> string option) \<Rightarrow> string option" where
  "get_git_commit env_var = env_var ''FLOWSTATE_GIT_COMMIT''"

text \<open>The hashing loop: \<open>reads\<close> are the answers of \<^verbatim>\<open>file.read\<close>, an empty read ends the file.\<close>

fun hash_reads :: "('h \<Rightarrow> bytes \<Rightarrow> 'h) \<Rightarrow> (io_error + bytes) list \<Rightarrow> 'h \<Rightarrow> io_error + 'h" where
  "hash_reads update [] hasher = Inr hasher"
| "hash_reads update (Inl e # reads) hasher = Inl e"
| "hash_reads update (Inr buffer # reads) hasher =
     (if buffer = [] then Inr hasher else hash_reads update reads (update hasher buffer))"

record 'h build_env =
  be_os :: target_os
  be_arch :: target_arch
  be_env_var :: "string \<Rightarrow> string option"
  be_open_exe :: "io_error + (io_error + bytes) list"
  be_hash_new :: 'h
  be_hash_update :: "'h \<Rightarrow> bytes \<Rightarrow> 'h"
  be_hash_hex :: "'h \<Rightarrow> string"

definition acquire_build_fingerprint :: "profile \<Rightarrow> 'h build_env \<Rightarrow> io_error + BuildFingerprintData" where
  "acquire_build_fingerprint p env =
     (case be_open_exe env of
        Inl e \<Rightarrow> Inl e
      | Inr reads \<Rightarrow>
          (case hash_reads (be_hash_update env) reads (be_hash_new env) of
             Inl e \<Rightarrow> Inl e
           | Inr hasher \<Rightarrow>
               Inr \<lparr>bfd_binary_sha256 = be_hash_hex env hasher,
                    bfd_target_triple = get_target_triple (be_os env) (be_arch env),
                    bfd_profile = (if p = Dev then ''dev'' else ''release''),
                    bfd_git_commit =
                      (case get_git_commit (be_env_var env) of None \<Rightarrow> ''unknown'' | Some c \<Rightarrow> c)\<rparr>))"

text \<open>
  The fingerprint depends on the bytes of the executable, not on how \<^verbatim>\<open>read\<close> cut them up: for any
  hasher that meets the incremental contract.
\<close>

context byte_hasher
begin

lemma hash_reads_whole:
  "[] \<notin> set chunks \<Longrightarrow> hash_reads update (map Inr chunks) h = Inr (update h (concat chunks))"
  by (induction chunks arbitrary: h) (auto simp: update_nil update_append)

lemma hash_reads_cut:
  assumes "[] \<notin> set chunks" and "[] \<notin> set chunks'" and "concat chunks = concat chunks'"
  shows "hash_reads update (map Inr chunks) h = hash_reads update (map Inr chunks') h"
  using assms by (simp add: hash_reads_whole)

end

section \<open>Replay files\<close>

type_synonym files = "string \<Rightarrow> bytes option"

text \<open>
  What the system answers: to creating the parent directories of a path, to creating a file, to
  writing (an error after some bytes), and to reading an existing file.
\<close>

record fs_env =
  fe_mkdir :: "string \<Rightarrow> io_error option"
  fe_create :: "string \<Rightarrow> io_error option"
  fe_write :: "string \<Rightarrow> (io_error \<times> nat) option"
  fe_read :: "string \<Rightarrow> io_error option"

definition write_replay ::
  "(ReplayArtifact \<Rightarrow> bytes) \<Rightarrow> fs_env \<Rightarrow> files \<Rightarrow> ReplayArtifact \<Rightarrow> string \<Rightarrow> (io_error + unit) \<times> files" where
  "write_replay enc env fs artifact path =
     (case fe_mkdir env path of
        Some e \<Rightarrow> (Inl e, fs)
      | None \<Rightarrow>
          if fs path \<noteq> None then (Inl (AlreadyExists (''Replay artifact already exists at '' @ path)), fs)
          else let encoded = enc artifact in
            case fe_create env path of
              Some e \<Rightarrow> (Inl e, fs)
            | None \<Rightarrow>
                (case fe_write env path of
                   Some (e, written) \<Rightarrow> (Inl e, fs(path \<mapsto> take written encoded))
                 | None \<Rightarrow> (Inr (), fs(path \<mapsto> encoded))))"

definition read_replay ::
  "(bytes \<Rightarrow> string + ReplayArtifact) \<Rightarrow> fs_env \<Rightarrow> files \<Rightarrow> string \<Rightarrow> io_error + ReplayArtifact" where
  "read_replay dec env fs path =
     (case fs path of
        None \<Rightarrow> Inl (NotFound path)
      | Some data \<Rightarrow>
          (case fe_read env path of
             Some e \<Rightarrow> Inl e
           | None \<Rightarrow>
               (case dec data of
                  Inl e \<Rightarrow> Inl (InvalidData (''Failed to decode replay: '' @ e))
                | Inr artifact \<Rightarrow> Inr artifact)))"

lemma write_replay_Inr:
  assumes "write_replay enc env fs a path = (Inr (), fs')"
  shows "fs path = None" "fs' = fs(path \<mapsto> enc a)"
  using assms by (auto simp: write_replay_def Let_def split: option.splits if_splits prod.splits)

text \<open>A path that exists is never written to, and no other path ever is.\<close>

lemma write_replay_safe:
  assumes "write_replay enc env fs a path = (r, fs')"
  shows "fs q \<noteq> None \<or> q \<noteq> path \<Longrightarrow> fs' q = fs q"
  using assms by (auto simp: write_replay_def Let_def split: option.splits if_splits prod.splits)

lemma read_written:
  assumes "write_replay enc env fs a path = (Inr (), fs')" and "dec (enc a) = Inr a" and "fe_read env path = None"
  shows "read_replay dec env fs' path = Inr a"
  using assms write_replay_Inr[OF assms(1)] by (simp add: read_replay_def)

end
