(* ===== verification/ServerMain.thy ===== *)
theory ServerMain
  imports TickLoop ReplayIO
begin

text \<open>
  The server binary, \<^verbatim>\<open>crates/server/src/main.rs\<close>: it runs a default match and writes the artifact
  to a file named after the wall clock. The result is the exit code (101 is Rust's for a panic) and
  the file system.
\<close>

definition replay_path :: "u64 option \<Rightarrow> string" where
  "replay_path now =
     (let timestamp = (case now of None \<Rightarrow> 0 | Some secs \<Rightarrow> secs)
      in ''replays/replay_'' @ decimal timestamp @ ''.replay'')"

definition server_main ::
  "profile \<Rightarrow> net \<Rightarrow> io_error option \<Rightarrow> nat \<Rightarrow> service_result list \<Rightarrow> (ReplayArtifact \<Rightarrow> bytes) \<Rightarrow>
     fs_env \<Rightarrow> u64 option \<Rightarrow> files \<Rightarrow> nat \<times> files" where
  "server_main p n bind_error polls script enc env now fs =
     (case run p n bind_error polls script ServerConfig_default of
        Panic r \<Rightarrow> (101, fs)
      | Done (Inl e) \<Rightarrow> (1, fs)
      | Done (Inr (artifact, sent)) \<Rightarrow>
          (case write_replay enc env fs artifact (replay_path now) of
             (Inl e, fs) \<Rightarrow> (1, fs)
           | (Inr _, fs) \<Rightarrow> (0, fs)))"

end
