(* ===== verification/Net.thy ===== *)
theory Net
  imports TickLoop
begin

text \<open>
  \<^verbatim>\<open>server/src/net.rs\<close>: binding the server's transport. The operating system binds sockets and ENet
  creates hosts: both are parameters, as are the settings that \<^verbatim>\<open>..Default::default()\<close> fills in.
\<close>

definition net_CHANNEL_LIMIT :: nat where "net_CHANNEL_LIMIT = 2"

record HostSettings =
  hs_peer_limit :: nat
  hs_channel_limit :: nat

text \<open>\<open>os_socket_bind\<close> is \<^verbatim>\<open>UdpSocket::bind\<close>; \<open>enet_host_new\<close> is \<^verbatim>\<open>enet::Host::new\<close>, its error printed with \<^verbatim>\<open>{:?}\<close>.\<close>

record ('addr, 'socket, 'rest, 'host) sockets =
  os_socket_bind :: "'addr \<Rightarrow> io_error + 'socket"
  enet_host_new :: "'socket \<Rightarrow> 'rest HostSettings_scheme \<Rightarrow> string + 'host"
  enet_default_settings :: "'rest HostSettings_scheme"

definition bind_host ::
  "('addr, 'socket, 'rest, 'host) sockets \<Rightarrow> 'addr \<Rightarrow> nat \<Rightarrow> io_error + 'host" where
  "bind_host b addr peer_limit =
     (case os_socket_bind b addr of
        Inl e \<Rightarrow> Inl e
      | Inr socket \<Rightarrow>
          (case enet_host_new b socket
                  ((enet_default_settings b)\<lparr>hs_peer_limit := peer_limit, hs_channel_limit := net_CHANNEL_LIMIT\<rparr>) of
             Inl e \<Rightarrow> Inl (enet_error ''failed to create ENet host: '' e)
           | Inr host \<Rightarrow> Inr host))"

text \<open>\<open>run\<close> with its \<^verbatim>\<open>net::bind_host(addr, max_sessions)?\<close> spelled out.\<close>

definition bind_failure :: "('addr, 'socket, 'rest, 'host) sockets \<Rightarrow> 'addr \<Rightarrow> ServerConfig \<Rightarrow> io_error option" where
  "bind_failure b addr config =
     (case bind_host b addr (sc_max_sessions config) of Inl e \<Rightarrow> Some e | Inr host \<Rightarrow> None)"

definition run_on ::
  "('addr, 'socket, 'rest, 'host) sockets \<Rightarrow> 'addr \<Rightarrow> profile \<Rightarrow> net \<Rightarrow> nat \<Rightarrow> service_result list \<Rightarrow>
     ServerConfig \<Rightarrow> (io_error + ReplayArtifact \<times> sent list) outcome" where
  "run_on b addr p n polls script config = run p n (bind_failure b addr config) polls script config"

text \<open>The host has a peer for every session the configuration admits, and both channels.\<close>

lemma bind_host_settings:
  assumes "bind_host b addr peer_limit = Inr host"
  obtains socket settings where "os_socket_bind b addr = Inr socket" "enet_host_new b socket settings = Inr host"
    "hs_peer_limit settings = peer_limit" "unat CHANNEL_REALTIME < hs_channel_limit settings"
    "unat CHANNEL_CONTROL < hs_channel_limit settings"
proof -
  obtain socket where s: "os_socket_bind b addr = Inr socket"
    using assms by (auto simp: bind_host_def split: sum.splits)
  let ?settings = "(enet_default_settings b)\<lparr>hs_peer_limit := peer_limit, hs_channel_limit := net_CHANNEL_LIMIT\<rparr>"
  have "enet_host_new b socket ?settings = Inr host"
    using assms s by (auto simp: bind_host_def split: sum.splits)
  then show ?thesis
    using s by (intro that[of socket ?settings]) (simp_all add: net_CHANNEL_LIMIT_def CHANNEL_REALTIME_def CHANNEL_CONTROL_def)
qed

text \<open>A run that cannot bind ends with the error of the bind, whatever the network would have said.\<close>

lemma run_on_unbound:
  assumes "sc_tick_rate_hz config \<noteq> 0" and "bind_host b addr (sc_max_sessions config) = Inl e"
  shows "run_on b addr p n polls script config = Done (Inl e)"
  using assms by (simp add: run_on_def bind_failure_def run_def)

lemma run_on_bound:
  assumes "bind_host b addr (sc_max_sessions config) = Inr host"
  shows "run_on b addr p n polls script config = run p n None polls script config"
  using assms by (simp add: run_on_def bind_failure_def)

end
