(* ===== verification/Pacing.thy ===== *)
theory Pacing
  imports TickLoop Movement
begin

text \<open>
  The wall-clock pacing of the tick loop (\<^verbatim>\<open>server/src/tick_loop.rs\<close>), which has no effect on the state and
  is left out of \<open>tick_loop\<close>. Times are nanoseconds. How long an iteration works and by how much a sleep
  overshoots are arbitrary.
\<close>

section \<open>Durations\<close>

text \<open>\<^verbatim>\<open>Duration::from_secs_f64\<close>: to the nearest nanosecond, ties to even; it panics outside \<open>0\<close> to \<open>2 ^ 64\<close>.\<close>

definition from_secs_f64 :: "f64 \<Rightarrow> nat outcome" where
  "from_secs_f64 secs =
     (if f64_neg secs \<and> f64_mag secs \<noteq> 0 \<or> f64_mag 0x43f0000000000000 \<le> f64_mag secs
      then Panic DurationOutOfRange
      else Done (rne_shift (f64_sig secs * 10 ^ 9 * 2 ^ nat (f64_exp secs)) (nat (- f64_exp secs))))"

definition tick_interval :: "u32 \<Rightarrow> nat outcome" where
  "tick_interval tick_rate_hz = from_secs_f64 (f64_div f64_one (f64_of_u32 tick_rate_hz))"

lemma tick_intervals: "tick_interval 30 = Done 33333333" "tick_interval 60 = Done 16666667"
  by (simp_all add: tick_interval_def from_secs_f64_def f64_eval rne_shift_def round_up_def f64_sig_def f64_exp_def)

text \<open>This is the panic that \<open>run\<close> checks for.\<close>

lemma tick_interval_panics: "tick_interval rate = Panic DurationOutOfRange \<longleftrightarrow> rate = 0"
proof (cases "rate = 0")
  case True
  then show ?thesis by (simp add: tick_interval_def from_secs_f64_def f64_eval)
next
  case False
  then have "World_new 0 rate \<noteq> Panic r" for r by (simp add: World_new_panics_iff)
  then obtain w where "World_new 0 rate = Done w" by (cases "World_new 0 rate") auto
  then have "world_wf w" "w_dt_seconds w = f64_div f64_one (f64_of_u32 rate)"
    using World_new_Done by (auto simp: world_wf_def)
  with dt_bounds[of w] False show ?thesis
    by (simp add: tick_interval_def from_secs_f64_def mag_one) (simp add: f64_mag_def)
qed

section \<open>Pacing\<close>

definition pace :: "nat \<Rightarrow> nat \<Rightarrow> nat \<Rightarrow> nat \<times> nat" where
  "pace interval next_tick_at now =
     (let next_tick_at = next_tick_at + interval
      in if now < next_tick_at then (next_tick_at, next_tick_at - now) else (now, 0))"

text \<open>When each iteration starts; it works for a while, and a sleep lasts at least as long as asked.\<close>

fun tick_starts :: "nat \<Rightarrow> nat \<Rightarrow> nat \<Rightarrow> (nat \<times> nat) list \<Rightarrow> nat list" where
  "tick_starts interval next_tick_at t [] = []"
| "tick_starts interval next_tick_at t ((work, late) # script) =
     t # (let (next_tick_at, sleep) = pace interval next_tick_at (t + work)
          in tick_starts interval next_tick_at
               (if sleep = 0 then t + work else t + work + sleep + late) script)"

lemma length_tick_starts [simp]: "length (tick_starts interval next_at t script) = length script"
  by (induction interval next_at t script rule: tick_starts.induct) (auto simp: split: prod.splits)

lemma tick_starts_after:
  "next_at \<le> t \<Longrightarrow> j < length script \<Longrightarrow> next_at + j * interval \<le> tick_starts interval next_at t script ! j"
proof (induction interval next_at t script arbitrary: j rule: tick_starts.induct)
  case (2 interval next_at t work late script)
  show ?case
  proof (cases j)
    case (Suc i)
    then show ?thesis using 2 by (force simp: pace_def Let_def split: if_splits)
  qed (use 2 in simp)
qed simp

lemma tick_starts_before:
  assumes "\<forall>(work, late) \<in> set script. work + slack < interval \<and> late \<le> slack"
  shows "t \<le> next_at + slack \<Longrightarrow> j < length script \<Longrightarrow>
    tick_starts interval next_at t script ! j \<le> next_at + j * interval + slack"
  using assms
proof (induction interval next_at t script arbitrary: j rule: tick_starts.induct)
  case (2 interval next_at t work late script)
  show ?case
  proof (cases j)
    case (Suc i)
    then show ?thesis using 2 by (force simp: pace_def Let_def split: if_splits)
  qed (use 2 in simp)
qed simp

text \<open>A tick that starts without a sleep has moved the schedule to itself.\<close>

lemma tick_starts_resync:
  assumes "0 < interval"
  shows "next_at \<le> t \<Longrightarrow> Suc (Suc j) < length script \<Longrightarrow>
    tick_starts interval next_at t script ! Suc j = tick_starts interval next_at t script ! j + fst (script ! j) \<Longrightarrow>
    tick_starts interval next_at t script ! Suc j + interval \<le> tick_starts interval next_at t script ! Suc (Suc j)"
proof (induction interval next_at t script arbitrary: j rule: tick_starts.induct)
  case (2 interval next_at t work late script)
  show ?case
  proof (cases j)
    case 0
    obtain w l rest where script: "script = (w, l) # rest" "rest \<noteq> []"
      using 2(3) by (cases script; cases "tl script") (auto simp: 0)
    let ?next = "next_at + interval"
    have "\<not> t + work < ?next" using 2(4) by (auto simp: 0 script pace_def Let_def split: if_splits)
    then have "tick_starts interval next_at t ((work, late) # script) = t # tick_starts interval (t + work) (t + work) script"
      by (simp add: pace_def Let_def)
    moreover have "t + work + 1 * interval \<le> tick_starts interval (t + work) (t + work) script ! 1"
      by (rule tick_starts_after) (use script in auto)
    ultimately show ?thesis by (simp add: 0 script)
  next
    case (Suc i)
    let ?p = "pace interval next_at (t + work)"
    let ?t = "if snd ?p = 0 then t + work else t + work + snd ?p + late"
    have eq: "tick_starts interval next_at t ((work, late) # script) = t # tick_starts interval (fst ?p) ?t script"
      by (simp add: case_prod_unfold Let_def)
    have "fst ?p \<le> ?t" by (simp add: pace_def Let_def)
    with 2(1)[of ?p "fst ?p" "snd ?p" i] 2(3,4) show ?thesis unfolding eq Suc by simp
  qed
qed simp

text \<open>
  C28. The pacing keeps time: whatever the iterations do and however long sleeps overshoot, tick \<open>j\<close> never
  starts before its time on a schedule of one interval per tick; if the work of every iteration and the
  largest overshoot fit into an interval, it never starts later than by that overshoot either, so no delay
  accumulates; and after an overrun the lost time is not made up by a burst: the tick that starts at once
  is followed by a full interval. At the default rate an interval is 33333333 ns and the last of the 1800
  ticks starts at least 59.9 seconds after the first.
\<close>

theorem ticks_keep_time:
  assumes "tick_interval rate = Done interval" and "0 < interval"
    and "starts = tick_starts interval t0 t0 script"
  shows "(\<forall>j < length script. t0 + j * interval \<le> starts ! j) \<and>
    (\<forall>slack. (\<forall>(work, late) \<in> set script. work + slack < interval \<and> late \<le> slack) \<longrightarrow>
       (\<forall>j < length script. starts ! j \<le> t0 + j * interval + slack)) \<and>
    (\<forall>j. Suc (Suc j) < length script \<and> starts ! Suc j = starts ! j + fst (script ! j) \<longrightarrow>
       starts ! Suc j + interval \<le> starts ! Suc (Suc j)) \<and>
    (rate = TICK_RATE_HZ \<and> length script = unat MATCH_DURATION_TICKS \<longrightarrow>
       interval = 33333333 \<and> t0 + 59900000000 \<le> starts ! 1799)"
proof -
  have "interval = 33333333" if "rate = TICK_RATE_HZ"
    using assms(1) that by (simp add: TICK_RATE_HZ_def tick_intervals)
  moreover have after: "\<forall>j < length script. t0 + j * interval \<le> starts ! j"
    using tick_starts_after[of t0 t0] by (simp add: assms(3))
  ultimately have "t0 + 59900000000 \<le> starts ! 1799"
    if "rate = TICK_RATE_HZ" "length script = unat MATCH_DURATION_TICKS"
    using that after[rule_format, of 1799] by (simp add: MATCH_DURATION_TICKS_def)
  with \<open>rate = TICK_RATE_HZ \<Longrightarrow> interval = 33333333\<close> after show ?thesis
    using tick_starts_before[where t = t0 and next_at = t0 and script = script and interval = interval]
      tick_starts_resync[OF assms(2), of t0 t0 _ script]
    by (auto simp: assms(3))
qed

theorem ticks_keep_time_witness:
  "tick_starts 33333333 0 0 [(1000, 50), (40000000, 0), (1000, 0), (1000, 0)] ! 3 =
     0 + 33333333 + 50 + 40000000 + 33333333 \<and>
   66666666 \<le> tick_starts 33333333 0 0 [(1000, 50), (40000000, 0), (1000, 0), (1000, 0)] ! 2"
proof -
  let ?script = "[(1000, 50), (40000000, 0), (1000, 0), (1000, 0)]"
  have "tick_interval 30 = Done 33333333" by (rule tick_intervals)
  note ticks_keep_time[OF this _ refl, where script = ?script and ?t0.0 = 0, THEN conjunct1, rule_format, of 2]
  then have "0 + 2 * 33333333 \<le> tick_starts 33333333 0 0 ?script ! 2" by (simp del: tick_starts.simps)
  then show ?thesis by (simp add: pace_def)
qed

end
