(* ===== verification/Together.thy ===== *)
theory Together
  imports ClientSpec TickLoopSpec
begin

text \<open>
  What client and server make of each other's messages, whichever client it is: an input targeted at
  the floor of its session is accepted, and what the server's reliable packets deliver.
\<close>

section \<open>Inputs\<close>

lemma receive_from_server:
  assumes "server_reachable p enc c s" and "p = Dev \<or> length (s_entity_spawn_order s) \<le> 255"
    and "hm_get (s_session_players s) sid = Some q"
    and "hm_get (s_last_emitted_floor s) sid = Some flr"
  shows "flr = w_tick (s_world s) + sc_input_lead_ticks c"
proof -
  have "floors_inv c s" using server_reachable_core(3)[OF assms(1,2)] by (simp add: server_core_def)
  then show ?thesis using assms(4) by (auto simp: floors_inv_def split: if_splits)
qed

lemma lead_in_window:
  assumes "server_reachable p enc c s" and "p = Dev \<or> length (s_entity_spawn_order s) \<le> 255"
    and "sc_input_lead_ticks c \<le> sc_max_future_ticks c"
  shows "w_tick (s_world s) + sc_input_lead_ticks c \<le> w_tick (s_world s) + sc_max_future_ticks c"
proof -
  note core = server_reachable_core[OF assms(1,2)]
  have "w_tick (s_world s) \<le> sc_match_duration_ticks c"
    using core(3) by (simp add: server_core_def players_inv_def)
  from core_no_wrap[OF core(1) this] show ?thesis using assms(3) by (simp add: word_le_nat_alt unat_plus_fits)
qed

text \<open>An input for a tick at or above the floor that the server last emitted to its session is accepted.\<close>

lemma client_input_accepted:
  assumes "server_reachable p enc c s" and "p = Dev \<or> length (s_entity_spawn_order s) \<le> 255"
    and "hm_get (s_session_players s) sid = Some q"
    and "hm_get (s_last_emitted_floor s) sid = Some flr"
    and "desired_tick \<le> w_tick (s_world s) + sc_max_future_ticks c"
    and "sc_input_lead_ticks c \<le> sc_max_future_ticks c"
    and "finite_vec2 move_dir" and "slot (s_input_buffer s) q (target_tick flr desired_tick) = None"
  shows "\<exists>s' r. receive_input p s sid (input_cmd flr desired_tick input_seq move_dir) =
      Done (s', r) \<and> is_accepted r"
proof -
  note core = server_reachable_core[OF assms(1,2)]
  let ?i = "input_cmd flr desired_tick input_seq move_dir"
  obtain s' r where recv: "receive_input p s sid ?i = Done (s', r)"
    using receive_input_total[OF core(1,3)] by blast
  note floor_eq = receive_from_server[OF assms(1-4)]
  note lead_in_window[OF assms(1,2,6)]
  moreover have "length (to_vec move_dir) = 2" "vec2_of (to_vec move_dir) = move_dir"
    by (simp_all add: to_vec_def vec2_of_def)
  ultimately have "is_accepted r"
    using receive_input_decision[OF core(1,3) recv] assms(3,5,7,8) floor_eq
    by (auto simp: input_cmd_def target_tick_def)
  with recv show ?thesis by blast
qed

lemma accepted_fills_slot:
  assumes "receive_input p s sid i = Done (s', r)" and "is_accepted r"
    and "hm_get (s_session_players s) sid = Some q" and "slot (s_input_buffer s) q (ic_tick i) = None"
  shows "slot (s_input_buffer s') q (ic_tick i) = Some (first_entry i)"
  using assms(1,2) by (rule receive_input_accepted) (use assms(3,4) in \<open>simp add: slot_try_buffer\<close>)

section \<open>Delivery\<close>

text \<open>What a reliable, ordered channel delivers to a peer: what was sent to it, in order.\<close>

fun delivered :: "PeerID \<Rightarrow> sent list \<Rightarrow> service_result list" where
  "delivered peer [] = []"
| "delivered peer (SendTo k ch (Reliable data) # sent) =
     (if k = peer then Inr (Some (Receive 0 ch data)) # delivered peer sent else delivered peer sent)"
| "delivered peer (_ # sent) = delivered peer sent"

end
