(* ===== verification/GodotWire.thy ===== *)
theory GodotWire
  imports Wire
begin

text \<open>
  The hand-written protobuf codec of the Godot client, \<^verbatim>\<open>client/net/wire\<close>: the byte writer and reader
  and one encoder and decoder per message. It is the other end of the bytes that the server's
  generated codec (\<^verbatim>\<open>prost\<close>) produces and reads. A GDScript \<^verbatim>\<open>int\<close> has 64 bits and is signed: it is a
  word, read with \<open>sint\<close> where the sign matters, and \<^verbatim>\<open>>>\<close> on it keeps the sign. The message classes have
  the fields of the wire messages, all integers 64 bits wide; only the welcome differs in type.
\<close>

unbundle bit_operations_syntax

section \<open>What an expression can do\<close>

text \<open>A script error ends a computation; \<open>None\<close> is a computation that never ends.\<close>

datatype gd_error = OutOfBounds | UndefinedShift | NullInstance

datatype 'a gd = Value 'a | Fault gd_error

fun gbind :: "'a gd \<Rightarrow> ('a \<Rightarrow> 'b gd) \<Rightarrow> 'b gd" where
  "gbind (Value x) f = f x"
| "gbind (Fault e) f = Fault e"

definition gmap :: "('a \<Rightarrow> 'b) \<Rightarrow> 'a gd \<Rightarrow> 'b gd" where
  "gmap f x = gbind x (\<lambda>x. Value (f x))"

lemma gmap_simps [simp]: "gmap f (Value x) = Value (f x)" "gmap f (Fault e) = Fault e"
  by (simp_all add: gmap_def)

section \<open>ByteWriter\<close>

definition WIRE_TYPE_VARINT :: u64 where "WIRE_TYPE_VARINT = 0"
definition WIRE_TYPE_FIXED64 :: u64 where "WIRE_TYPE_FIXED64 = 1"
definition WIRE_TYPE_LENGTH_DELIMITED :: u64 where "WIRE_TYPE_LENGTH_DELIMITED = 2"
definition WIRE_TYPE_FIXED32 :: u64 where "WIRE_TYPE_FIXED32 = 5"

lemmas wire_types =
  WIRE_TYPE_VARINT_def WIRE_TYPE_FIXED64_def WIRE_TYPE_LENGTH_DELIMITED_def WIRE_TYPE_FIXED32_def

definition unsigned_shr :: "u64 \<Rightarrow> nat \<Rightarrow> u64" where
  "unsigned_shr v bits = signed_drop_bit bits v AND signed_drop_bit (bits - 1) 0x7FFFFFFFFFFFFFFF"

text \<open>The emulation is right: it is the shift of the unsigned number.\<close>

lemma unsigned_shr_eq:
  assumes "0 < n" "n < 64"
  shows "unsigned_shr v n = drop_bit n v"
proof (rule bit_word_eqI)
  fix i assume i: "i < LENGTH(64)"
  have "(0x7FFFFFFFFFFFFFFF :: u64) = mask 63" by (simp add: mask_eq_exp_minus_1)
  then show "bit (unsigned_shr v n) i \<longleftrightarrow> bit (drop_bit n v) i"
    using assms i unfolding unsigned_shr_def \<open>0x7FFFFFFFFFFFFFFF = mask 63\<close>
    by (auto simp: bit_and_iff bit_signed_drop_bit_iff bit_drop_bit_eq bit_mask_iff dest: bit_imp_le_length)
qed

function write_varint :: "u64 \<Rightarrow> bytes \<Rightarrow> bytes" where
  "write_varint v w =
     (let byte = v AND 0x7F; v = unsigned_shr v 7
      in if v \<noteq> 0 then write_varint v (w @ [ucast (byte OR 0x80)]) else w @ [ucast byte])"
  by pat_completeness auto

lemma drop_seven_less: "drop_bit 7 v \<noteq> 0 \<Longrightarrow> drop_bit 7 v < (v :: u64)"
proof -
  assume "drop_bit 7 v \<noteq> 0"
  then have "0 < unat v" by (auto simp: unat_gt_0)
  then show ?thesis by (simp add: drop_bit_eq_div word_less_nat_alt unat_div)
qed

termination write_varint
  by (relation "measure (\<lambda>(v, w). unat v)") (auto simp: unsigned_shr_eq drop_seven_less unat_mono)

declare write_varint.simps [simp del]

definition write_tag :: "u64 \<Rightarrow> u64 \<Rightarrow> bytes \<Rightarrow> bytes" where
  "write_tag field_number wire_type w = write_varint (push_bit 3 field_number OR wire_type) w"

definition write_double :: "f64 \<Rightarrow> bytes \<Rightarrow> bytes" where
  "write_double v w = w @ to_le_bytes v"

definition write_bytes :: "bytes \<Rightarrow> bytes \<Rightarrow> bytes" where
  "write_bytes bs w = w @ bs"

section \<open>ByteReader\<close>

record reader =
  rd_bytes :: bytes
  rd_pos :: int

text \<open>Indexing counts negative positions from the end; adding two integers wraps.\<close>

definition gd_index :: "bytes \<Rightarrow> int \<Rightarrow> u8 gd" where
  "gd_index bs i =
     (let i = (if i < 0 then i + int (length bs) else i)
      in if 0 \<le> i \<and> i < int (length bs) then Value (bs ! nat i) else Fault OutOfBounds)"

definition gd_add :: "int \<Rightarrow> int \<Rightarrow> int" where
  "gd_add a b = signed_take_bit 63 (a + b)"

definition gd_clamp :: "int \<Rightarrow> int \<Rightarrow> int" where
  "gd_clamp n i = (let i = max (- n) (min n i) in if i < 0 then i + n else i)"

definition gd_slice :: "bytes \<Rightarrow> int \<Rightarrow> int \<Rightarrow> bytes" where
  "gd_slice bs b e =
     (let b = gd_clamp (int (length bs)) b; e = gd_clamp (int (length bs)) e
      in if e < b then [] else take (nat (e - b)) (drop (nat b) bs))"

definition of_le_bytes :: "bytes \<Rightarrow> u64" where
  "of_le_bytes bs = foldr (\<lambda>b v. push_bit 8 v OR ucast b) bs 0"

definition decode_double :: "bytes \<Rightarrow> int \<Rightarrow> f64" where
  "decode_double bs pos =
     (if pos < 0 \<or> int (length bs) - 8 < pos then 0
      else of_le_bytes (take 8 (drop (nat pos) bs)))"

text \<open>A left shift by 64 or more has no defined result.\<close>

function read_varint_from :: "u64 \<Rightarrow> nat \<Rightarrow> reader \<Rightarrow> (u64 \<times> reader) gd" where
  "read_varint_from result shift r =
     gbind (gd_index (rd_bytes r) (rd_pos r)) (\<lambda>b.
       if 64 \<le> shift then Fault UndefinedShift
       else let r = r\<lparr>rd_pos := gd_add (rd_pos r) 1\<rparr>;
                result = result OR push_bit shift (ucast b AND 0x7F)
            in if b AND 0x80 = 0 then Value (result, r)
               else read_varint_from result (shift + 7) r)"
  by pat_completeness auto

lemma gbind_cong [fundef_cong]:
  "x = y \<Longrightarrow> (\<And>z. y = Value z \<Longrightarrow> f z = g z) \<Longrightarrow> gbind x f = gbind y g"
  by (cases y) simp_all

termination read_varint_from
  by (relation "measure (\<lambda>(result, shift, r). 64 - shift)") auto

declare read_varint_from.simps [simp del]

definition read_varint :: "reader \<Rightarrow> (u64 \<times> reader) gd" where
  "read_varint r = read_varint_from 0 0 r"

definition read_tag :: "reader \<Rightarrow> ((u64 \<times> u64) \<times> reader) gd" where
  "read_tag r = gmap (\<lambda>(tag, r). ((signed_drop_bit 3 tag, tag AND 0x07), r)) (read_varint r)"

definition read_double :: "reader \<Rightarrow> f64 \<times> reader" where
  "read_double r = (decode_double (rd_bytes r) (rd_pos r), r\<lparr>rd_pos := gd_add (rd_pos r) 8\<rparr>)"

definition read_bytes :: "u64 \<Rightarrow> reader \<Rightarrow> bytes \<times> reader" where
  "read_bytes n r =
     (gd_slice (rd_bytes r) (rd_pos r) (gd_add (rd_pos r) (sint n)),
      r\<lparr>rd_pos := gd_add (rd_pos r) (sint n)\<rparr>)"

definition skip_field :: "u64 \<Rightarrow> reader \<Rightarrow> reader gd" where
  "skip_field wire_type r =
     (if wire_type = WIRE_TYPE_VARINT then gmap snd (read_varint r)
      else if wire_type = WIRE_TYPE_FIXED64 then Value (r\<lparr>rd_pos := gd_add (rd_pos r) 8\<rparr>)
      else if wire_type = WIRE_TYPE_LENGTH_DELIMITED then
        gmap (\<lambda>(n, r). r\<lparr>rd_pos := gd_add (rd_pos r) (sint n)\<rparr>) (read_varint r)
      else if wire_type = WIRE_TYPE_FIXED32 then Value (r\<lparr>rd_pos := gd_add (rd_pos r) 4\<rparr>)
      else Value r)"

definition has_more :: "reader \<Rightarrow> bool" where
  "has_more r \<longleftrightarrow> rd_pos r < int (length (rd_bytes r))"

definition reader_new :: "bytes \<Rightarrow> reader" where
  "reader_new bs = \<lparr>rd_bytes = bs, rd_pos = 0\<rparr>"

section \<open>WireCodec: encoding\<close>

text \<open>The pattern \<^verbatim>\<open>if x != 0: write_tag; write_varint\<close> of every integer field.\<close>

definition put_varint :: "u64 \<Rightarrow> u64 \<Rightarrow> bytes \<Rightarrow> bytes" where
  "put_varint field_number v w =
     (if v \<noteq> 0 then write_varint v (write_tag field_number WIRE_TYPE_VARINT w) else w)"

definition write_packed_doubles :: "u64 \<Rightarrow> f64 list \<Rightarrow> bytes \<Rightarrow> bytes" where
  "write_packed_doubles field_number values w =
     (if length values = 0 then w
      else fold write_double values
             (write_varint (of_nat (length values * 8)) (write_tag field_number WIRE_TYPE_LENGTH_DELIMITED w)))"

record GdServerWelcome =
  gsw_target_tick_floor :: u64
  gsw_tick_rate_hz :: u64
  gsw_player_id :: u64
  gsw_controlled_entity_id :: u64

definition encode_client_hello :: "ClientHello \<Rightarrow> bytes" where
  "encode_client_hello msg = []"

definition encode_server_welcome :: "GdServerWelcome \<Rightarrow> bytes" where
  "encode_server_welcome msg =
     (let w = put_varint 1 (gsw_target_tick_floor msg) [];
          w = put_varint 2 (gsw_tick_rate_hz msg) w;
          w = put_varint 3 (gsw_player_id msg) w
      in put_varint 4 (gsw_controlled_entity_id msg) w)"

definition encode_entity_snapshot_proto :: "EntitySnapshotProto \<Rightarrow> bytes" where
  "encode_entity_snapshot_proto msg =
     (let w = put_varint 1 (ep_entity_id msg) [];
          w = write_packed_doubles 2 (ep_position msg) w
      in write_packed_doubles 3 (ep_velocity msg) w)"

definition put_entity :: "EntitySnapshotProto \<Rightarrow> bytes \<Rightarrow> bytes" where
  "put_entity entity w =
     (let entity_bytes = encode_entity_snapshot_proto entity;
          w = write_tag 2 WIRE_TYPE_LENGTH_DELIMITED w;
          w = write_varint (of_nat (length entity_bytes)) w
      in write_bytes entity_bytes w)"

definition encode_join_baseline :: "JoinBaseline \<Rightarrow> bytes" where
  "encode_join_baseline msg =
     (let w = put_varint 1 (jb_tick msg) [];
          w = fold put_entity (jb_entities msg) w
      in put_varint 3 (jb_digest msg) w)"

definition encode_input_cmd_proto :: "InputCmdProto \<Rightarrow> bytes" where
  "encode_input_cmd_proto msg =
     (let w = put_varint 1 (ic_tick msg) [];
          w = put_varint 2 (ic_input_seq msg) w
      in write_packed_doubles 3 (ic_move_dir msg) w)"

definition encode_snapshot_proto :: "SnapshotProto \<Rightarrow> bytes" where
  "encode_snapshot_proto msg =
     (let w = put_varint 1 (sp_tick msg) [];
          w = fold put_entity (sp_entities msg) w;
          w = put_varint 3 (sp_digest msg) w
      in put_varint 4 (sp_target_tick_floor msg) w)"

section \<open>WireCodec: decoding\<close>

text \<open>
  The loop of every decoder, \<^verbatim>\<open>while r.has_more()\<close>: it may go on forever. Its \<^verbatim>\<open>match field_number\<close> is
  the parameter.
\<close>

partial_function (option) decode_loop ::
  "(u64 \<Rightarrow> u64 \<Rightarrow> 'm \<Rightarrow> reader \<Rightarrow> ('m \<times> reader) gd option) \<Rightarrow> 'm \<Rightarrow> reader \<Rightarrow> 'm gd option" where
  "decode_loop field msg r =
     (if has_more r then
        (case read_tag r of
           Fault e \<Rightarrow> Some (Fault e)
         | Value ((field_number, wire_type), r) \<Rightarrow>
             Option.bind (field field_number wire_type msg r) (\<lambda>res.
               case res of Fault e \<Rightarrow> Some (Fault e) | Value (msg, r) \<Rightarrow> decode_loop field msg r))
      else Some (Value msg))"

definition set_varint :: "(u64 \<Rightarrow> 'm \<Rightarrow> 'm) \<Rightarrow> 'm \<Rightarrow> reader \<Rightarrow> ('m \<times> reader) gd option" where
  "set_varint upd msg r = Some (gmap (\<lambda>(v, r). (upd v msg, r)) (read_varint r))"

definition skip_unknown :: "u64 \<Rightarrow> 'm \<Rightarrow> reader \<Rightarrow> ('m \<times> reader) gd option" where
  "skip_unknown wire_type msg r = Some (gmap (Pair msg) (skip_field wire_type r))"

fun read_doubles :: "nat \<Rightarrow> reader \<Rightarrow> f64 list \<times> reader" where
  "read_doubles 0 r = ([], r)"
| "read_doubles (Suc n) r =
     (let (v, r) = read_double r; (vs, r) = read_doubles n r in (v # vs, r))"

text \<open>\<^verbatim>\<open>length / 8\<close> truncates toward zero, and \<^verbatim>\<open>range\<close> of a negative count is empty.\<close>

definition read_packed_doubles :: "reader \<Rightarrow> (f64 list \<times> reader) gd" where
  "read_packed_doubles r = gmap (\<lambda>(n, r). read_doubles (nat (sint n div 8)) r) (read_varint r)"

definition set_doubles :: "(f64 list \<Rightarrow> 'm \<Rightarrow> 'm) \<Rightarrow> 'm \<Rightarrow> reader \<Rightarrow> ('m \<times> reader) gd option" where
  "set_doubles upd msg r = Some (gmap (\<lambda>(vs, r). (upd vs msg, r)) (read_packed_doubles r))"

definition decode_client_hello :: "bytes \<Rightarrow> ClientHello" where
  "decode_client_hello bs = ClientHello"

definition server_welcome_field ::
  "u64 \<Rightarrow> u64 \<Rightarrow> GdServerWelcome \<Rightarrow> reader \<Rightarrow> (GdServerWelcome \<times> reader) gd option" where
  "server_welcome_field field_number wire_type =
     (if field_number = 1 then set_varint (\<lambda>v. gsw_target_tick_floor_update (\<lambda>_. v))
      else if field_number = 2 then set_varint (\<lambda>v. gsw_tick_rate_hz_update (\<lambda>_. v))
      else if field_number = 3 then set_varint (\<lambda>v. gsw_player_id_update (\<lambda>_. v))
      else if field_number = 4 then set_varint (\<lambda>v. gsw_controlled_entity_id_update (\<lambda>_. v))
      else skip_unknown wire_type)"

definition decode_server_welcome :: "bytes \<Rightarrow> GdServerWelcome gd option" where
  "decode_server_welcome bs =
     decode_loop server_welcome_field
       \<lparr>gsw_target_tick_floor = 0, gsw_tick_rate_hz = 0, gsw_player_id = 0, gsw_controlled_entity_id = 0\<rparr>
       (reader_new bs)"

definition entity_snapshot_field ::
  "u64 \<Rightarrow> u64 \<Rightarrow> EntitySnapshotProto \<Rightarrow> reader \<Rightarrow> (EntitySnapshotProto \<times> reader) gd option" where
  "entity_snapshot_field field_number wire_type =
     (if field_number = 1 then set_varint (\<lambda>v. ep_entity_id_update (\<lambda>_. v))
      else if field_number = 2 then set_doubles (\<lambda>vs. ep_position_update (\<lambda>_. vs))
      else if field_number = 3 then set_doubles (\<lambda>vs. ep_velocity_update (\<lambda>_. vs))
      else skip_unknown wire_type)"

definition decode_entity_snapshot_proto :: "bytes \<Rightarrow> EntitySnapshotProto gd option" where
  "decode_entity_snapshot_proto bs =
     decode_loop entity_snapshot_field \<lparr>ep_entity_id = 0, ep_position = [], ep_velocity = []\<rparr> (reader_new bs)"

definition add_entity ::
  "(EntitySnapshotProto \<Rightarrow> 'm \<Rightarrow> 'm) \<Rightarrow> 'm \<Rightarrow> reader \<Rightarrow> ('m \<times> reader) gd option" where
  "add_entity add msg r =
     (case read_varint r of
        Fault e \<Rightarrow> Some (Fault e)
      | Value (n, r) \<Rightarrow>
          let (entity_bytes, r) = read_bytes n r
          in map_option (gmap (\<lambda>e. (add e msg, r))) (decode_entity_snapshot_proto entity_bytes))"

definition join_baseline_field ::
  "u64 \<Rightarrow> u64 \<Rightarrow> JoinBaseline \<Rightarrow> reader \<Rightarrow> (JoinBaseline \<times> reader) gd option" where
  "join_baseline_field field_number wire_type =
     (if field_number = 1 then set_varint (\<lambda>v. jb_tick_update (\<lambda>_. v))
      else if field_number = 2 then add_entity (\<lambda>e. jb_entities_update (\<lambda>es. es @ [e]))
      else if field_number = 3 then set_varint (\<lambda>v. jb_digest_update (\<lambda>_. v))
      else skip_unknown wire_type)"

definition decode_join_baseline :: "bytes \<Rightarrow> JoinBaseline gd option" where
  "decode_join_baseline bs =
     decode_loop join_baseline_field \<lparr>jb_tick = 0, jb_entities = [], jb_digest = 0\<rparr> (reader_new bs)"

definition input_cmd_field ::
  "u64 \<Rightarrow> u64 \<Rightarrow> InputCmdProto \<Rightarrow> reader \<Rightarrow> (InputCmdProto \<times> reader) gd option" where
  "input_cmd_field field_number wire_type =
     (if field_number = 1 then set_varint (\<lambda>v. ic_tick_update (\<lambda>_. v))
      else if field_number = 2 then set_varint (\<lambda>v. ic_input_seq_update (\<lambda>_. v))
      else if field_number = 3 then set_doubles (\<lambda>vs. ic_move_dir_update (\<lambda>_. vs))
      else skip_unknown wire_type)"

definition decode_input_cmd_proto :: "bytes \<Rightarrow> InputCmdProto gd option" where
  "decode_input_cmd_proto bs =
     decode_loop input_cmd_field \<lparr>ic_tick = 0, ic_input_seq = 0, ic_move_dir = []\<rparr> (reader_new bs)"

definition snapshot_field ::
  "u64 \<Rightarrow> u64 \<Rightarrow> SnapshotProto \<Rightarrow> reader \<Rightarrow> (SnapshotProto \<times> reader) gd option" where
  "snapshot_field field_number wire_type =
     (if field_number = 1 then set_varint (\<lambda>v. sp_tick_update (\<lambda>_. v))
      else if field_number = 2 then add_entity (\<lambda>e. sp_entities_update (\<lambda>es. es @ [e]))
      else if field_number = 3 then set_varint (\<lambda>v. sp_digest_update (\<lambda>_. v))
      else if field_number = 4 then set_varint (\<lambda>v. sp_target_tick_floor_update (\<lambda>_. v))
      else skip_unknown wire_type)"

definition decode_snapshot_proto :: "bytes \<Rightarrow> SnapshotProto gd option" where
  "decode_snapshot_proto bs =
     decode_loop snapshot_field
       \<lparr>sp_tick = 0, sp_entities = [], sp_digest = 0, sp_target_tick_floor = 0\<rparr> (reader_new bs)"

end
