(* ===== verification/GodotCodec.thy ===== *)
theory GodotCodec
  imports GodotWire
begin

text \<open>
  The Godot client's codec loses nothing: what its encoders write, its decoders read back, field by
  field. The lemmas follow a reader through a packet whose bytes before the position have been read
  and whose bytes after it are still to come.
\<close>

section \<open>The writer appends\<close>

abbreviation varint :: "u64 \<Rightarrow> bytes" where
  "varint v \<equiv> write_varint v []"

lemma write_varint_prefix: "write_varint v (u @ w) = u @ write_varint v w"
proof (induction v w rule: write_varint.induct)
  case (1 v w)
  then show ?case by (cases "unsigned_shr v 7 = 0") (simp_all add: write_varint.simps[of v] Let_def)
qed

lemma write_varint_append: "write_varint v w = w @ varint v"
  using write_varint_prefix[of v w "[]"] by simp

lemma varint_last: "drop_bit 7 v = 0 \<Longrightarrow> varint v = [ucast (v AND 0x7F)]"
  by (simp add: write_varint.simps[of v] Let_def unsigned_shr_eq)

lemma varint_more:
  "drop_bit 7 v \<noteq> 0 \<Longrightarrow> varint v = ucast (v AND 0x7F OR 0x80) # varint (drop_bit 7 v)"
  by (simp add: write_varint.simps[of v] Let_def unsigned_shr_eq write_varint_append[of _ "[_]"])

abbreviation tag_bytes :: "u64 \<Rightarrow> u64 \<Rightarrow> bytes" where
  "tag_bytes f t \<equiv> varint (push_bit 3 f OR t)"

abbreviation varint_field :: "u64 \<Rightarrow> u64 \<Rightarrow> bytes" where
  "varint_field f v \<equiv> put_varint f v []"

lemma put_varint_append: "put_varint f v w = w @ varint_field f v"
  by (simp add: put_varint_def write_tag_def write_varint_append[of _ "_ @ _"] write_varint_append[of _ w]
      write_varint_append[of _ "varint _"])

lemma varint_field: "varint_field f v = (if v = 0 then [] else tag_bytes f 0 @ varint v)"
  by (simp add: put_varint_def write_tag_def wire_types write_varint_append[of v "varint _"])

definition doubles :: "f64 list \<Rightarrow> bytes" where
  "doubles vs = concat (map to_le_bytes vs)"

lemma fold_write_double: "fold write_double vs w = w @ doubles vs"
  by (induction vs arbitrary: w) (simp_all add: write_double_def doubles_def)

lemma length_doubles [simp]: "length (doubles vs) = 8 * length vs"
  by (induction vs) (simp_all add: doubles_def)

abbreviation doubles_field :: "u64 \<Rightarrow> f64 list \<Rightarrow> bytes" where
  "doubles_field f vs \<equiv> write_packed_doubles f vs []"

lemma write_packed_doubles_append: "write_packed_doubles f vs w = w @ doubles_field f vs"
  by (simp add: write_packed_doubles_def write_tag_def fold_write_double write_varint_append[of _ "_ @ _"]
      write_varint_append[of _ w] write_varint_append[of _ "varint _"])

lemma doubles_field:
  "doubles_field f vs =
     (if vs = [] then [] else tag_bytes f 2 @ varint (of_nat (length vs * 8)) @ doubles vs)"
  by (simp add: write_packed_doubles_def write_tag_def wire_types fold_write_double
      write_varint_append[of _ "varint _"])

abbreviation entity_field :: "EntitySnapshotProto \<Rightarrow> bytes" where
  "entity_field e \<equiv> put_entity e []"

lemma put_entity_append: "put_entity e w = w @ entity_field e"
  by (simp add: put_entity_def write_tag_def write_bytes_def Let_def write_varint_append[of _ "_ @ _"]
      write_varint_append[of _ w] write_varint_append[of _ "varint _"])

lemma fold_put_entity: "fold put_entity es w = w @ concat (map entity_field es)"
proof (induction es arbitrary: w)
  case (Cons e es)
  then show ?case by (simp add: put_entity_append[of e w])
qed simp

lemma entity_field:
  "entity_field e = tag_bytes 2 2 @ varint (of_nat (length (encode_entity_snapshot_proto e))) @
     encode_entity_snapshot_proto e"
  by (simp add: put_entity_def write_tag_def write_bytes_def Let_def wire_types write_varint_append[of _ "varint _"])

section \<open>The reader\<close>

abbreviation rdr :: "bytes \<Rightarrow> bytes \<Rightarrow> reader" where
  "rdr done rest \<equiv> \<lparr>rd_bytes = done @ rest, rd_pos = int (length done)\<rparr>"

definition packet_fits :: "bytes \<Rightarrow> bool" where
  "packet_fits bs \<longleftrightarrow> length bs < 2 ^ 63"

lemma gd_add_small: "0 \<le> a + b \<Longrightarrow> a + b < 2 ^ 63 \<Longrightarrow> gd_add a b = a + b"
  by (simp add: gd_add_def signed_take_bit_int_eq_self)

lemma index_at [simp]: "gd_index (done @ b # rest) (int (length done)) = Value b"
  by (simp add: gd_index_def)

lemma at_next:
  assumes "packet_fits (done @ b @ rest)"
  shows "gd_add (int (length done)) (int (length b)) = int (length (done @ b))"
  using assms by (subst gd_add_small) (auto simp: packet_fits_def)


text \<open>A byte of a varint: seven bits of the number and one that says whether more follow.\<close>

lemma seven_bits: "(0x7F :: 'a::len word) = mask 7"
  by (simp add: mask_eq_exp_minus_1)

lemma eighth_bit: "bit (0x80 :: int) n \<longleftrightarrow> n = 7"
proof -
  have "(0x80 :: int) = 2 ^ 7" by simp
  then show ?thesis by (simp only: bit_exp_iff) auto
qed

lemma bit_low_byte: "bit (ucast (x :: u64) :: u8) n \<longleftrightarrow> n < 8 \<and> bit x n"
  by (simp add: bit_ucast_iff)

lemma last_byte:
  "ucast (ucast (v AND 0x7F :: u64) :: u8) AND 0x7F = v AND 0x7F"
  "(ucast (v AND 0x7F :: u64) :: u8) AND 0x80 = 0"
  unfolding seven_bits
  by (auto intro!: bit_word_eqI simp: bit_simps bit_low_byte eighth_bit)

lemma more_byte:
  "ucast (ucast (v AND 0x7F OR 0x80 :: u64) :: u8) AND 0x7F = v AND 0x7F"
  "(ucast (v AND 0x7F OR 0x80 :: u64) :: u8) AND 0x80 \<noteq> 0"
proof -
  show "ucast (ucast (v AND 0x7F OR 0x80 :: u64) :: u8) AND 0x7F = v AND 0x7F"
    unfolding seven_bits by (auto intro!: bit_word_eqI simp: bit_simps bit_low_byte eighth_bit)
  have "bit ((ucast (v AND 0x7F OR 0x80 :: u64) :: u8) AND 0x80) 7"
    unfolding seven_bits by (simp add: bit_simps bit_low_byte eighth_bit)
  then show "(ucast (v AND 0x7F OR 0x80 :: u64) :: u8) AND 0x80 \<noteq> 0" by auto
qed

lemma split_seven: "push_bit n (v AND 0x7F) OR push_bit (n + 7) (drop_bit 7 v) = push_bit n (v :: u64)"
proof (rule bit_word_eqI)
  fix i assume "i < LENGTH(64)"
  then show "bit (push_bit n (v AND 0x7F) OR push_bit (n + 7) (drop_bit 7 v)) i \<longleftrightarrow> bit (push_bit n v) i"
    unfolding seven_bits by (cases "n + 7 \<le> i") (auto simp: bit_simps)
qed

lemma read_varint_from_at:
  assumes "packet_fits (done @ varint v @ rest)" and "unat v < 2 ^ (64 - n)" and "n < 64"
  shows "read_varint_from acc n (rdr done (varint v @ rest)) =
    Value (acc OR push_bit n v, rdr (done @ varint v) rest)"
  using assms
proof (induction "unat v" arbitrary: v acc n "done" rule: less_induct)
  case less
  show ?case
  proof (cases "drop_bit 7 v = 0")
    case True
    then have "push_bit n (v AND 0x7F) = push_bit n v" using split_seven[of n v] by simp
    then show ?thesis
      using less.prems at_next[of "done" "[ucast (v AND 0x7F)]" rest]
      by (simp add: varint_last[OF True] read_varint_from.simps[of acc n] last_byte Let_def del: push_bit_and)
  next
    case False
    let ?b = "ucast (v AND 0x7F OR 0x80) :: u8" and ?v = "drop_bit 7 v"
    have v: "varint v = ?b # varint ?v" by (rule varint_more[OF False])
    have "unat ?v \<noteq> 0" using False by (simp add: unat_eq_zero)
    moreover have "unat ?v = unat v div 2 ^ 7" by (simp add: drop_bit_eq_div unat_div)
    moreover have "unat v div 2 ^ 7 = 0" if "\<not> n + 7 < 64"
    proof -
      have "2 ^ (64 - n) \<le> (2 ^ 7 :: nat)" using that by (intro power_increasing) auto
      then show ?thesis using less.prems(2) by simp
    qed
    ultimately have n: "n + 7 < 64" by metis
    have "7 + (64 - (n + 7)) = 64 - n" using n by simp
    then have "(2 ^ 7 * 2 ^ (64 - (n + 7)) :: nat) = 2 ^ (64 - n)" by (metis power_add)
    then have "unat v < 2 ^ 7 * 2 ^ (64 - (n + 7))" using less.prems(2) by simp
    then have "unat ?v < 2 ^ (64 - (n + 7))"
      unfolding \<open>unat ?v = unat v div 2 ^ 7\<close> by (simp add: less_mult_imp_div_less mult.commute)
    moreover have "unat ?v < unat v" using drop_seven_less[OF False] by (simp add: word_less_nat_alt)
    moreover have "packet_fits ((done @ [?b]) @ varint ?v @ rest)" using less.prems(1) by (simp add: v)
    ultimately have IH: "read_varint_from (acc OR push_bit n (v AND 0x7F)) (n + 7) (rdr (done @ [?b]) (varint ?v @ rest)) =
        Value ((acc OR push_bit n (v AND 0x7F)) OR push_bit (n + 7) ?v, rdr ((done @ [?b]) @ varint ?v) rest)"
      using n by (intro less.hyps) assumption+
    then show ?thesis
      using less.prems at_next[of "done" "[?b]" "varint ?v @ rest"]
      by (simp add: v read_varint_from.simps[of acc n] more_byte Let_def or.assoc split_seven del: push_bit_and)
  qed
qed

lemma read_varint_at [simp]:
  "packet_fits (done @ varint v @ rest) \<Longrightarrow>
     read_varint (rdr done (varint v @ rest)) = Value (v, rdr (done @ varint v) rest)"
  using read_varint_from_at[of "done" v rest 0 0] unsigned_less[of v] by (simp add: read_varint_def)

text \<open>Tags of the field numbers 1 to 4 with the wire types 0 and 2.\<close>

lemma read_tag_at:
  assumes "packet_fits (done @ tag_bytes f t @ rest)" and "f \<in> {1, 2, 3, 4}" "t \<in> {0, 2}"
  shows "read_tag (rdr done (tag_bytes f t @ rest)) = Value ((f, t), rdr (done @ tag_bytes f t) rest)"
  using assms(2,3) by (auto simp: read_tag_def read_varint_at[OF assms(1)] simp del: append_assoc)

text \<open>Eight bytes, one double.\<close>

lemma bit_of_le_bytes:
  "bit (of_le_bytes bs) n \<longleftrightarrow> n < 64 \<and> n div 8 < length bs \<and> bit (bs ! (n div 8)) (n mod 8)"
proof (induction bs arbitrary: n)
  case (Cons b bs)
  have "bit (of_le_bytes (b # bs)) n \<longleftrightarrow> n < 64 \<and> (8 \<le> n \<and> bit (of_le_bytes bs) (n - 8) \<or> bit b n)"
    by (auto simp: of_le_bytes_def bit_simps)
  moreover have "n div 8 = Suc ((n - 8) div 8)" "n mod 8 = (n - 8) mod 8" "\<not> bit b n" if "8 \<le> n"
    using that by (auto simp: le_div_geq le_mod_geq dest: bit_imp_le_length)
  ultimately show ?case using Cons.IH[of "n - 8"] by (cases "8 \<le> n") auto
qed (simp add: of_le_bytes_def)

lemma of_to_le_bytes: "of_le_bytes (to_le_bytes v) = v"
  by (rule bit_word_eqI) (auto simp: bit_of_le_bytes bit_to_le_bytes)

lemma sint_length: "n < 2 ^ 63 \<Longrightarrow> sint (of_nat n :: u64) = int n"
  by (simp add: signed_of_nat signed_take_bit_int_eq_self)

lemma read_doubles_at:
  assumes "packet_fits (done @ doubles vs @ rest)"
  shows "read_doubles (length vs) (rdr done (doubles vs @ rest)) = (vs, rdr (done @ doubles vs) rest)"
  using assms
proof (induction vs arbitrary: "done")
  case (Cons v vs)
  have d: "doubles (v # vs) = to_le_bytes v @ doubles vs" by (simp add: doubles_def)
  have "read_double (rdr done (to_le_bytes v @ doubles vs @ rest)) =
      (v, rdr (done @ to_le_bytes v) (doubles vs @ rest))"
    using at_next[of "done" "to_le_bytes v" "doubles vs @ rest"] Cons.prems
    by (simp add: d read_double_def decode_double_def of_to_le_bytes)
  moreover have "packet_fits ((done @ to_le_bytes v) @ doubles vs @ rest)" using Cons.prems by (simp add: d)
  from Cons.IH[OF this] have "read_doubles (length vs) (rdr (done @ to_le_bytes v) (doubles vs @ rest)) =
      (vs, rdr (done @ doubles (v # vs)) rest)" by (simp add: d)
  ultimately show ?case by (simp add: d)
qed (simp add: doubles_def)

lemma read_packed_doubles_at:
  assumes "packet_fits (done @ varint (of_nat (length vs * 8)) @ doubles vs @ rest)"
  shows "read_packed_doubles (rdr done (varint (of_nat (length vs * 8)) @ doubles vs @ rest)) =
    Value (vs, rdr (done @ varint (of_nat (length vs * 8)) @ doubles vs) rest)"
proof -
  have "sint (of_nat (length vs * 8) :: u64) = int (length vs * 8)"
    using assms by (intro sint_length) (simp add: packet_fits_def)
  then have "nat (sint (of_nat (length vs * 8) :: u64) div 8) = length vs" by simp
  moreover have "packet_fits ((done @ varint (of_nat (length vs * 8))) @ doubles vs @ rest)"
    using assms by simp
  note read_doubles_at[OF this]
  ultimately show ?thesis using read_varint_at[OF assms] by (simp add: read_packed_doubles_def)
qed

section \<open>One field of a message\<close>

lemma varint_not_Nil [simp]: "varint v \<noteq> []"
  by (cases "drop_bit 7 v = 0") (simp_all add: varint_last varint_more)

lemma reader_new_at: "reader_new bs = rdr [] bs"
  by (simp add: reader_new_def)

lemma decode_loop_end [simp]: "decode_loop F msg (rdr done []) = Some (Value msg)"
  by (simp add: decode_loop.simps has_more_def)

text \<open>\<open>reads F m bs m'\<close>: wherever in a packet the loop meets \<open>bs\<close>, it turns the message \<open>m\<close> into \<open>m'\<close>.\<close>

definition reads ::
  "(u64 \<Rightarrow> u64 \<Rightarrow> 'm \<Rightarrow> reader \<Rightarrow> ('m \<times> reader) gd option) \<Rightarrow> 'm \<Rightarrow> bytes \<Rightarrow> 'm \<Rightarrow> bool" where
  "reads F m bs m' \<longleftrightarrow>
     (\<forall>done rest. packet_fits (done @ bs @ rest) \<longrightarrow>
        decode_loop F m (rdr done (bs @ rest)) = decode_loop F m' (rdr (done @ bs) rest))"

lemma reads_to: "reads F m bs m' \<Longrightarrow> m' = m'' \<Longrightarrow> reads F m bs m''"
  by simp

lemma readsD:
  "reads F m bs m' \<Longrightarrow> packet_fits (done @ bs @ rest) \<Longrightarrow>
     decode_loop F m (rdr done (bs @ rest)) = decode_loop F m' (rdr (done @ bs) rest)"
  by (simp add: reads_def)

lemma reads_append:
  assumes "reads F m as m'" and "reads F m' bs m''"
  shows "reads F m (as @ bs) m''"
  unfolding reads_def
proof (intro allI impI)
  fix "done" rest assume fits: "packet_fits (done @ (as @ bs) @ rest)"
  then show "decode_loop F m (rdr done ((as @ bs) @ rest)) = decode_loop F m'' (rdr (done @ as @ bs) rest)"
    using readsD[OF assms(1), of "done" "bs @ rest"] readsD[OF assms(2), of "done @ as" rest] by simp
qed

lemma reads_all: "reads F m bs m' \<Longrightarrow> packet_fits bs \<Longrightarrow> decode_loop F m (reader_new bs) = Some (Value m')"
  using readsD[of F m bs m' "[]" "[]"] decode_loop_end[of F m' bs] by (simp add: reader_new_at)

lemma reads_field:
  assumes "f \<in> {1, 2, 3, 4}" "t \<in> {0, 2}"
    and field: "\<And>done rest. packet_fits (done @ payload @ rest) \<Longrightarrow>
      F f t m (rdr done (payload @ rest)) = Some (Value (m', rdr (done @ payload) rest))"
  shows "reads F m (tag_bytes f t @ payload) m'"
  unfolding reads_def
proof (intro allI impI)
  fix "done" rest assume "packet_fits (done @ (tag_bytes f t @ payload) @ rest)"
  then have fits: "packet_fits (done @ tag_bytes f t @ payload @ rest)" by simp
  have "0 < length (tag_bytes f t)" by simp
  then have "has_more (rdr done (tag_bytes f t @ payload @ rest))" by (simp add: has_more_def del: length_greater_0_conv)
  then show "decode_loop F m (rdr done ((tag_bytes f t @ payload) @ rest)) =
      decode_loop F m' (rdr (done @ tag_bytes f t @ payload) rest)"
    using read_tag_at[OF fits assms(1,2)] field[of "done @ tag_bytes f t" rest] fits
    by (simp add: decode_loop.simps[of F m])
qed

lemma reads_varint:
  assumes "F f 0 = set_varint upd" and "f \<in> {1, 2, 3, 4}" and "v = 0 \<Longrightarrow> upd v m = m"
  shows "reads F m (varint_field f v) (upd v m)"
proof (cases "v = 0")
  case False
  then have "reads F m (tag_bytes f 0 @ varint v) (upd v m)"
    by (intro reads_field) (use assms(1,2) in \<open>simp_all add: set_varint_def\<close>)
  with False show ?thesis by (simp add: varint_field)
qed (use assms(3) in \<open>simp add: varint_field reads_def\<close>)

lemma reads_doubles:
  assumes "F f 2 = set_doubles upd" and "f \<in> {1, 2, 3, 4}" and "vs = [] \<Longrightarrow> upd vs m = m"
  shows "reads F m (doubles_field f vs) (upd vs m)"
proof (cases "vs = []")
  case False
  then have "reads F m (tag_bytes f 2 @ varint (of_nat (length vs * 8)) @ doubles vs) (upd vs m)"
    by (intro reads_field) (use assms(1,2) read_packed_doubles_at in \<open>simp_all add: set_doubles_def\<close>)
  with False show ?thesis by (simp add: doubles_field)
qed (use assms(3) in \<open>simp add: doubles_field reads_def\<close>)

section \<open>The messages\<close>

lemma encoded_entity:
  "encode_entity_snapshot_proto e =
     (varint_field 1 (ep_entity_id e) @ doubles_field 2 (ep_position e)) @ doubles_field 3 (ep_velocity e)"
  by (simp add: encode_entity_snapshot_proto_def Let_def write_packed_doubles_append[of 3 _ "write_packed_doubles _ _ _"]
      write_packed_doubles_append[of 2 _ "put_varint _ _ _"])

lemma entity_roundtrip:
  assumes "packet_fits (encode_entity_snapshot_proto e)"
  shows "decode_entity_snapshot_proto (encode_entity_snapshot_proto e) = Some (Value e)"
proof (cases e)
  case (fields i x v)
  have "reads entity_snapshot_field \<lparr>ep_entity_id = 0, ep_position = [], ep_velocity = []\<rparr>
      (encode_entity_snapshot_proto e) e"
    unfolding encoded_entity
    by (rule reads_append[OF reads_append[OF
          reads_varint[where upd = "\<lambda>v. ep_entity_id_update (\<lambda>_. v)"]
          reads_doubles[where upd = "\<lambda>vs. ep_position_update (\<lambda>_. vs)"]]
          reads_doubles[where upd = "\<lambda>vs. ep_velocity_update (\<lambda>_. vs)", THEN reads_to]])
      (simp_all add: fields entity_snapshot_field_def)
  from reads_all[OF this assms] show ?thesis by (simp add: decode_entity_snapshot_proto_def)
qed

lemma slice_at:
  assumes "packet_fits (done @ bs @ rest)"
  shows "read_bytes (of_nat (length bs)) (rdr done (bs @ rest)) = (bs, rdr (done @ bs) rest)"
proof -
  have "sint (of_nat (length bs) :: u64) = int (length bs)"
    using assms by (intro sint_length) (simp add: packet_fits_def)
  moreover note at_next[OF assms]
  ultimately show ?thesis by (simp add: read_bytes_def gd_slice_def gd_clamp_def Let_def)
qed

lemma reads_entity:
  assumes "F 2 2 = add_entity add"
  shows "reads F m (entity_field e) (add e m)"
  unfolding entity_field
proof (rule reads_field)
  let ?e = "encode_entity_snapshot_proto e"
  fix "done" rest assume fits: "packet_fits (done @ (varint (of_nat (length ?e)) @ ?e) @ rest)"
  then have "decode_entity_snapshot_proto ?e = Some (Value e)"
    by (intro entity_roundtrip) (simp add: packet_fits_def)
  then show "F 2 2 m (rdr done ((varint (of_nat (length ?e)) @ ?e) @ rest)) =
      Some (Value (add e m, rdr (done @ varint (of_nat (length ?e)) @ ?e) rest))"
    using fits slice_at[of "done @ varint (of_nat (length ?e))" ?e rest] by (simp add: assms add_entity_def)
qed simp_all

lemma reads_entities:
  assumes "F 2 2 = add_entity add"
  shows "reads F m (concat (map entity_field es)) (fold add es m)"
proof (induction es arbitrary: m)
  case Nil
  then show ?case by (simp add: reads_def)
next
  case (Cons e es)
  from reads_append[OF reads_entity[of F add m e, OF assms] Cons.IH] show ?case by simp
qed

lemma fold_add_entities:
  "fold (\<lambda>e. jb_entities_update (\<lambda>es. es @ [e])) es b = b\<lparr>jb_entities := jb_entities b @ es\<rparr>"
  "fold (\<lambda>e. sp_entities_update (\<lambda>es. es @ [e])) es s = s\<lparr>sp_entities := sp_entities s @ es\<rparr>"
  by (induction es arbitrary: b s) simp_all

lemma server_welcome_roundtrip:
  assumes "packet_fits (encode_server_welcome m)"
  shows "decode_server_welcome (encode_server_welcome m) = Some (Value m)"
proof (cases m)
  case (fields a b c d)
  have enc: "encode_server_welcome m = ((varint_field 1 (gsw_target_tick_floor m) @
      varint_field 2 (gsw_tick_rate_hz m)) @ varint_field 3 (gsw_player_id m)) @
      varint_field 4 (gsw_controlled_entity_id m)"
    by (simp add: encode_server_welcome_def Let_def put_varint_append[of 4 _ "put_varint _ _ _"]
        put_varint_append[of 3 _ "put_varint _ _ _"] put_varint_append[of 2 _ "put_varint _ _ _"])
  have "reads server_welcome_field
      \<lparr>gsw_target_tick_floor = 0, gsw_tick_rate_hz = 0, gsw_player_id = 0, gsw_controlled_entity_id = 0\<rparr>
      (encode_server_welcome m) m"
    unfolding enc
    by (rule reads_append[OF reads_append[OF reads_append[OF
          reads_varint[where upd = "\<lambda>v. gsw_target_tick_floor_update (\<lambda>_. v)"]
          reads_varint[where upd = "\<lambda>v. gsw_tick_rate_hz_update (\<lambda>_. v)"]]
          reads_varint[where upd = "\<lambda>v. gsw_player_id_update (\<lambda>_. v)"]]
          reads_varint[where upd = "\<lambda>v. gsw_controlled_entity_id_update (\<lambda>_. v)", THEN reads_to]])
      (simp_all add: fields server_welcome_field_def)
  from reads_all[OF this assms] show ?thesis by (simp add: decode_server_welcome_def)
qed

lemma input_cmd_roundtrip:
  assumes "packet_fits (encode_input_cmd_proto m)"
  shows "decode_input_cmd_proto (encode_input_cmd_proto m) = Some (Value m)"
proof (cases m)
  case (fields t n d)
  have enc: "encode_input_cmd_proto m =
      (varint_field 1 (ic_tick m) @ varint_field 2 (ic_input_seq m)) @ doubles_field 3 (ic_move_dir m)"
    by (simp add: encode_input_cmd_proto_def Let_def write_packed_doubles_append[of 3 _ "put_varint _ _ _"]
        put_varint_append[of 2 _ "put_varint _ _ _"])
  have "reads input_cmd_field \<lparr>ic_tick = 0, ic_input_seq = 0, ic_move_dir = []\<rparr> (encode_input_cmd_proto m) m"
    unfolding enc
    by (rule reads_append[OF reads_append[OF
          reads_varint[where upd = "\<lambda>v. ic_tick_update (\<lambda>_. v)"]
          reads_varint[where upd = "\<lambda>v. ic_input_seq_update (\<lambda>_. v)"]]
          reads_doubles[where upd = "\<lambda>vs. ic_move_dir_update (\<lambda>_. vs)", THEN reads_to]])
      (simp_all add: fields input_cmd_field_def)
  from reads_all[OF this assms] show ?thesis by (simp add: decode_input_cmd_proto_def)
qed

lemma join_baseline_roundtrip:
  assumes "packet_fits (encode_join_baseline m)"
  shows "decode_join_baseline (encode_join_baseline m) = Some (Value m)"
proof (cases m)
  case (fields t es d)
  have enc: "encode_join_baseline m =
      (varint_field 1 (jb_tick m) @ concat (map entity_field (jb_entities m))) @ varint_field 3 (jb_digest m)"
    by (simp add: encode_join_baseline_def Let_def put_varint_append[of 3 _ "_ @ _"] fold_put_entity)
  have "reads join_baseline_field \<lparr>jb_tick = 0, jb_entities = [], jb_digest = 0\<rparr> (encode_join_baseline m) m"
    unfolding enc
    by (rule reads_append[OF reads_append[OF
          reads_varint[where upd = "\<lambda>v. jb_tick_update (\<lambda>_. v)"]
          reads_entities[where add = "\<lambda>e. jb_entities_update (\<lambda>es. es @ [e])"]]
          reads_varint[where upd = "\<lambda>v. jb_digest_update (\<lambda>_. v)", THEN reads_to]])
      (simp_all add: fields join_baseline_field_def fold_add_entities)
  from reads_all[OF this assms] show ?thesis by (simp add: decode_join_baseline_def)
qed

lemma snapshot_roundtrip:
  assumes "packet_fits (encode_snapshot_proto m)"
  shows "decode_snapshot_proto (encode_snapshot_proto m) = Some (Value m)"
proof (cases m)
  case (fields t es d fl)
  have enc: "encode_snapshot_proto m = ((varint_field 1 (sp_tick m) @ concat (map entity_field (sp_entities m))) @
      varint_field 3 (sp_digest m)) @ varint_field 4 (sp_target_tick_floor m)"
    by (simp add: encode_snapshot_proto_def Let_def put_varint_append[of 4 _ "put_varint _ _ _"]
        put_varint_append[of 3 _ "_ @ _"] fold_put_entity)
  have "reads snapshot_field \<lparr>sp_tick = 0, sp_entities = [], sp_digest = 0, sp_target_tick_floor = 0\<rparr>
      (encode_snapshot_proto m) m"
    unfolding enc
    by (rule reads_append[OF reads_append[OF reads_append[OF
          reads_varint[where upd = "\<lambda>v. sp_tick_update (\<lambda>_. v)"]
          reads_entities[where add = "\<lambda>e. sp_entities_update (\<lambda>es. es @ [e])"]]
          reads_varint[where upd = "\<lambda>v. sp_digest_update (\<lambda>_. v)"]]
          reads_varint[where upd = "\<lambda>v. sp_target_tick_floor_update (\<lambda>_. v)", THEN reads_to]])
      (simp_all add: fields snapshot_field_def fold_add_entities)
  from reads_all[OF this assms] show ?thesis by (simp add: decode_snapshot_proto_def)
qed

section \<open>The contract of a codec\<close>

locale packet_codec =
  fixes enc :: "'m \<Rightarrow> bytes"
    and dec :: "bytes \<Rightarrow> 'm gd option"
  assumes lossless: "packet_fits (enc m) \<Longrightarrow> dec (enc m) = Some (Value m)"
begin

lemma unambiguous: "packet_fits (enc m) \<Longrightarrow> enc m = enc m' \<Longrightarrow> m = m'"
  by (metis gd.inject(1) lossless option.inject)

text \<open>A packet on which the decoder faults or does not return is no message's encoding.\<close>

lemma not_encoded: "packet_fits bs \<Longrightarrow> \<nexists>m. dec bs = Some (Value m) \<Longrightarrow> enc m \<noteq> bs"
  using lossless by blast

end

interpretation gd_welcome: packet_codec encode_server_welcome decode_server_welcome
  by unfold_locales (rule server_welcome_roundtrip)

interpretation gd_entity: packet_codec encode_entity_snapshot_proto decode_entity_snapshot_proto
  by unfold_locales (rule entity_roundtrip)

interpretation gd_baseline: packet_codec encode_join_baseline decode_join_baseline
  by unfold_locales (rule join_baseline_roundtrip)

interpretation gd_input: packet_codec encode_input_cmd_proto decode_input_cmd_proto
  by unfold_locales (rule input_cmd_roundtrip)

interpretation gd_snapshot: packet_codec encode_snapshot_proto decode_snapshot_proto
  by unfold_locales (rule snapshot_roundtrip)

section \<open>How long packets are\<close>

text \<open>Generous bounds: a varint takes at most ten bytes, a field of one twenty.\<close>

lemma length_varint: "unat v < 2 ^ (7 * Suc k) \<Longrightarrow> length (varint v) \<le> Suc k"
proof (induction k arbitrary: v)
  case 0
  then have "drop_bit 7 v = 0" by (simp add: drop_bit_eq_div word_unat_eq_iff unat_div)
  then show ?case by (simp add: varint_last)
next
  case (Suc k)
  have "(2 :: nat) ^ (7 * Suc (Suc k)) = 2 ^ 7 * 2 ^ (7 * Suc k)" by (simp add: power_add)
  then have "unat (drop_bit 7 v) < 2 ^ (7 * Suc k)"
    using Suc.prems by (simp add: drop_bit_eq_div unat_div less_mult_imp_div_less mult.commute)
  from Suc.IH[OF this] show ?case by (cases "drop_bit 7 v = 0") (simp_all add: varint_last varint_more)
qed

lemma length_varint_max: "length (varint v) \<le> 10"
  using length_varint[of v 9] unsigned_less[where w = v and 'a = nat] by simp

lemma length_fields:
  "length (varint_field f v) \<le> 20" "length (doubles_field f vs) \<le> 20 + 8 * length vs"
  using length_varint_max[of v] length_varint_max[of "push_bit 3 f"] length_varint_max[of "push_bit 3 f OR 2"]
    length_varint_max[of "of_nat (length vs * 8)"]
  by (simp_all add: varint_field doubles_field)

lemma length_entity_field:
  "length (ep_position e) = 2 \<Longrightarrow> length (ep_velocity e) = 2 \<Longrightarrow> length (entity_field e) \<le> 112"
  using length_fields(1)[of 1 "ep_entity_id e"] length_fields(2)[of 2 "ep_position e"]
    length_fields(2)[of 3 "ep_velocity e"] length_varint_max[of "push_bit 3 2 OR 2"]
    length_varint_max[of "of_nat (length (encode_entity_snapshot_proto e))"]
  unfolding entity_field
  by (simp add: encode_entity_snapshot_proto_def Let_def write_packed_doubles_append[of 3 _ "write_packed_doubles _ _ _"]
      write_packed_doubles_append[of 2 _ "put_varint _ _ _"])

lemma length_entity_fields:
  "\<forall>e \<in> set es. length (ep_position e) = 2 \<and> length (ep_velocity e) = 2 \<Longrightarrow>
     length (concat (map entity_field es)) \<le> 112 * length es"
proof (induction es)
  case (Cons e es)
  then show ?case using length_entity_field[of e] by simp
qed simp

lemma server_welcome_fits: "packet_fits (encode_server_welcome m)"
  using length_fields(1)[of 1 "gsw_target_tick_floor m"] length_fields(1)[of 2 "gsw_tick_rate_hz m"]
    length_fields(1)[of 3 "gsw_player_id m"] length_fields(1)[of 4 "gsw_controlled_entity_id m"]
  by (simp add: packet_fits_def encode_server_welcome_def Let_def put_varint_append[of 4 _ "put_varint _ _ _"]
      put_varint_append[of 3 _ "put_varint _ _ _"] put_varint_append[of 2 _ "put_varint _ _ _"])

lemma join_baseline_fits:
  assumes "length (jb_entities m) \<le> 0xFFFF"
    and "\<forall>e \<in> set (jb_entities m). length (ep_position e) = 2 \<and> length (ep_velocity e) = 2"
  shows "packet_fits (encode_join_baseline m)"
  using length_entity_fields[OF assms(2)] assms(1) length_fields(1)[of 1 "jb_tick m"] length_fields(1)[of 3 "jb_digest m"]
  by (simp add: packet_fits_def encode_join_baseline_def Let_def put_varint_append[of 3 _ "_ @ _"] fold_put_entity)

section \<open>Evaluation\<close>

lemma varint_eval:
  "v < 128 \<Longrightarrow> write_varint v w = w @ [ucast v]"
  "128 \<le> v \<Longrightarrow> write_varint v w = write_varint (v div 128) (w @ [ucast (v AND 0x7F OR 0x80)])"
proof -
  assume "v < 128"
  then have "drop_bit 7 v = 0" by (simp add: drop_bit_eq_div div_word_less)
  moreover from this have "v AND 0x7F = v" using split_seven[of 0 v] by simp
  ultimately show "write_varint v w = w @ [ucast v]" by (simp add: write_varint_append[of v w] varint_last)
next
  assume "128 \<le> v"
  then have "drop_bit 7 v \<noteq> 0" by (auto simp: drop_bit_eq_div word_unat_eq_iff unat_div word_le_nat_alt div_eq_0_iff)
  then show "write_varint v w = write_varint (v div 128) (w @ [ucast (v AND 0x7F OR 0x80)])"
    by (simp add: write_varint.simps[of v w] unsigned_shr_eq drop_bit_eq_div Let_def)
qed

lemmas encode_eval =
  encode_client_hello_def encode_server_welcome_def encode_entity_snapshot_proto_def
  encode_join_baseline_def encode_input_cmd_proto_def encode_snapshot_proto_def put_entity_def
  put_varint_def write_tag_def write_bytes_def write_packed_doubles_def write_double_def wire_types
  to_le_bytes_def upt_rec drop_bit_eq_div Let_def varint_eval

section \<open>Packets that never end\<close>

text \<open>A reader that is back where it was, with the message as it was, goes on forever.\<close>

lemma loops_forever:
  assumes "has_more r" and "read_tag r = Value ((f, t), r1)" and "F f t m r1 = Some (Value (m, r))"
  shows "decode_loop F m r = None"
proof -
  have "\<not> (F' = F \<and> m' = m \<and> r' = r)" if "decode_loop F' m' r' = Some y" for F' m' r' y
    by (rule decode_loop.raw_induct[where P = "\<lambda>F' m' r' y. \<not> (F' = F \<and> m' = m \<and> r' = r)", OF _ that])
       (use assms in \<open>auto; blast\<close>)
  then show ?thesis by (cases "decode_loop F m r") auto
qed

text \<open>A field that no message has, of a length that reads as minus the eleven bytes it takes to say so.\<close>

definition endless :: bytes where
  "endless = tag_bytes 5 2 @ varint (- 11)"

lemma endless_loop:
  assumes "packet_fits (endless @ rest)" and "F 5 2 = skip_unknown 2"
  shows "decode_loop F m (reader_new (endless @ rest)) = None"
proof (rule loops_forever)
  have tag: "varint 42 = [42]" by (simp add: varint_last drop_bit_eq_div)
  have v: "length (varint (- 11 :: u64)) = 10"
    by (simp add: varint_more varint_last drop_bit_eq_div)
  show "has_more (reader_new (endless @ rest))" by (simp add: has_more_def reader_new_def endless_def tag)
  show "read_tag (reader_new (endless @ rest)) = Value ((5, 2), rdr (tag_bytes 5 2) (varint (- 11) @ rest))"
    using read_varint_at[of "[]" "push_bit 3 5 OR 2" "varint (- 11) @ rest"] assms(1)
    by (simp add: read_tag_def reader_new_def endless_def)
  show "F 5 2 m (rdr (tag_bytes 5 2) (varint (- 11) @ rest)) = Some (Value (m, reader_new (endless @ rest)))"
    using read_varint_at[of "tag_bytes 5 2" "- 11" rest] assms v tag
    by (simp add: skip_unknown_def skip_field_def wire_types endless_def reader_new_def gd_add_def)
qed

section \<open>Properties\<close>

text \<open>
  C38. The client's codec is lossless: every message that it can encode in a packet is decoded to
  the same message, integers with bit 63 set, empty and zero vectors and any number of entities
  included; in particular the arithmetic shift of GDScript never loses a varint.
\<close>

theorem wire_codec_roundtrip:
  shows "decode_server_welcome (encode_server_welcome w) = Some (Value w) \<and>
    (packet_fits (encode_entity_snapshot_proto e) \<longrightarrow>
       decode_entity_snapshot_proto (encode_entity_snapshot_proto e) = Some (Value e)) \<and>
    (packet_fits (encode_join_baseline b) \<longrightarrow> decode_join_baseline (encode_join_baseline b) = Some (Value b)) \<and>
    (packet_fits (encode_input_cmd_proto i) \<longrightarrow> decode_input_cmd_proto (encode_input_cmd_proto i) = Some (Value i)) \<and>
    (packet_fits (encode_snapshot_proto s) \<longrightarrow> decode_snapshot_proto (encode_snapshot_proto s) = Some (Value s))"
  by (simp add: server_welcome_roundtrip[OF server_welcome_fits] entity_roundtrip join_baseline_roundtrip input_cmd_roundtrip
      snapshot_roundtrip)

theorem wire_codec_roundtrip_witness:
  "\<exists>s. sp_digest s = 0x8000000000000001 \<and> decode_snapshot_proto (encode_snapshot_proto s) = Some (Value s)"
proof -
  let ?s = "\<lparr>sp_tick = 1, sp_entities = [], sp_digest = 0x8000000000000001, sp_target_tick_floor = 2\<rparr>"
  have "packet_fits (encode_snapshot_proto ?s)"
    by (simp add: packet_fits_def encode_snapshot_proto_def put_varint_def write_tag_def wire_types
        write_varint.simps unsigned_shr_eq drop_bit_eq_div Let_def)
  then have "decode_snapshot_proto (encode_snapshot_proto ?s) = Some (Value ?s)"
    using wire_codec_roundtrip[of _ _ _ _ ?s] by blast
  then show ?thesis by (intro exI[of _ ?s]) simp
qed

text \<open>
  C39. A packet can hang the client: whatever follows them, eleven bytes that announce an unknown field
  of negative length send the reader back to where it started, and no decoder that the
  network reaches ever returns; no message is encoded that way, so only a peer that does not speak the
  protocol sends one.
\<close>

theorem endless_packet_hangs_decoders:
  assumes "packet_fits (endless @ rest)"
  shows "length endless = 11 \<and> decode_server_welcome (endless @ rest) = None \<and>
    decode_join_baseline (endless @ rest) = None \<and> decode_snapshot_proto (endless @ rest) = None \<and>
    encode_server_welcome w \<noteq> endless @ rest \<and> encode_join_baseline b \<noteq> endless @ rest \<and>
    encode_snapshot_proto s \<noteq> endless @ rest"
proof -
  have "server_welcome_field 5 2 = skip_unknown 2" "join_baseline_field 5 2 = skip_unknown 2"
    "snapshot_field 5 2 = skip_unknown 2"
    by (simp_all add: server_welcome_field_def join_baseline_field_def snapshot_field_def)
  moreover have "length endless = 11" by (simp add: endless_def varint_more varint_last drop_bit_eq_div)
  moreover from calculation have "decode_server_welcome (endless @ rest) = None"
    "decode_join_baseline (endless @ rest) = None" "decode_snapshot_proto (endless @ rest) = None"
    by (simp_all add: decode_server_welcome_def decode_join_baseline_def decode_snapshot_proto_def
        endless_loop[OF assms])
  ultimately show ?thesis
    using gd_welcome.not_encoded[OF assms, of w] gd_baseline.not_encoded[OF assms, of b]
      gd_snapshot.not_encoded[OF assms, of s] by simp
qed

theorem endless_packet_hangs_decoders_witness:
  "decode_snapshot_proto endless = None \<and> endless = [0x2A, 0xF5, 0xFF, 0xFF, 0xFF, 0xFF, 0xFF, 0xFF, 0xFF, 0xFF, 1]"
proof -
  have bytes: "endless = [0x2A, 0xF5, 0xFF, 0xFF, 0xFF, 0xFF, 0xFF, 0xFF, 0xFF, 0xFF, 1]"
    by (simp add: endless_def varint_more varint_last drop_bit_eq_div)
  have "packet_fits (endless @ [])" unfolding bytes by (simp add: packet_fits_def)
  from endless_packet_hangs_decoders[OF this] bytes show ?thesis by simp
qed

end
