(* ===== verification/GodotClient.thy ===== *)
theory GodotClient
  imports GodotCodec Transport
begin

text \<open>
  The network side of the Godot client: \<^verbatim>\<open>client/net/network_client.gd\<close> with its \<^verbatim>\<open>TickFloor\<close> and
  \<^verbatim>\<open>InputSeqGen\<close>, and the \<^verbatim>\<open>MatchState\<close> that the scene feeds from its signals. References that may be
  null are options or flags, and using a null one is a fault; what the engine does after a fault is
  not modelled. What one frame's \<^verbatim>\<open>service(0)\<close> calls return before \<^verbatim>\<open>EVENT_NONE\<close> is a list. Packets
  sent and signals emitted are appended to a log.
\<close>

section \<open>TickFloor and InputSeqGen\<close>

text \<open>The integers are signed, and so is their \<^verbatim>\<open>max\<close>.\<close>

definition gd_max :: "u64 \<Rightarrow> u64 \<Rightarrow> u64" where
  "gd_max a b = (if a <s b then b else a)"

record GdTickFloor =
  gtf_floor :: u64

definition gd_tick_floor_new :: "u64 \<Rightarrow> GdTickFloor" where
  "gd_tick_floor_new initial = \<lparr>gtf_floor = initial\<rparr>"

definition gd_observe :: "u64 \<Rightarrow> GdTickFloor \<Rightarrow> GdTickFloor" where
  "gd_observe received t = t\<lparr>gtf_floor := gd_max (gtf_floor t) received\<rparr>"

record GdInputSeqGen =
  gis_seq :: u64

definition gd_input_seq_new :: GdInputSeqGen where
  "gd_input_seq_new = \<lparr>gis_seq = 0\<rparr>"

definition gd_advance :: "GdInputSeqGen \<Rightarrow> GdInputSeqGen \<times> u64" where
  "gd_advance g = (let g = g\<lparr>gis_seq := gis_seq g + 1\<rparr> in (g, gis_seq g))"

section \<open>NetworkClient\<close>

datatype connection_state = DISCONNECTED | CONNECTING | AWAITING_BASELINE | READY

datatype client_output =
    PeerSend u8 bytes bool
  | PeerDisconnect
  | WelcomeReceived GdServerWelcome
  | BaselineReceived JoinBaseline
  | SnapshotReceived SnapshotProto
  | InputSent InputCmdProto
  | Disconnected

text \<open>The third argument of \<open>PeerSend\<close> is \<^verbatim>\<open>FLAG_RELIABLE\<close>.\<close>

record NetworkClient =
  nc_connection :: bool
  nc_peer :: bool
  nc_state :: connection_state
  nc_hello_sent :: bool
  nc_tick_floor :: "GdTickFloor option"
  nc_input_seq :: GdInputSeqGen
  nc_welcome :: "GdServerWelcome option"
  nc_log :: "client_output list"

definition network_client_new :: NetworkClient where
  "network_client_new =
     \<lparr>nc_connection = False, nc_peer = False, nc_state = DISCONNECTED, nc_hello_sent = False,
      nc_tick_floor = None, nc_input_seq = gd_input_seq_new, nc_welcome = None, nc_log = []\<rparr>"

definition emit :: "client_output \<Rightarrow> NetworkClient \<Rightarrow> NetworkClient" where
  "emit out c = c\<lparr>nc_log := nc_log c @ [out]\<rparr>"

definition peer_send :: "u8 \<Rightarrow> bytes \<Rightarrow> bool \<Rightarrow> NetworkClient \<Rightarrow> NetworkClient gd" where
  "peer_send channel packet reliable c =
     (if nc_peer c then Value (emit (PeerSend channel packet reliable) c) else Fault NullInstance)"

text \<open>Whether ENet creates a host, and whether it then allocates a peer, are parameters.\<close>

definition connect_to_server :: "bool \<Rightarrow> bool \<Rightarrow> NetworkClient \<Rightarrow> NetworkClient" where
  "connect_to_server host_ok peer_ok c =
     (let c = c\<lparr>nc_connection := True\<rparr>
      in if \<not> host_ok then c
         else let c = c\<lparr>nc_peer := peer_ok\<rparr>
              in if \<not> peer_ok then c else c\<lparr>nc_state := CONNECTING, nc_hello_sent := False\<rparr>)"

definition gd_is_ready :: "NetworkClient \<Rightarrow> bool" where
  "gd_is_ready c \<longleftrightarrow> nc_state c = READY"

definition gd_tick_floor :: "NetworkClient \<Rightarrow> u64" where
  "gd_tick_floor c = (case nc_tick_floor c of None \<Rightarrow> 0 | Some t \<Rightarrow> gtf_floor t)"

definition disconnect_clean :: "NetworkClient \<Rightarrow> NetworkClient" where
  "disconnect_clean c = (if nc_peer c then emit PeerDisconnect c else c)"

definition gd_send_input :: "f64 list \<Rightarrow> u64 \<Rightarrow> NetworkClient \<Rightarrow> NetworkClient gd" where
  "gd_send_input move_dir desired_tick c =
     (if nc_state c \<noteq> READY then Value c
      else case nc_tick_floor c of
        None \<Rightarrow> Fault NullInstance
      | Some t \<Rightarrow>
          let (gen, input_seq) = gd_advance (nc_input_seq c);
              cmd = \<lparr>ic_tick = gd_max (gtf_floor t) desired_tick, ic_input_seq = input_seq, ic_move_dir = move_dir\<rparr>
          in gmap (emit (InputSent cmd))
               (peer_send CHANNEL_REALTIME (encode_input_cmd_proto cmd) False (c\<lparr>nc_input_seq := gen\<rparr>)))"

section \<open>One frame\<close>

text \<open>A step that may fault or not return, followed by another.\<close>

definition dbind :: "'a gd option \<Rightarrow> ('a \<Rightarrow> 'b gd option) \<Rightarrow> 'b gd option" where
  "dbind m f = (case m of None \<Rightarrow> None | Some (Fault e) \<Rightarrow> Some (Fault e) | Some (Value x) \<Rightarrow> f x)"

lemma dbind_simps [simp]:
  "dbind None f = None" "dbind (Some (Fault e)) f = Some (Fault e)" "dbind (Some (Value x)) f = f x"
  by (simp_all add: dbind_def)

lemma dbind_Value_iff: "dbind m f = Some (Value y) \<longleftrightarrow> (\<exists>x. m = Some (Value x) \<and> f x = Some (Value y))"
  by (cases m; cases "the m") simp_all

lemma dbind_Fault_iff:
  "dbind m f = Some (Fault e) \<longleftrightarrow> m = Some (Fault e) \<or> (\<exists>x. m = Some (Value x) \<and> f x = Some (Fault e))"
  by (cases m; cases "the m") simp_all

datatype gd_event =
    EVENT_CONNECT
  | EVENT_RECEIVE u8 bytes
  | EVENT_DISCONNECT
  | EVENT_ERROR

definition handle_control_packet :: "bytes \<Rightarrow> NetworkClient \<Rightarrow> NetworkClient gd option" where
  "handle_control_packet packet c =
     (if nc_state c = CONNECTING then
        dbind (decode_server_welcome packet) (\<lambda>welcome.
          Some (Value (emit (WelcomeReceived welcome)
            (c\<lparr>nc_welcome := Some welcome,
               nc_tick_floor := Some (gd_tick_floor_new (gsw_target_tick_floor welcome)),
               nc_state := AWAITING_BASELINE\<rparr>))))
      else if nc_state c = AWAITING_BASELINE then
        dbind (decode_join_baseline packet) (\<lambda>msg.
          Some (Value (emit (BaselineReceived msg) (c\<lparr>nc_state := READY\<rparr>))))
      else Some (Value c))"

text \<open>The latest snapshot of the frame is carried with the client.\<close>

definition keep_latest :: "SnapshotProto option \<Rightarrow> SnapshotProto \<Rightarrow> SnapshotProto option" where
  "keep_latest latest snapshot =
     (case latest of
        None \<Rightarrow> Some snapshot
      | Some l \<Rightarrow> Some (if sp_tick l <s sp_tick snapshot then snapshot else l))"

fun handle_event ::
  "gd_event \<Rightarrow> SnapshotProto option \<times> NetworkClient \<Rightarrow> (SnapshotProto option \<times> NetworkClient) gd option" where
  "handle_event EVENT_CONNECT (latest, c) =
     (if nc_hello_sent c then Some (Value (latest, c))
      else Some (gmap (\<lambda>c. (latest, c\<lparr>nc_hello_sent := True\<rparr>))
             (peer_send CHANNEL_CONTROL (encode_client_hello ClientHello) True c)))"
| "handle_event (EVENT_RECEIVE channel packet) (latest, c) =
     (if channel = CHANNEL_CONTROL then
        dbind (handle_control_packet packet c) (\<lambda>c. Some (Value (latest, c)))
      else if channel = CHANNEL_REALTIME \<and> nc_state c = READY then
        dbind (decode_snapshot_proto packet) (\<lambda>snapshot. Some (Value (keep_latest latest snapshot, c)))
      else Some (Value (latest, c)))"
| "handle_event EVENT_DISCONNECT (latest, c) =
     Some (Value (latest, emit Disconnected (c\<lparr>nc_state := DISCONNECTED\<rparr>)))"
| "handle_event EVENT_ERROR (latest, c) = Some (Value (latest, c))"

fun service_events ::
  "gd_event list \<Rightarrow> SnapshotProto option \<times> NetworkClient \<Rightarrow> (SnapshotProto option \<times> NetworkClient) gd option" where
  "service_events [] s = Some (Value s)"
| "service_events (ev # events) s = dbind (handle_event ev s) (service_events events)"

definition process :: "gd_event list \<Rightarrow> NetworkClient \<Rightarrow> NetworkClient gd option" where
  "process events c =
     (if \<not> nc_connection c \<or> nc_state c = DISCONNECTED then Some (Value c)
      else dbind (service_events events (None, c)) (\<lambda>(latest, c).
        case latest of
          None \<Rightarrow> Some (Value c)
        | Some snapshot \<Rightarrow>
            (case nc_tick_floor c of
               None \<Rightarrow> Some (Fault NullInstance)
             | Some t \<Rightarrow>
                 Some (Value (emit (SnapshotReceived snapshot)
                   (c\<lparr>nc_tick_floor := Some (gd_observe (sp_target_tick_floor snapshot) t)\<rparr>))))))"

section \<open>MatchState\<close>

record GdMatchState =
  gms_controlled_entity_id :: u64
  gms_latest_tick :: u64
  gms_entities :: "u64 \<rightharpoonup> EntitySnapshotProto"

definition match_state_new :: GdMatchState where
  "match_state_new = \<lparr>gms_controlled_entity_id = - 1, gms_latest_tick = - 1, gms_entities = Map.empty\<rparr>"

definition entities_of :: "EntitySnapshotProto list \<Rightarrow> u64 \<rightharpoonup> EntitySnapshotProto" where
  "entities_of es = fold (\<lambda>e m. m(ep_entity_id e \<mapsto> e)) es Map.empty"

text \<open>With distinct ids the dictionary holds exactly the entities of the message.\<close>

lemma entities_of_map: "entities_of es = map_of (rev (map (\<lambda>e. (ep_entity_id e, e)) es))"
proof -
  have "fold (\<lambda>e m. m(ep_entity_id e \<mapsto> e)) es m = m ++ map_of (rev (map (\<lambda>e. (ep_entity_id e, e)) es))" for m
    by (induction es arbitrary: m) simp_all
  then show ?thesis by (simp add: entities_of_def)
qed

lemma entities_of_iff:
  "distinct (map ep_entity_id es) \<Longrightarrow> entities_of es k = Some e \<longleftrightarrow> e \<in> set es \<and> ep_entity_id e = k"
  by (auto simp: entities_of_map distinct_map comp_def inj_on_def map_of_eq_Some_iff rev_map[symmetric])

definition apply_baseline :: "JoinBaseline \<Rightarrow> GdMatchState \<Rightarrow> GdMatchState" where
  "apply_baseline msg s =
     s\<lparr>gms_latest_tick := jb_tick msg, gms_entities := entities_of (jb_entities msg)\<rparr>"

definition apply_snapshot :: "SnapshotProto \<Rightarrow> GdMatchState \<Rightarrow> GdMatchState \<times> bool" where
  "apply_snapshot snapshot s =
     (if sp_tick snapshot \<le>s gms_latest_tick s then (s, False)
      else (s\<lparr>gms_latest_tick := sp_tick snapshot, gms_entities := entities_of (sp_entities snapshot)\<rparr>, True))"

text \<open>What \<^verbatim>\<open>match_scene.gd\<close> makes of the two signals it connects, up to the views that it updates.\<close>

definition on_baseline_received :: "NetworkClient \<Rightarrow> JoinBaseline \<Rightarrow> GdMatchState \<Rightarrow> GdMatchState gd" where
  "on_baseline_received c msg s =
     (case nc_welcome c of
        None \<Rightarrow> Fault NullInstance
      | Some welcome \<Rightarrow>
          Value (apply_baseline msg (s\<lparr>gms_controlled_entity_id := gsw_controlled_entity_id welcome\<rparr>)))"

definition on_snapshot_received :: "SnapshotProto \<Rightarrow> GdMatchState \<Rightarrow> GdMatchState" where
  "on_snapshot_received snapshot s = fst (apply_snapshot snapshot s)"

text \<open>The scene sends what the keys say, every frame, for the tick at the client's floor.\<close>

definition on_move_dir_changed :: "vec2 \<Rightarrow> NetworkClient \<Rightarrow> NetworkClient gd" where
  "on_move_dir_changed move_dir c =
     (if \<not> gd_is_ready c then Value c
      else gd_send_input [fst move_dir, snd move_dir] (gd_tick_floor c) c)"

end
