(* ===== verification/GodotClientSpec.thy ===== *)
theory GodotClientSpec
  imports GodotClient ClientSpec
begin

text \<open>
  The Godot client uses no null reference as long as it only connects while disconnected, and in a
  match it behaves as the Rust test client, which its comments say it mirrors: the same snapshot of a
  burst, the same floor, the same inputs.
\<close>

section \<open>What a decoder can fault with\<close>

lemma index_not_null: "gd_index bs i \<noteq> Fault NullInstance"
  by (simp add: gd_index_def Let_def)

lemma varint_not_null: "read_varint_from acc n r \<noteq> Fault NullInstance"
proof (induction acc n r rule: read_varint_from.induct)
  case (1 acc n r)
  then show ?case
    using index_not_null[of "rd_bytes r" "rd_pos r"]
    by (cases "gd_index (rd_bytes r) (rd_pos r)") (simp_all add: read_varint_from.simps[of acc n r] Let_def)
qed

lemma gmap_null [simp]: "gmap f x = Fault e \<longleftrightarrow> x = Fault e"
  by (cases x) simp_all

lemma readers_not_null [simp]:
  "read_varint r \<noteq> Fault NullInstance" "read_tag r \<noteq> Fault NullInstance"
  "skip_field wire_type r \<noteq> Fault NullInstance" "read_packed_doubles r \<noteq> Fault NullInstance"
  by (simp_all add: read_varint_def read_tag_def skip_field_def read_packed_doubles_def varint_not_null)

definition null_free :: "(u64 \<Rightarrow> u64 \<Rightarrow> 'm \<Rightarrow> reader \<Rightarrow> ('m \<times> reader) gd option) \<Rightarrow> bool" where
  "null_free F \<longleftrightarrow> (\<forall>f t m r. F f t m r \<noteq> Some (Fault NullInstance))"

lemma decode_loop_not_null:
  assumes "null_free F"
  shows "decode_loop F m r \<noteq> Some (Fault NullInstance)"
proof -
  have "null_free F \<longrightarrow> y \<noteq> Fault NullInstance"
    if "decode_loop F m r = Some y" for F :: "u64 \<Rightarrow> u64 \<Rightarrow> 'm \<Rightarrow> _" and m r y
  proof (rule decode_loop.raw_induct[where P = "\<lambda>F m r y. null_free F \<longrightarrow> y \<noteq> Fault NullInstance", OF _ that])
    fix loop and F :: "u64 \<Rightarrow> u64 \<Rightarrow> 'm \<Rightarrow> _" and m r y
    assume IH: "\<And>F m r y. loop F m r = Some y \<Longrightarrow> null_free F \<longrightarrow> y \<noteq> Fault NullInstance"
      and eq: "(if has_more r then case read_tag r of
          Value ((field_number, wire_type), r) \<Rightarrow>
            Option.bind (F field_number wire_type m r)
              (\<lambda>res. case res of Value (msg, r) \<Rightarrow> loop F msg r | Fault e \<Rightarrow> Some (Fault e))
        | Fault e \<Rightarrow> Some (Fault e) else Some (Value m)) = Some y"
    show "null_free F \<longrightarrow> y \<noteq> Fault NullInstance"
    proof (cases "has_more r")
      case True
      note eq = eq[unfolded if_P[OF True]]
      show ?thesis
      proof (cases "read_tag r")
        case (Fault e)
        with eq readers_not_null(2)[of r] show ?thesis by auto
      next
        case (Value v)
        obtain f t r' where v: "v = ((f, t), r')" by (metis prod.exhaust)
        from eq obtain res where res: "F f t m r' = Some res"
          "(case res of Value (msg, r) \<Rightarrow> loop F msg r | Fault e \<Rightarrow> Some (Fault e)) = Some y"
          by (auto simp: Value v bind_eq_Some_conv)
        show ?thesis
        proof (cases res)
          case (Value w)
          with res(2) IH[of F "fst w" "snd w" y] show ?thesis by (simp add: case_prod_unfold)
        next
          case (Fault e)
          with res show ?thesis by (auto simp: null_free_def)
        qed
      qed
    qed (use eq in auto)
  qed
  from this[of F m r] assms show ?thesis by (cases "decode_loop F m r") simp_all
qed

lemma set_not_null [simp]:
  "set_varint upd m r \<noteq> Some (Fault NullInstance)" "set_doubles upd' m r \<noteq> Some (Fault NullInstance)"
  "skip_unknown wire_type m r \<noteq> Some (Fault NullInstance)"
  by (simp_all add: set_varint_def set_doubles_def skip_unknown_def)

lemma entity_not_null: "decode_entity_snapshot_proto bs \<noteq> Some (Fault NullInstance)"
  unfolding decode_entity_snapshot_proto_def
  by (rule decode_loop_not_null) (simp add: null_free_def entity_snapshot_field_def)

lemma add_entity_not_null [simp]: "add_entity add m r \<noteq> Some (Fault NullInstance)"
  using entity_not_null by (auto simp: add_entity_def split: gd.splits prod.splits; metis readers_not_null(1))

lemma decoders_not_null [simp]:
  "decode_server_welcome bs \<noteq> Some (Fault NullInstance)" "decode_join_baseline bs \<noteq> Some (Fault NullInstance)"
  "decode_snapshot_proto bs \<noteq> Some (Fault NullInstance)"
  unfolding decode_server_welcome_def decode_join_baseline_def decode_snapshot_proto_def
  by (rule decode_loop_not_null,
      simp add: null_free_def server_welcome_field_def join_baseline_field_def snapshot_field_def)+

section \<open>No null reference\<close>

text \<open>The calls of the scenes and tests: they connect while disconnected, and poll every frame.\<close>

inductive godot_reachable :: "NetworkClient \<Rightarrow> bool" where
  created: "godot_reachable network_client_new"
| connecting: "godot_reachable c \<Longrightarrow> nc_state c = DISCONNECTED \<Longrightarrow> godot_reachable (connect_to_server host_ok peer_ok c)"
| frame: "godot_reachable c \<Longrightarrow> process events c = Some (Value c') \<Longrightarrow> godot_reachable c'"
| sending: "godot_reachable c \<Longrightarrow> gd_send_input move_dir desired_tick c = Value c' \<Longrightarrow> godot_reachable c'"
| leaving: "godot_reachable c \<Longrightarrow> godot_reachable (disconnect_clean c)"

definition objects_present :: "NetworkClient \<Rightarrow> bool" where
  "objects_present c \<longleftrightarrow>
     (nc_state c \<noteq> DISCONNECTED \<longrightarrow> nc_connection c \<and> nc_peer c) \<and>
     (nc_state c = AWAITING_BASELINE \<or> nc_state c = READY \<longrightarrow> nc_tick_floor c \<noteq> None \<and> nc_welcome c \<noteq> None)"

text \<open>Within a frame: the peer it started with is there, and a snapshot was kept only with a floor.\<close>

definition frame_inv :: "SnapshotProto option \<times> NetworkClient \<Rightarrow> bool" where
  "frame_inv s \<longleftrightarrow> nc_connection (snd s) \<and> nc_peer (snd s) \<and> objects_present (snd s) \<and>
     (fst s \<noteq> None \<longrightarrow> nc_tick_floor (snd s) \<noteq> None)"

lemma emit_simps [simp]:
  "nc_connection (emit out c) = nc_connection c" "nc_peer (emit out c) = nc_peer c" "nc_state (emit out c) = nc_state c"
  "nc_tick_floor (emit out c) = nc_tick_floor c" "nc_welcome (emit out c) = nc_welcome c"
  "nc_input_seq (emit out c) = nc_input_seq c" "nc_log (emit out c) = nc_log c @ [out]"
  "nc_hello_sent (emit out c) = nc_hello_sent c" "objects_present (emit out c) = objects_present c"
  by (simp_all add: emit_def objects_present_def)

lemma handle_event_inv:
  assumes "frame_inv s"
  shows "handle_event ev s \<noteq> Some (Fault NullInstance) \<and>
    (handle_event ev s = Some (Value s') \<longrightarrow> frame_inv s')"
proof (cases s)
  case (Pair latest c)
  with assms have inv: "nc_connection c" "nc_peer c" "objects_present c" "latest \<noteq> None \<Longrightarrow> nc_tick_floor c \<noteq> None"
    by (simp_all add: frame_inv_def)
  show ?thesis
  proof (cases ev)
    case EVENT_CONNECT
    then show ?thesis using inv Pair by (auto simp: peer_send_def frame_inv_def objects_present_def)
  next
    case (EVENT_RECEIVE channel packet)
    then show ?thesis using inv
      by (auto simp: Pair handle_control_packet_def dbind_Fault_iff dbind_Value_iff frame_inv_def objects_present_def
          split: if_splits)
  qed (use inv Pair in \<open>auto simp: frame_inv_def objects_present_def\<close>)
qed

lemma service_events_inv:
  "frame_inv s \<Longrightarrow> service_events events s \<noteq> Some (Fault NullInstance) \<and>
     (\<forall>s'. service_events events s = Some (Value s') \<longrightarrow> frame_inv s')"
proof (induction events arbitrary: s)
  case (Cons ev events)
  then show ?case using handle_event_inv[OF Cons.prems, of ev]
    by (fastforce simp: dbind_Fault_iff dbind_Value_iff)
qed simp

lemma process_inv:
  assumes "objects_present c"
  shows "process events c \<noteq> Some (Fault NullInstance) \<and> (process events c = Some (Value c') \<longrightarrow> objects_present c')"
proof (cases "\<not> nc_connection c \<or> nc_state c = DISCONNECTED")
  case True
  then show ?thesis using assms by (auto simp: process_def)
next
  case False
  then have "frame_inv (None, c)" using assms by (auto simp: frame_inv_def objects_present_def)
  note inv = service_events_inv[OF this, of events]
  show ?thesis
  proof (cases "service_events events (None, c)")
    case (Some r)
    show ?thesis
    proof (cases r)
      case (Value s)
      obtain latest d where s: "s = (latest, d)" by (cases s)
      have d: "objects_present d" "latest \<noteq> None \<Longrightarrow> nc_tick_floor d \<noteq> None"
        using inv Some Value s by (auto simp: frame_inv_def)
      have "objects_present (d\<lparr>nc_tick_floor := Some t\<rparr>)" for t using d(1) by (simp add: objects_present_def)
      then show ?thesis using d False Some Value s by (cases latest) (auto simp: process_def)
    qed (use inv False Some in \<open>auto simp: process_def\<close>)
  qed (use False in \<open>auto simp: process_def\<close>)
qed

lemma sending_inv:
  assumes "objects_present c"
  obtains c' where "gd_send_input move_dir desired_tick c = Value c'" "objects_present c'"
  using assms
  by (cases "nc_state c = READY"; cases "nc_tick_floor c")
    (auto simp: gd_send_input_def gd_advance_def peer_send_def objects_present_def Let_def)

lemma reachable_objects: "godot_reachable c \<Longrightarrow> objects_present c"
proof (induction rule: godot_reachable.induct)
  case (frame c events c')
  then show ?case using process_inv by blast
next
  case (sending c move_dir desired_tick c')
  then show ?case by (metis gd.inject(1) sending_inv)
qed (auto simp: network_client_new_def objects_present_def connect_to_server_def disconnect_clean_def Let_def)

text \<open>A client whose welcome and baseline are empty packets: every field has its default.\<close>

lemma ready_client:
  obtains c where "godot_reachable c" "nc_state c = READY" "gd_tick_floor c = 0" "nc_input_seq c = gd_input_seq_new"
proof -
  define c where "c = connect_to_server True True network_client_new"
  have c: "nc_state c = CONNECTING" "nc_connection c" "nc_input_seq c = gd_input_seq_new"
    by (simp_all add: c_def connect_to_server_def network_client_new_def)
  have empty: "decode_loop F m (reader_new []) = Some (Value m)" for F :: "u64 \<Rightarrow> u64 \<Rightarrow> 'b \<Rightarrow> _" and m
    by (simp add: decode_loop.simps has_more_def reader_new_def)
  obtain c' where c': "process [EVENT_RECEIVE CHANNEL_CONTROL [], EVENT_RECEIVE CHANNEL_CONTROL []] c = Some (Value c')"
    "nc_state c' = READY" "gd_tick_floor c' = 0" "nc_input_seq c' = gd_input_seq_new"
    using c by (simp add: process_def handle_control_packet_def decode_server_welcome_def decode_join_baseline_def
        empty gd_tick_floor_def gd_tick_floor_new_def)
  have "godot_reachable c'"
    by (rule frame[OF _ c'(1)]) (simp add: c_def created connecting network_client_new_def[THEN arg_cong[of _ _ nc_state]])
  with c' show ?thesis by (intro that[of c']) simp_all
qed

section \<open>As the test client\<close>

lemma sint_small: "a < 0x8000000000000000 \<Longrightarrow> sint (a :: u64) = uint a"
  unfolding sint_uint
  by (intro signed_take_bit_int_eq_self order_trans[OF _ uint_ge_0[of a]]) (simp_all add: word_less_def)

lemma signed_less_small:
  "a < 0x8000000000000000 \<Longrightarrow> b < 0x8000000000000000 \<Longrightarrow> (a :: u64) <s b \<longleftrightarrow> a < b"
  by (simp add: word_sless_alt sint_small word_less_def)

lemma gd_max_small:
  "a < 0x8000000000000000 \<Longrightarrow> b < 0x8000000000000000 \<Longrightarrow> gd_max a b = max a b"
  by (auto simp: gd_max_def signed_less_small max_def)

text \<open>A snapshot that both clients read alike, with numbers that a signed integer holds.\<close>

definition plain_snapshot :: "SnapshotProto \<Rightarrow> bool" where
  "plain_snapshot s \<longleftrightarrow> sp_tick s < 0x8000000000000000 \<and> sp_target_tick_floor s < 0x8000000000000000 \<and>
     (\<exists>sn. Snapshot_try_from s = Inr sn)"

definition readable :: "client_net \<Rightarrow> bytes \<Rightarrow> bool" where
  "readable m packet \<longleftrightarrow> (\<exists>s. decode_snapshot_proto packet = Some (Value s) \<and> snapshot_decode m packet = Some s \<and>
     plain_snapshot s)"

definition as_candidate :: "SnapshotProto \<Rightarrow> Snapshot \<times> Tick" where
  "as_candidate s = (projr (Snapshot_try_from s), sp_target_tick_floor s)"

lemma candidate_tick: "plain_snapshot s \<Longrightarrow> sn_tick (fst (as_candidate s)) = sp_tick s"
  by (auto simp: plain_snapshot_def as_candidate_def Snapshot_try_from_def split: sum.splits)

lemma keep_latest_agrees:
  assumes "plain_snapshot s" and "\<forall>l. latest = Some l \<longrightarrow> plain_snapshot l"
  shows "map_option as_candidate (keep_latest latest s) = take_newer (map_option as_candidate latest) (Some (as_candidate s)) \<and>
    (\<forall>l. keep_latest latest s = Some l \<longrightarrow> plain_snapshot l)"
proof (cases latest)
  case (Some l)
  with assms have "sp_tick l < 0x8000000000000000" "sp_tick s < 0x8000000000000000" "plain_snapshot l"
    by (simp_all add: plain_snapshot_def)
  then show ?thesis using assms(1) Some
    by (simp add: keep_latest_def take_newer_Some candidate_tick signed_less_small)
qed (use assms in \<open>simp add: keep_latest_def take_newer_Some\<close>)

lemma realtime_candidate:
  assumes "snapshot_decode m packet = Some s" and "plain_snapshot s"
  shows "snapshot_of_event m (Receive k CHANNEL_REALTIME packet) = Some (as_candidate s)"
  using assms by (auto simp: plain_snapshot_def as_candidate_def)

lemma drains_agree:
  assumes "nc_state c = READY" and "\<forall>packet \<in> set packets. readable m packet"
    and "\<forall>l. latest = Some l \<longrightarrow> plain_snapshot l"
  shows "\<exists>latest'. service_events (map (EVENT_RECEIVE CHANNEL_REALTIME) packets) (latest, c) = Some (Value (latest', c)) \<and>
    poll_events m (map_option as_candidate latest) (map (\<lambda>d. Inr (Some (Receive k CHANNEL_REALTIME d))) packets) =
      (Inr (map_option as_candidate latest'), []) \<and> (\<forall>l. latest' = Some l \<longrightarrow> plain_snapshot l) \<and>
    (latest' = None \<longleftrightarrow> latest = None \<and> packets = [])"
  using assms(2,3)
proof (induction packets arbitrary: latest)
  case (Cons packet packets)
  from Cons.prems(1) obtain s where s: "decode_snapshot_proto packet = Some (Value s)"
    "snapshot_decode m packet = Some s" "plain_snapshot s"
    by (auto simp: readable_def)
  note keep = keep_latest_agrees[OF s(3) Cons.prems(2)]
  have "keep_latest latest s \<noteq> None" by (cases latest) (simp_all add: keep_latest_def)
  moreover
  have "handle_event (EVENT_RECEIVE CHANNEL_REALTIME packet) (latest, c) = Some (Value (keep_latest latest s, c))"
    using assms(1) by (simp add: s(1) CHANNEL_REALTIME_def CHANNEL_CONTROL_def)
  ultimately show ?case using Cons.IH[of "keep_latest latest s"] keep Cons.prems(1)
    by (auto simp: realtime_candidate[OF s(2,3)] simp del: handle_event.simps snapshot_of_event.simps)
qed simp

text \<open>One poll of both: the same snapshot, or none, and the same floor.\<close>

lemma polls_agree:
  assumes "objects_present c" and "nc_state c = READY" and "gd_tick_floor c < 0x8000000000000000"
    and "tc_tick_floor cl = TickFloor (gd_tick_floor c)"
    and "ch_events (tc_host cl) = map (\<lambda>d. Inr (Some (Receive k CHANNEL_REALTIME d))) packets"
    and "\<forall>packet \<in> set packets. readable m packet"
  obtains c' cl' res where "process (map (EVENT_RECEIVE CHANNEL_REALTIME) packets) c = Some (Value c')"
    "client_poll_snapshot m cl = (cl', Inr res)" "gd_tick_floor c' = client_tick_floor cl'"
    "gd_tick_floor c' < 0x8000000000000000"
    "nc_state c' = READY" "nc_peer c'" "nc_tick_floor c' \<noteq> None" "nc_input_seq c' = nc_input_seq c"
    "ch_sends (tc_host cl') = ch_sends (tc_host cl)" "tc_input_seq cl' = tc_input_seq cl"
    "case res of None \<Rightarrow> packets = [] \<and> nc_log c' = nc_log c
     | Some sn \<Rightarrow> \<exists>s. nc_log c' = nc_log c @ [SnapshotReceived s] \<and> Snapshot_try_from s = Inr sn"
proof -
  obtain t where t: "nc_tick_floor c = Some t" "nc_connection c" "nc_peer c"
    using assms(1,2) by (auto simp: objects_present_def)
  have flr: "gtf_floor t < 0x8000000000000000" "tc_tick_floor cl = TickFloor (gtf_floor t)"
    using assms(3,4) t(1) by (simp_all add: gd_tick_floor_def)
  from drains_agree[OF assms(2,6), of None k] obtain latest where
    frame: "service_events (map (EVENT_RECEIVE CHANNEL_REALTIME) packets) (None, c) = Some (Value (latest, c))"
    and poll: "poll_events m None (ch_events (tc_host cl)) = (Inr (map_option as_candidate latest), [])"
    and plain: "\<And>l. latest = Some l \<Longrightarrow> plain_snapshot l" and none: "latest = None \<longleftrightarrow> packets = []"
    unfolding assms(5) by auto
  show ?thesis
  proof (cases latest)
    case None
    then show ?thesis using that frame poll t flr assms(2,3) none
      by (simp add: process_def client_poll_snapshot_def gd_tick_floor_def client_tick_floor_def)
  next
    case (Some s)
    with plain obtain sn where sn: "Snapshot_try_from s = Inr sn" "sp_target_tick_floor s < 0x8000000000000000"
      by (auto simp: plain_snapshot_def)
    let ?c' = "emit (SnapshotReceived s) (c\<lparr>nc_tick_floor := Some (gd_observe (sp_target_tick_floor s) t)\<rparr>)"
    have "process (map (EVENT_RECEIVE CHANNEL_REALTIME) packets) c = Some (Value ?c')"
      using frame t assms(2) Some by (simp add: process_def)
    moreover have "gd_tick_floor ?c' = max (gtf_floor t) (sp_target_tick_floor s)"
      using flr(1) sn(2) by (simp add: gd_tick_floor_def gd_observe_def gd_max_small)
    moreover obtain cl' where "client_poll_snapshot m cl = (cl', Inr (Some sn))"
      "client_tick_floor cl' = max (gtf_floor t) (sp_target_tick_floor s)"
      "ch_sends (tc_host cl') = ch_sends (tc_host cl)" "tc_input_seq cl' = tc_input_seq cl"
      using poll Some sn(1) flr(2)
      by (simp add: client_poll_snapshot_def as_candidate_def observe_tick_floor_def client_tick_floor_def max_def)
    ultimately show ?thesis using flr sn t assms(2)
      by (intro that[of ?c' cl' "Some sn"]) (auto simp: max_def)
  qed
qed

text \<open>
  C36. The client is null-safe: however it was driven, as long as it only connects while disconnected,
  whatever packets and connection events a frame brings, it neither polls nor sends nor hands a
  baseline to the scene through a null reference; a send never fails, and the objects of a state
  are there in that state, although connecting may have failed before.
\<close>

theorem godot_client_null_safe:
  assumes "godot_reachable c"
  shows "process events c \<noteq> Some (Fault NullInstance) \<and> (\<exists>c'. gd_send_input move_dir desired_tick c = Value c') \<and>
    (nc_state c \<noteq> DISCONNECTED \<longrightarrow> nc_connection c \<and> nc_peer c) \<and>
    (nc_state c = AWAITING_BASELINE \<or> nc_state c = READY \<longrightarrow>
       nc_tick_floor c \<noteq> None \<and> (\<exists>s'. on_baseline_received c msg s = Value s'))"
proof -
  have inv: "objects_present c" by (rule reachable_objects[OF assms])
  obtain c' where "gd_send_input move_dir desired_tick c = Value c'" by (rule sending_inv[OF inv])
  moreover have "process events c \<noteq> Some (Fault NullInstance)" using process_inv[OF inv, of events] by blast
  ultimately show ?thesis using inv by (auto simp: objects_present_def on_baseline_received_def)
qed

theorem godot_client_null_safe_witness:
  "\<exists>c. godot_reachable c \<and> nc_state c = READY \<and> (\<exists>c'. gd_send_input [0, 0] 7 c = Value c') \<and>
     (\<exists>s'. on_baseline_received c \<lparr>jb_tick = 0, jb_entities = [], jb_digest = 0\<rparr> match_state_new = Value s')"
proof -
  obtain c where c: "godot_reachable c" "nc_state c = READY" by (rule ready_client)
  from godot_client_null_safe[OF c(1), of _ "[0, 0]" 7] c show ?thesis by blast
qed

text \<open>
  C35. The Godot client in a match is the Rust test client: if both start with the same floor
  and sequence number and find the same readable broadcasts in a poll, in whatever order of their
  ticks, then both take the same snapshot, or none, and the same new floor; and for every desired
  tick and direction the input that each then sends is the same message.
\<close>

theorem godot_client_mirrors_test_client:
  assumes "godot_reachable c" and "nc_state c = READY" and "gd_tick_floor c < 0x8000000000000000"
    and "tc_tick_floor cl = TickFloor (gd_tick_floor c)"
    and "tc_input_seq cl = InputSeqGen (gis_seq (nc_input_seq c))"
    and "ch_events (tc_host cl) = map (\<lambda>d. Inr (Some (Receive k CHANNEL_REALTIME d))) packets"
    and "\<forall>packet \<in> set packets. readable m packet"
    and "gis_seq (nc_input_seq c) < 0xFFFFFFFFFFFFFFFF" and "desired_tick < 0x8000000000000000"
    and "ch_sends (tc_host cl) = Queued peer # answers"
  shows "\<exists>c' cl' res i. process (map (EVENT_RECEIVE CHANNEL_REALTIME) packets) c = Some (Value c') \<and>
    client_poll_snapshot m cl = (cl', Inr res) \<and> gd_tick_floor c' = client_tick_floor cl' \<and>
    (case res of
       None \<Rightarrow> packets = [] \<and> nc_log c' = nc_log c
     | Some sn \<Rightarrow> \<exists>s. nc_log c' = nc_log c @ [SnapshotReceived s] \<and> Snapshot_try_from s = Inr sn) \<and>
    (\<exists>c''. gd_send_input (to_vec move_dir) desired_tick c' = Value c'' \<and>
       nc_log c'' = nc_log c' @ [PeerSend CHANNEL_REALTIME (encode_input_cmd_proto i) False, InputSent i]) \<and>
    (\<exists>cl''. client_send_input p m desired_tick move_dir cl' = Done (cl'', Inr ()) \<and>
       ch_sent (tc_host cl'') = ch_sent (tc_host cl') @
         [SendTo peer CHANNEL_REALTIME (Unreliable (input_encode m i)), Flush])"
proof -
  from polls_agree[OF reachable_objects[OF assms(1)] assms(2-4,6,7)] obtain c' cl' res where
    polled: "process (map (EVENT_RECEIVE CHANNEL_REALTIME) packets) c = Some (Value c')"
      "client_poll_snapshot m cl = (cl', Inr res)" "gd_tick_floor c' = client_tick_floor cl'"
    and small: "gd_tick_floor c' < 0x8000000000000000"
    and here: "nc_state c' = READY" "nc_peer c'" "nc_tick_floor c' \<noteq> None" "nc_input_seq c' = nc_input_seq c"
      "ch_sends (tc_host cl') = ch_sends (tc_host cl)" "tc_input_seq cl' = tc_input_seq cl"
    and log: "case res of None \<Rightarrow> packets = [] \<and> nc_log c' = nc_log c
     | Some sn \<Rightarrow> \<exists>s. nc_log c' = nc_log c @ [SnapshotReceived s] \<and> Snapshot_try_from s = Inr sn" .
  define i where "i = input_cmd (client_tick_floor cl') desired_tick (gis_seq (nc_input_seq c) + 1) move_dir"
  have "\<exists>c''. gd_send_input (to_vec move_dir) desired_tick c' = Value c'' \<and>
       nc_log c'' = nc_log c' @ [PeerSend CHANNEL_REALTIME (encode_input_cmd_proto i) False, InputSent i]"
    using here polled(3) small assms(9)
    by (auto simp: gd_send_input_def gd_advance_def peer_send_def gd_tick_floor_def i_def input_cmd_def
        target_tick_def gd_max_small max.commute Let_def)
  moreover have "checked_plus p (gis_seq (nc_input_seq c)) 1 = Done (gis_seq (nc_input_seq c) + 1)"
    using assms(8) by (cases p) (simp_all add: checked_plus_def word_less_nat_alt)
  then have "\<exists>cl''. client_send_input p m desired_tick move_dir cl' = Done (cl'', Inr ()) \<and>
       ch_sent (tc_host cl'') = ch_sent (tc_host cl') @
         [SendTo peer CHANNEL_REALTIME (Unreliable (input_encode m i)), Flush]"
    using here assms(5,10) by (simp add: client_send_input_def send_input_def next_answer_def Let_def i_def)
  ultimately show ?thesis using polled log by blast
qed

theorem godot_client_mirrors_test_client_witness:
  "\<exists>c c' cl cl' m. process [EVENT_RECEIVE CHANNEL_REALTIME []] c = Some (Value c') \<and>
     client_poll_snapshot m cl = (cl', Inr (Some \<lparr>sn_tick = 0, sn_entities = [], sn_digest = 0\<rparr>)) \<and>
     gd_tick_floor c' = client_tick_floor cl'"
proof -
  have empty: "decode_loop F m (reader_new []) = Some (Value m)" for F :: "u64 \<Rightarrow> u64 \<Rightarrow> 'b \<Rightarrow> _" and m
    by (simp add: decode_loop.simps has_more_def reader_new_def)
  obtain c where c: "godot_reachable c" "nc_state c = READY" "gd_tick_floor c = 0" "nc_input_seq c = gd_input_seq_new"
    by (rule ready_client)
  let ?s = "\<lparr>sp_tick = 0, sp_entities = [], sp_digest = 0, sp_target_tick_floor = 0\<rparr>"
  define m where "m = \<lparr>hello_bytes = [], welcome_decode = \<lambda>_. None, baseline_decode = \<lambda>_. None,
    snapshot_decode = \<lambda>_. Some ?s, input_encode = \<lambda>_. []\<rparr>"
  define cl where "cl = \<lparr>tc_host = \<lparr>ch_events = [Inr (Some (Receive 0 CHANNEL_REALTIME []))],
      ch_sends = [Queued 0], ch_sent = []\<rparr>,
    tc_welcome = \<lparr>sw_target_tick_floor = 0, sw_tick_rate_hz = 30, sw_player_id = 0, sw_controlled_entity_id = 1\<rparr>,
    tc_tick_floor = TickFloor 0, tc_baseline = None, tc_snapshot = None, tc_input_seq = InputSeqGen 0\<rparr>"
  have conv: "Snapshot_try_from ?s = Inr \<lparr>sn_tick = 0, sn_entities = [], sn_digest = 0\<rparr>"
    by (simp add: Snapshot_try_from_def)
  have m: "\<forall>packet \<in> set [[]]. readable m packet"
    using conv by (simp add: readable_def plain_snapshot_def m_def decode_snapshot_proto_def empty)
  have cl: "tc_tick_floor cl = TickFloor (gd_tick_floor c)" "tc_input_seq cl = InputSeqGen (gis_seq (nc_input_seq c))"
    "ch_events (tc_host cl) = map (\<lambda>d. Inr (Some (Receive 0 CHANNEL_REALTIME d))) [[]]"
    "ch_sends (tc_host cl) = Queued 0 # []"
    by (simp_all add: cl_def c(3,4) gd_input_seq_new_def)
  have small: "gd_tick_floor c < 0x8000000000000000" "gis_seq (nc_input_seq c) < 0xFFFFFFFFFFFFFFFF"
    by (simp_all add: c(3,4) gd_input_seq_new_def)
  have eval: "client_poll_snapshot m cl = (cl', Inr res) \<Longrightarrow>
      res = Some \<lparr>sn_tick = 0, sn_entities = [], sn_digest = 0\<rparr>" for cl' res
    using conv by (auto simp: client_poll_snapshot_def cl_def m_def take_newer_def is_newer_def)
  have "(0 :: u64) < 0x8000000000000000" by simp
  from godot_client_mirrors_test_client[OF c(1,2) small(1) cl(1-3) m small(2) this cl(4),
      where p = Dev and move_dir = "(0, 0)"]
  show ?thesis using eval by simp blast
qed

end
