(* ===== verification/Proto3.thy ===== *)
theory Proto3
  imports GodotCodec
begin

text \<open>
  The proto3 wire format, as documented by its authors, and the schemas of the game's messages, as the
  attributes of \<^verbatim>\<open>crates/wire/src/lib.rs\<close> declare them: what the server's generated codec writes. The Godot
  client's hand-written encoders are proved to write exactly these bytes.
\<close>

section \<open>The wire format\<close>

text \<open>A base-128 varint: seven bits per byte, the lowest first, and 128 added to all but the last.\<close>

fun leb128 :: "nat \<Rightarrow> bytes" where
  "leb128 n = (if n < 128 then [of_nat n] else of_nat (n mod 128 + 128) # leb128 (n div 128))"

declare leb128.simps [simp del]

text \<open>Little endian, byte by byte.\<close>

definition fixed64 :: "f64 \<Rightarrow> bytes" where
  "fixed64 v = map (\<lambda>i. of_nat (unat v div 256 ^ i mod 256)) [0..<8]"

text \<open>
  The field kinds of the schemas: \<^verbatim>\<open>uint32\<close> and \<^verbatim>\<open>uint64\<close>; \<^verbatim>\<open>repeated double\<close>, which is packed; and
  \<^verbatim>\<open>repeated\<close> messages. A message is a list of numbered fields, in the order of their numbers.
\<close>

datatype pb_value = Uint nat | Doubles "f64 list" | Messages "(nat \<times> pb_value) list list"

text \<open>
  A field that has its default value, zero or empty, is omitted. The wire type is 0 for a varint and 2
  for what is preceded by its length in bytes.
\<close>

definition pb_key :: "nat \<Rightarrow> nat \<Rightarrow> bytes" where
  "pb_key number wire_type = leb128 (8 * number + wire_type)"

definition pb_delimited :: "nat \<Rightarrow> bytes \<Rightarrow> bytes" where
  "pb_delimited number payload = pb_key number 2 @ leb128 (length payload) @ payload"

fun pb_field :: "nat \<Rightarrow> pb_value \<Rightarrow> bytes" where
  "pb_field number (Uint n) = (if n = 0 then [] else pb_key number 0 @ leb128 n)"
| "pb_field number (Doubles vs) =
     (if vs = [] then [] else pb_delimited number (concat (map fixed64 vs)))"
| "pb_field number (Messages ms) =
     concat (map (\<lambda>m. pb_delimited number (concat (map (\<lambda>f. pb_field (fst f) (snd f)) m))) ms)"

definition pb_message :: "(nat \<times> pb_value) list \<Rightarrow> bytes" where
  "pb_message m = concat (map (\<lambda>f. pb_field (fst f) (snd f)) m)"

lemma pb_field_Messages: "pb_field number (Messages ms) = concat (map (\<lambda>m. pb_delimited number (pb_message m)) ms)"
  by (simp add: pb_message_def)

declare pb_field.simps(3) [simp del]

section \<open>The schemas\<close>

type_synonym pb_schema = "(nat \<times> pb_value) list"

definition client_hello_schema :: "ClientHello \<Rightarrow> pb_schema" where
  "client_hello_schema msg = []"

definition server_welcome_schema :: "ServerWelcome \<Rightarrow> pb_schema" where
  "server_welcome_schema msg =
     [(1, Uint (unat (sw_target_tick_floor msg))), (2, Uint (unat (sw_tick_rate_hz msg))),
      (3, Uint (unat (sw_player_id msg))), (4, Uint (unat (sw_controlled_entity_id msg)))]"

definition entity_schema :: "EntitySnapshotProto \<Rightarrow> pb_schema" where
  "entity_schema msg =
     [(1, Uint (unat (ep_entity_id msg))), (2, Doubles (ep_position msg)), (3, Doubles (ep_velocity msg))]"

definition join_baseline_schema :: "JoinBaseline \<Rightarrow> pb_schema" where
  "join_baseline_schema msg =
     [(1, Uint (unat (jb_tick msg))), (2, Messages (map entity_schema (jb_entities msg))),
      (3, Uint (unat (jb_digest msg)))]"

definition input_cmd_schema :: "InputCmdProto \<Rightarrow> pb_schema" where
  "input_cmd_schema msg =
     [(1, Uint (unat (ic_tick msg))), (2, Uint (unat (ic_input_seq msg))), (3, Doubles (ic_move_dir msg))]"

definition snapshot_schema :: "SnapshotProto \<Rightarrow> pb_schema" where
  "snapshot_schema msg =
     [(1, Uint (unat (sp_tick msg))), (2, Messages (map entity_schema (sp_entities msg))),
      (3, Uint (unat (sp_digest msg))), (4, Uint (unat (sp_target_tick_floor msg)))]"

section \<open>The writer writes it\<close>

lemma low_seven: "unat (v AND 0x7F :: u64) = unat v mod 128"
proof -
  have "v AND 0x7F = take_bit 7 v" unfolding seven_bits by (rule take_bit_eq_mask[symmetric])
  then show ?thesis by (simp only: unsigned_take_bit_eq) (simp add: take_bit_eq_mod)
qed

lemma continued: "unat (v AND 0x7F OR 0x80 :: u64) = unat v mod 128 + 128"
proof -
  have "(v AND 0x7F) AND 0x80 = 0"
    unfolding seven_bits by (auto intro!: bit_word_eqI simp: bit_simps eighth_bit)
  then have "v AND 0x7F OR 0x80 = (v AND 0x7F) + 0x80" by (rule disjunctive_add_eq_or[symmetric])
  moreover have "unat v mod 128 < 128" by simp
  ultimately show ?thesis by (simp add: unat_plus_fits low_seven)
qed

lemma ucast_of: "ucast (v :: u64) = (of_nat (unat v) :: u8)"
  by simp

lemma varint_leb128: "varint v = leb128 (unat v)"
proof (induction "unat v" arbitrary: v rule: less_induct)
  case less
  have shift: "unat (drop_bit 7 v) = unat v div 128" by (simp add: drop_bit_eq_div unat_div)
  show ?case
  proof (cases "drop_bit 7 v = 0")
    case True
    then have "unat v < 128" using shift by (simp add: div_eq_0_iff)
    then show ?thesis
      unfolding varint_last[OF True] leb128.simps[of "unat v"] ucast_of low_seven by simp
  next
    case False
    then have "unat v div 128 \<noteq> 0" using shift by (metis unat_eq_zero)
    then have "\<not> unat v < 128" by simp
    moreover have "unat (drop_bit 7 v) < unat v" using drop_seven_less[OF False] by (simp add: word_less_nat_alt)
    note less.hyps[OF this]
    ultimately show ?thesis
      unfolding varint_more[OF False] leb128.simps[of "unat v"] ucast_of continued shift by simp
  qed
qed

lemma to_le_bytes_fixed64: "to_le_bytes v = fixed64 v"
proof -
  have "ucast (drop_bit (8 * i) v) = (of_nat (unat v div 256 ^ i mod 256) :: u8)" for i
  proof -
    have "take_bit 64 (unat v) = unat v"
      by (rule take_bit_nat_eq_self) (use unsigned_less[where w = v and 'a = nat] in simp)
    then have "unat (drop_bit (8 * i) v) = unat v div 256 ^ i"
      by (simp only: unsigned_drop_bit_eq) (simp add: drop_bit_eq_div power_mult)
    then show ?thesis unfolding ucast_of
      by (simp only: word_unat_eq_iff) (simp add: unat_of_nat)
  qed
  then show ?thesis by (simp only: to_le_bytes_def fixed64_def)
qed

lemma doubles_fixed64: "doubles vs = concat (map fixed64 vs)"
  unfolding doubles_def to_le_bytes_fixed64 ..

lemma tag_key:
  "f \<in> {1, 2, 3, 4} \<Longrightarrow> t \<in> {0, 2} \<Longrightarrow> tag_bytes f t = pb_key (unat f) (unat t)"
  by (auto simp: pb_key_def varint_leb128)

lemma varint_field_pb: "f \<in> {1, 2, 3, 4} \<Longrightarrow> varint_field f v = pb_field (unat f) (Uint (unat v))"
  using tag_key[of f 0] by (auto simp: varint_field varint_leb128 unat_eq_zero)

lemma length_pb: "length vs * 8 < 2 ^ 64 \<Longrightarrow> varint (of_nat (length vs * 8)) = leb128 (length vs * 8)"
  unfolding varint_leb128 by (subst unat_of_nat_small) simp_all

lemma doubles_field_pb:
  assumes "f \<in> {1, 2, 3, 4}" and "packet_fits (doubles_field f vs)"
  shows "doubles_field f vs = pb_field (unat f) (Doubles vs)"
proof -
  have "length vs * 8 < 2 ^ 63" using assms(2) by (cases "vs = []") (simp_all add: packet_fits_def doubles_field)
  then have "varint (of_nat (length vs * 8)) = leb128 (length vs * 8)" by (intro length_pb) simp
  moreover have "length (doubles vs) = length vs * 8" by simp
  ultimately show ?thesis
    using tag_key[OF assms(1), of 2]
    by (simp add: doubles_field pb_delimited_def mult.commute[of 8] flip: doubles_fixed64)
qed

lemma packet_parts: "packet_fits (as @ bs) \<Longrightarrow> packet_fits as \<and> packet_fits bs"
  by (simp add: packet_fits_def)

lemma encode_entity_parts:
  "encode_entity_snapshot_proto e =
     varint_field 1 (ep_entity_id e) @ doubles_field 2 (ep_position e) @ doubles_field 3 (ep_velocity e)"
  by (simp add: encode_entity_snapshot_proto_def Let_def write_packed_doubles_append[of 3 _ "write_packed_doubles _ _ _"]
      write_packed_doubles_append[of 2 _ "put_varint _ _ _"])

lemma encode_entity_pb:
  assumes "packet_fits (encode_entity_snapshot_proto e)"
  shows "encode_entity_snapshot_proto e = pb_message (entity_schema e)"
proof -
  have "packet_fits (doubles_field 2 (ep_position e))" "packet_fits (doubles_field 3 (ep_velocity e))"
    using assms unfolding encode_entity_parts by (blast dest: packet_parts)+
  then show ?thesis
    using varint_field_pb[of 1] doubles_field_pb[of 2] doubles_field_pb[of 3]
    by (simp add: encode_entity_parts pb_message_def entity_schema_def)
qed

lemma entity_field_pb:
  assumes "packet_fits (entity_field e)"
  shows "entity_field e = pb_delimited 2 (pb_message (entity_schema e))"
proof -
  have fits: "packet_fits (encode_entity_snapshot_proto e)"
    using assms unfolding entity_field by (blast dest: packet_parts)
  then have "unat (of_nat (length (encode_entity_snapshot_proto e)) :: u64) = length (encode_entity_snapshot_proto e)"
    by (intro unat_of_nat_small) (simp add: packet_fits_def)
  moreover have "tag_bytes 2 2 = pb_key 2 2" using tag_key[of 2 2] by simp
  ultimately show ?thesis
    unfolding entity_field pb_delimited_def encode_entity_pb[OF fits, symmetric] varint_leb128[of "of_nat _"] by simp
qed

lemma entity_fields_pb:
  "packet_fits (concat (map entity_field es)) \<Longrightarrow>
     concat (map entity_field es) = pb_field 2 (Messages (map entity_schema es))"
  unfolding pb_field_Messages
proof (induction es)
  case (Cons e es)
  then have "packet_fits (entity_field e)" "packet_fits (concat (map entity_field es))"
    using packet_parts[of "entity_field e" "concat (map entity_field es)"] by simp_all
  with Cons.IH entity_field_pb[of e] show ?case by simp
qed simp

lemma encode_welcome_pb:
  "encode_server_welcome m = pb_message
     [(1, Uint (unat (gsw_target_tick_floor m))), (2, Uint (unat (gsw_tick_rate_hz m))),
      (3, Uint (unat (gsw_player_id m))), (4, Uint (unat (gsw_controlled_entity_id m)))]"
proof -
  have "encode_server_welcome m =
      varint_field 1 (gsw_target_tick_floor m) @ varint_field 2 (gsw_tick_rate_hz m) @
      varint_field 3 (gsw_player_id m) @ varint_field 4 (gsw_controlled_entity_id m)"
    by (simp add: encode_server_welcome_def Let_def put_varint_append[of 4 _ "put_varint _ _ _"]
        put_varint_append[of 3 _ "put_varint _ _ _"] put_varint_append[of 2 _ "put_varint _ _ _"])
  then show ?thesis
    using varint_field_pb[of 1] varint_field_pb[of 2] varint_field_pb[of 3] varint_field_pb[of 4]
    by (simp add: pb_message_def)
qed

lemma encode_input_pb:
  assumes "packet_fits (encode_input_cmd_proto m)"
  shows "encode_input_cmd_proto m = pb_message (input_cmd_schema m)"
proof -
  have enc: "encode_input_cmd_proto m =
      varint_field 1 (ic_tick m) @ varint_field 2 (ic_input_seq m) @ doubles_field 3 (ic_move_dir m)"
    by (simp add: encode_input_cmd_proto_def Let_def write_packed_doubles_append[of 3 _ "put_varint _ _ _"]
        put_varint_append[of 2 _ "put_varint _ _ _"])
  have "packet_fits (doubles_field 3 (ic_move_dir m))" using assms unfolding enc by (blast dest: packet_parts)
  then show ?thesis
    using varint_field_pb[of 1] varint_field_pb[of 2] doubles_field_pb[of 3]
    by (simp add: enc pb_message_def input_cmd_schema_def)
qed

lemma encode_baseline_pb:
  assumes "packet_fits (encode_join_baseline m)"
  shows "encode_join_baseline m = pb_message (join_baseline_schema m)"
proof -
  have enc: "encode_join_baseline m =
      varint_field 1 (jb_tick m) @ concat (map entity_field (jb_entities m)) @ varint_field 3 (jb_digest m)"
    by (simp add: encode_join_baseline_def Let_def put_varint_append[of 3 _ "_ @ _"] fold_put_entity)
  have "packet_fits (concat (map entity_field (jb_entities m)))"
    using assms unfolding enc by (blast dest: packet_parts)
  then show ?thesis
    using varint_field_pb[of 1] varint_field_pb[of 3] entity_fields_pb
    by (simp add: enc pb_message_def join_baseline_schema_def)
qed

lemma encode_snapshot_parts:
  "encode_snapshot_proto m = varint_field 1 (sp_tick m) @ concat (map entity_field (sp_entities m)) @
     varint_field 3 (sp_digest m) @ varint_field 4 (sp_target_tick_floor m)"
  by (simp add: encode_snapshot_proto_def Let_def put_varint_append[of 4 _ "put_varint _ _ _"]
      put_varint_append[of 3 _ "_ @ _"] fold_put_entity)

lemma encode_snapshot_pb:
  assumes "packet_fits (encode_snapshot_proto m)"
  shows "encode_snapshot_proto m = pb_message (snapshot_schema m)"
proof -
  have "packet_fits (concat (map entity_field (sp_entities m)))"
    using assms unfolding encode_snapshot_parts by (blast dest: packet_parts)
  then show ?thesis
    using varint_field_pb[of 1] varint_field_pb[of 3] varint_field_pb[of 4] entity_fields_pb
    by (simp add: encode_snapshot_parts pb_message_def snapshot_schema_def)
qed

text \<open>What the game sends fits: bounds on the vectors and the number of entities.\<close>

lemma entity_fits:
  "length (ep_position e) = 2 \<Longrightarrow> length (ep_velocity e) = 2 \<Longrightarrow> packet_fits (encode_entity_snapshot_proto e)"
  using length_entity_field[of e] unfolding entity_field by (simp add: packet_fits_def)

lemma input_cmd_fits: "length (ic_move_dir m) \<le> 0xFFFF \<Longrightarrow> packet_fits (encode_input_cmd_proto m)"
  using length_fields(1)[of 1 "ic_tick m"] length_fields(1)[of 2 "ic_input_seq m"]
    length_fields(2)[of 3 "ic_move_dir m"]
  by (simp add: packet_fits_def encode_input_cmd_proto_def Let_def put_varint_append[of 2 _ "put_varint _ _ _"]
      write_packed_doubles_append[of 3 _ "put_varint _ _ _"])

lemma snapshot_fits:
  assumes "length (sp_entities m) \<le> 0xFFFF"
    and "\<forall>e \<in> set (sp_entities m). length (ep_position e) = 2 \<and> length (ep_velocity e) = 2"
  shows "packet_fits (encode_snapshot_proto m)"
  using length_entity_fields[OF assms(2)] assms(1) length_fields(1)[of 1 "sp_tick m"]
    length_fields(1)[of 3 "sp_digest m"] length_fields(1)[of 4 "sp_target_tick_floor m"]
  by (simp add: packet_fits_def encode_snapshot_parts)

end
