(* ===== verification/GoldenBytes.thy ===== *)
theory GoldenBytes
  imports Wire
begin

text \<open>
  The fixture generator \<^verbatim>\<open>client/examples/g0_2_golden_bytes.rs\<close>: it prints one JSON document with, for
  every case, the fields of a message and the bytes that the server's codec encodes it to. The
  generated encoders (\<^verbatim>\<open>prost\<close>) are the parameter of type \<open>encoders\<close>.
\<close>

section \<open>Formatting\<close>

text \<open>
  \<^verbatim>\<open>format!("{v}")\<close> of a \<^verbatim>\<open>f64\<close>: the shortest decimal that rounds to the number, the nearest one if there
  are several, never with an exponent. For a positive finite number, \<open>s\<close> times two to the \<open>e\<close>, a
  decimal of \<open>k\<close> digits after the point is \<open>m\<close> times ten to the \<open>-k\<close>.
\<close>

definition rounds_back :: "nat \<Rightarrow> int \<Rightarrow> nat \<Rightarrow> int \<Rightarrow> bool" where
  "rounds_back s e m k =
     (let n = m * 10 ^ nat (- k) * 2 ^ nat (2 - e);
          d = 10 ^ nat k * 2 ^ nat (e - 2);
          low = d * (4 * s - (if s = 2 ^ 52 \<and> - 1074 < e then 1 else 2));
          high = d * (4 * s + 2)
      in if even s then low \<le> n \<and> n \<le> high else low < n \<and> n < high)"

text \<open>The two candidates of \<open>k\<close> digits; the upper one wins if it is at least as near.\<close>

definition shortest_at :: "nat \<Rightarrow> int \<Rightarrow> int \<Rightarrow> nat option" where
  "shortest_at s e k =
     (let n = s * 2 ^ nat e * 10 ^ nat k;
          d = 2 ^ nat (- e) * 10 ^ nat (- k);
          m = n div d;
          down = rounds_back s e m k;
          up = rounds_back s e (m + 1) k
      in if up \<and> (\<not> down \<or> d \<le> 2 * (n mod d)) then Some (m + 1)
         else if down then Some m else None)"

text \<open>Seventeen significant digits always round back.\<close>

fun shortest_from :: "nat \<Rightarrow> nat \<Rightarrow> int \<Rightarrow> int \<Rightarrow> nat \<times> int" where
  "shortest_from 0 s e k = (0, k)"
| "shortest_from (Suc fuel) s e k =
     (case shortest_at s e k of Some m \<Rightarrow> (m, k) | None \<Rightarrow> shortest_from fuel s e (k + 1))"

definition shortest :: "nat \<Rightarrow> int \<Rightarrow> nat \<times> int" where
  "shortest s e = shortest_from 1100 s e (- int (length (digits 10 (s * 2 ^ nat e div 2 ^ nat (- e)))))"

definition pad_zeros :: "nat \<Rightarrow> string \<Rightarrow> string" where
  "pad_zeros n s = replicate (n - length s) (CHR ''0'') @ s"

fun decimal_point :: "nat \<times> int \<Rightarrow> string" where
  "decimal_point (m, k) =
     (if k \<le> 0 then digits 10 (m * 10 ^ nat (- k))
     else digits 10 (m div 10 ^ nat k) @ ''.'' @ pad_zeros (nat k) (digits 10 (m mod 10 ^ nat k)))"

declare decimal_point.simps [simp del]

definition display_f64 :: "f64 \<Rightarrow> string" where
  "display_f64 x =
     (if f64_is_nan x then ''NaN''
      else (if f64_neg x then ''-'' else '''') @
        (if f64_is_infinite x then ''inf''
         else if f64_mag x = 0 then ''0''
         else decimal_point (shortest (f64_sig x) (f64_exp x))))"

definition hex_u64 :: "u64 \<Rightarrow> string" where
  "hex_u64 v = ''0x'' @ pad_zeros 16 (digits 16 (unat v))"

definition hex_bytes :: "bytes \<Rightarrow> string" where
  "hex_bytes bs = concat (map (\<lambda>b. pad_zeros 2 (digits 16 (unat b))) bs)"

definition json_string :: "string \<Rightarrow> string" where
  "json_string s = CHR 0x22 # s @ [CHR 0x22]"

fun join_with :: "string \<Rightarrow> string list \<Rightarrow> string" where
  "join_with sep [] = []"
| "join_with sep [s] = s"
| "join_with sep (s # t # ss) = s @ sep @ join_with sep (t # ss)"

definition json_f64_array :: "f64 list \<Rightarrow> string" where
  "json_f64_array values = ''['' @ join_with '','' (map display_f64 values) @ '']''"

text \<open>The templates of the cases: an object with these keys in this order.\<close>

definition json_object :: "(string \<times> string) list \<Rightarrow> string" where
  "json_object members = ''{'' @ join_with '','' (map (\<lambda>(k, v). json_string k @ '':'' @ v) members) @ ''}''"

definition entity_fields_json :: "EntitySnapshotProto \<Rightarrow> string" where
  "entity_fields_json e =
     json_object [(''entity_id'', json_string (hex_u64 (ep_entity_id e))),
       (''position'', json_f64_array (ep_position e)), (''velocity'', json_f64_array (ep_velocity e))]"

definition entities_fields_json :: "EntitySnapshotProto list \<Rightarrow> string" where
  "entities_fields_json entities = ''['' @ join_with '','' (map entity_fields_json entities) @ '']''"

definition welcome_fields_json :: "ServerWelcome \<Rightarrow> string" where
  "welcome_fields_json msg =
     json_object [(''target_tick_floor'', json_string (hex_u64 (sw_target_tick_floor msg))),
       (''tick_rate_hz'', json_string (hex_u64 (ucast (sw_tick_rate_hz msg)))),
       (''player_id'', json_string (hex_u64 (ucast (sw_player_id msg)))),
       (''controlled_entity_id'', json_string (hex_u64 (sw_controlled_entity_id msg)))]"

definition baseline_fields_json :: "JoinBaseline \<Rightarrow> string" where
  "baseline_fields_json msg =
     json_object [(''tick'', json_string (hex_u64 (jb_tick msg))),
       (''entities'', entities_fields_json (jb_entities msg)),
       (''digest'', json_string (hex_u64 (jb_digest msg)))]"

definition input_fields_json :: "InputCmdProto \<Rightarrow> string" where
  "input_fields_json msg =
     json_object [(''tick'', json_string (hex_u64 (ic_tick msg))),
       (''input_seq'', json_string (hex_u64 (ic_input_seq msg))),
       (''move_dir'', json_f64_array (ic_move_dir msg))]"

definition snapshot_fields_json :: "SnapshotProto \<Rightarrow> string" where
  "snapshot_fields_json msg =
     json_object [(''tick'', json_string (hex_u64 (sp_tick msg))),
       (''entities'', entities_fields_json (sp_entities msg)),
       (''digest'', json_string (hex_u64 (sp_digest msg))),
       (''target_tick_floor'', json_string (hex_u64 (sp_target_tick_floor msg)))]"

section \<open>The cases\<close>

record encoders =
  en_hello :: "ClientHello \<Rightarrow> bytes"
  en_welcome :: "ServerWelcome \<Rightarrow> bytes"
  en_baseline :: "JoinBaseline \<Rightarrow> bytes"
  en_input :: "InputCmdProto \<Rightarrow> bytes"
  en_snapshot :: "SnapshotProto \<Rightarrow> bytes"
  en_entity :: "EntitySnapshotProto \<Rightarrow> bytes"

type_synonym golden_case = "string \<times> string \<times> bytes"

definition welcome_case :: "encoders \<Rightarrow> string \<Rightarrow> ServerWelcome \<Rightarrow> golden_case" where
  "welcome_case en name msg = (name, welcome_fields_json msg, en_welcome en msg)"

definition baseline_case :: "encoders \<Rightarrow> string \<Rightarrow> JoinBaseline \<Rightarrow> golden_case" where
  "baseline_case en name msg = (name, baseline_fields_json msg, en_baseline en msg)"

definition input_case :: "encoders \<Rightarrow> string \<Rightarrow> InputCmdProto \<Rightarrow> golden_case" where
  "input_case en name msg = (name, input_fields_json msg, en_input en msg)"

definition snapshot_case :: "encoders \<Rightarrow> string \<Rightarrow> SnapshotProto \<Rightarrow> golden_case" where
  "snapshot_case en name msg = (name, snapshot_fields_json msg, en_snapshot en msg)"

text \<open>0.707, 1.5, -2.5, 3.5, 1.0 and -1.0 as bit patterns.\<close>

definition join_cases :: "encoders \<Rightarrow> golden_case list" where
  "join_cases en =
     [(''client_hello'', ''{}'', en_hello en ClientHello),
      welcome_case en ''server_welcome_p0''
        \<lparr>sw_target_tick_floor = 1, sw_tick_rate_hz = 60, sw_player_id = 0, sw_controlled_entity_id = 100\<rparr>,
      welcome_case en ''server_welcome_p1''
        \<lparr>sw_target_tick_floor = 1, sw_tick_rate_hz = 60, sw_player_id = 1, sw_controlled_entity_id = 100\<rparr>,
      baseline_case en ''join_baseline_empty'' \<lparr>jb_tick = 0, jb_entities = [], jb_digest = 0xdeadbeef\<rparr>,
      baseline_case en ''join_baseline_two_entities''
        \<lparr>jb_tick = 7,
         jb_entities =
           [\<lparr>ep_entity_id = 0, ep_position = [0, 0], ep_velocity = [0, 0]\<rparr>,
            \<lparr>ep_entity_id = 1, ep_position = [0xc004000000000000, 0x400c000000000000],
             ep_velocity = [0x3ff0000000000000, 0xbff0000000000000]\<rparr>],
         jb_digest = 0x1234\<rparr>]"

definition play_cases :: "encoders \<Rightarrow> golden_case list" where
  "play_cases en =
     [input_case en ''input_cmd_normal''
        \<lparr>ic_tick = 5, ic_input_seq = 1, ic_move_dir = [0x3fe69fbe76c8b439, 0x3fe69fbe76c8b439]\<rparr>,
      input_case en ''input_cmd_zero_move_dir'' \<lparr>ic_tick = 1, ic_input_seq = 1, ic_move_dir = [0, 0]\<rparr>,
      input_case en ''input_cmd_empty_move_dir'' \<lparr>ic_tick = 1, ic_input_seq = 1, ic_move_dir = []\<rparr>,
      snapshot_case en ''snapshot_high_digest''
        \<lparr>sp_tick = 1, sp_entities = [], sp_digest = 0x8000000000000001, sp_target_tick_floor = 2\<rparr>,
      snapshot_case en ''snapshot_zero_target_tick_floor''
        \<lparr>sp_tick = 1, sp_entities = [], sp_digest = 0x1234, sp_target_tick_floor = 0\<rparr>,
      (let msg = \<lparr>ep_entity_id = 7, ep_position = [0x3ff8000000000000, 0xc004000000000000], ep_velocity = [0, 0]\<rparr>
       in (''entity_snapshot_basic'', entity_fields_json msg, en_entity en msg))]"

definition golden_cases :: "encoders \<Rightarrow> golden_case list" where
  "golden_cases en = join_cases en @ play_cases en"

definition golden_entry :: "golden_case \<Rightarrow> string" where
  "golden_entry = (\<lambda>(name, shown, encoded).
     json_string name @ '':'' @ json_object [(''fields'', shown), (''hex'', json_string (hex_bytes encoded))])"

text \<open>What the program prints; \<^verbatim>\<open>println!\<close> ends the line.\<close>

definition golden_main :: "encoders \<Rightarrow> string" where
  "golden_main en = ''{'' @ join_with '','' (map golden_entry (golden_cases en)) @ ''}'' @ [CHR 0x0A]"

section \<open>Evaluation\<close>

lemma digit_chars:
  "digit_char 0 = CHR ''0''" "digit_char (Suc 0) = CHR ''1''" "digit_char 1 = CHR ''1''"
  "digit_char 2 = CHR ''2''" "digit_char 3 = CHR ''3''" "digit_char 4 = CHR ''4''" "digit_char 5 = CHR ''5''"
  "digit_char 6 = CHR ''6''" "digit_char 7 = CHR ''7''" "digit_char 8 = CHR ''8''" "digit_char 9 = CHR ''9''"
  "digit_char 10 = CHR ''a''" "digit_char 11 = CHR ''b''" "digit_char 12 = CHR ''c''" "digit_char 13 = CHR ''d''"
  "digit_char 14 = CHR ''e''" "digit_char 15 = CHR ''f''"
  by (simp_all add: digit_char_def char_of_def bit_0)

lemma digits_eval:
  "1 < base \<Longrightarrow> n < base \<Longrightarrow> digits base n = [digit_char n]"
  "1 < base \<Longrightarrow> base \<le> n \<Longrightarrow> digits base n = digits base (n div base) @ [digit_char (n mod base)]"
  by (simp_all add: digits.simps[of base n])

lemma shortest_from_numeral:
  "shortest_from (numeral fuel) s e k =
     (case shortest_at s e k of Some m \<Rightarrow> (m, k) | None \<Rightarrow> shortest_from (pred_numeral fuel) s e (k + 1))"
  by (simp add: numeral_eq_Suc)

lemma replicate_eval: "replicate (numeral n) x = x # replicate (pred_numeral n) x"
  by (simp add: numeral_eq_Suc)

lemmas display_eval =
  display_f64_def f64_read_eval f64_sig_def f64_exp_def mag_sig_def mag_exp_def shortest_def
  shortest_from_numeral shortest_at_def rounds_back_def Let_def decimal_point.simps pad_zeros_def
  digits_eval digit_chars

text \<open>The numbers of the cases, as they are printed.\<close>

lemma shown_numbers:
  "display_f64 0 = ''0''" "display_f64 0x3fe69fbe76c8b439 = ''0.707''" "display_f64 0x3ff8000000000000 = ''1.5''"
  "display_f64 0xc004000000000000 = ''-2.5''" "display_f64 0x400c000000000000 = ''3.5''"
  "display_f64 0x3ff0000000000000 = ''1''" "display_f64 0xbff0000000000000 = ''-1''"
  by (simp_all add: display_eval)

lemmas json_eval =
  json_object_def json_string_def json_f64_array_def entity_fields_json_def entities_fields_json_def
  welcome_fields_json_def baseline_fields_json_def input_fields_json_def snapshot_fields_json_def
  welcome_case_def baseline_case_def input_case_def snapshot_case_def golden_entry_def
  hex_u64_def hex_bytes_def pad_zeros_def replicate_eval digits_eval digit_chars shown_numbers

end
