(* ===== verification/GoldenFixture.thy ===== *)
theory GoldenFixture
  imports Proto3 GoldenBytes
begin

text \<open>
  The gate G0.2: the Godot client's codec matches the server's byte for byte. On every message
  its encoders write the proto3 encoding of the schema that \<^verbatim>\<open>crates/wire/src/lib.rs\<close> declares; and that
  this is what the server's generated codec writes is tested by the file that the
  generator printed with it, \<^verbatim>\<open>client/tests/fixtures/g0_2_golden_bytes.json\<close>: given the proto3 encoding of the
  schemas, the generator prints exactly that file.
\<close>

section \<open>The fixture file\<close>

text \<open>The file's text, with a tilde for the quotation mark; it contains no tilde.\<close>

definition quoted :: "string \<Rightarrow> string" where
  "quoted s = map (\<lambda>c. if c = CHR ''~'' then CHR 0x22 else c) s"

definition fixture_entries :: "string list" where
  "fixture_entries = map quoted
    [''~client_hello~:{~fields~:{},~hex~:~~}'',
     ''~server_welcome_p0~:{~fields~:{~target_tick_floor~:~0x0000000000000001~,~tick_rate_hz~:~0x000000'' @
      ''000000003c~,~player_id~:~0x0000000000000000~,~controlled_entity_id~:~0x0000000000000064~},~hex~:'' @
      ''~0801103c2064~}'',
     ''~server_welcome_p1~:{~fields~:{~target_tick_floor~:~0x0000000000000001~,~tick_rate_hz~:~0x000000'' @
      ''000000003c~,~player_id~:~0x0000000000000001~,~controlled_entity_id~:~0x0000000000000064~},~hex~:'' @
      ''~0801103c18012064~}'',
     ''~join_baseline_empty~:{~fields~:{~tick~:~0x0000000000000000~,~entities~:[],~digest~:~0x00000000d'' @
      ''eadbeef~},~hex~:~18effdb6f50d~}'',
     ''~join_baseline_two_entities~:{~fields~:{~tick~:~0x0000000000000007~,~entities~:[{~entity_id~:~0x'' @
      ''0000000000000000~,~position~:[0,0],~velocity~:[0,0]},{~entity_id~:~0x0000000000000001~,~position'' @
      ''~:[-2.5,3.5],~velocity~:[1,-1]}],~digest~:~0x0000000000001234~},~hex~:~0807122412100000000000000'' @
      ''00000000000000000001a100000000000000000000000000000000012260801121000000000000004c00000000000000'' @
      ''c401a10000000000000f03f000000000000f0bf18b424~}'',
     ''~input_cmd_normal~:{~fields~:{~tick~:~0x0000000000000005~,~input_seq~:~0x0000000000000001~,~move'' @
      ''_dir~:[0.707,0.707]},~hex~:~080510011a1039b4c876be9fe63f39b4c876be9fe63f~}'',
     ''~input_cmd_zero_move_dir~:{~fields~:{~tick~:~0x0000000000000001~,~input_seq~:~0x0000000000000001'' @
      ''~,~move_dir~:[0,0]},~hex~:~080110011a1000000000000000000000000000000000~}'',
     ''~input_cmd_empty_move_dir~:{~fields~:{~tick~:~0x0000000000000001~,~input_seq~:~0x000000000000000'' @
      ''1~,~move_dir~:[]},~hex~:~08011001~}'',
     ''~snapshot_high_digest~:{~fields~:{~tick~:~0x0000000000000001~,~entities~:[],~digest~:~0x80000000'' @
      ''00000001~,~target_tick_floor~:~0x0000000000000002~},~hex~:~080118818080808080808080012002~}'',
     ''~snapshot_zero_target_tick_floor~:{~fields~:{~tick~:~0x0000000000000001~,~entities~:[],~digest~:'' @
      ''~0x0000000000001234~,~target_tick_floor~:~0x0000000000000000~},~hex~:~080118b424~}'',
     ''~entity_snapshot_basic~:{~fields~:{~entity_id~:~0x0000000000000007~,~position~:[1.5,-2.5],~veloc'' @
      ''ity~:[0,0]},~hex~:~08071210000000000000f83f00000000000004c01a1000000000000000000000000000000000~'' @
      ''}'']"

definition golden_fixture :: string where
  "golden_fixture = ''{'' @ join_with '','' fixture_entries @ ''}''"

section \<open>The Godot encoders\<close>

definition gd_welcome :: "ServerWelcome \<Rightarrow> GdServerWelcome" where
  "gd_welcome msg =
     \<lparr>gsw_target_tick_floor = sw_target_tick_floor msg, gsw_tick_rate_hz = ucast (sw_tick_rate_hz msg),
      gsw_player_id = ucast (sw_player_id msg), gsw_controlled_entity_id = sw_controlled_entity_id msg\<rparr>"

definition godot_encoders :: encoders where
  "godot_encoders =
     \<lparr>en_hello = encode_client_hello, en_welcome = \<lambda>msg. encode_server_welcome (gd_welcome msg),
      en_baseline = encode_join_baseline, en_input = encode_input_cmd_proto,
      en_snapshot = encode_snapshot_proto, en_entity = encode_entity_snapshot_proto\<rparr>"

lemmas fixture_eval = encode_eval gd_welcome_def

lemma golden_fixture_reproduced: "golden_main godot_encoders = golden_fixture @ [CHR 0x0A]"
proof -
  have "map golden_entry (golden_cases godot_encoders) = fixture_entries"
    by (simp add: golden_cases_def join_cases_def play_cases_def godot_encoders_def json_eval fixture_eval fixture_entries_def quoted_def)
  then show ?thesis by (simp add: golden_main_def golden_fixture_def)
qed

section \<open>The schemas' encoders\<close>

definition proto3_encoders :: encoders where
  "proto3_encoders =
     \<lparr>en_hello = \<lambda>msg. pb_message (client_hello_schema msg),
      en_welcome = \<lambda>msg. pb_message (server_welcome_schema msg),
      en_baseline = \<lambda>msg. pb_message (join_baseline_schema msg),
      en_input = \<lambda>msg. pb_message (input_cmd_schema msg),
      en_snapshot = \<lambda>msg. pb_message (snapshot_schema msg),
      en_entity = \<lambda>msg. pb_message (entity_schema msg)\<rparr>"

lemma hello_pb: "encode_client_hello h = pb_message (client_hello_schema h)"
  by (simp add: encode_client_hello_def client_hello_schema_def pb_message_def)

lemma unat_widened: "unat (ucast (x :: u32) :: u64) = unat x"
proof -
  have "take_bit 64 (unat x) = unat x"
    by (rule take_bit_nat_eq_self) (use unsigned_less[where w = x and 'a = nat] in simp)
  then show ?thesis by (simp add: unsigned_ucast_eq)
qed

lemma welcome_pb: "encode_server_welcome (gd_welcome w) = pb_message (server_welcome_schema w)"
  by (simp add: encode_welcome_pb gd_welcome_def server_welcome_schema_def unat_widened)

lemma golden_proto3: "golden_cases godot_encoders = golden_cases proto3_encoders"
  by (simp add: golden_cases_def join_cases_def play_cases_def godot_encoders_def proto3_encoders_def
      welcome_case_def baseline_case_def input_case_def snapshot_case_def Let_def hello_pb welcome_pb
      encode_baseline_pb[OF join_baseline_fits] encode_input_pb[OF input_cmd_fits]
      encode_snapshot_pb[OF snapshot_fits] encode_entity_pb[OF entity_fits])

section \<open>Properties\<close>

text \<open>
  C37. The Godot client's codec is proto3: on every message that fits into a packet, with any number of
  entities, any vectors and any integers, each of its encoders writes exactly the bytes of the
  proto3 encoding of the fields that \<^verbatim>\<open>crates/wire\<close> declares (in number order, defaults omitted, integers as
  base-128 varints, vectors packed, entities length-delimited), and its decoders read exactly
  those bytes back to the message. That the server's generated codec writes the same is what the golden
  fixture tests: with the proto3 encoding of the schemas the generator prints exactly the fixture.
\<close>

theorem godot_codec_is_proto3:
  shows "encode_client_hello h = pb_message (client_hello_schema h) \<and>
    encode_server_welcome (gd_welcome w) = pb_message (server_welcome_schema w) \<and>
    decode_server_welcome (pb_message (server_welcome_schema w)) = Some (Value (gd_welcome w)) \<and>
    (packet_fits (encode_entity_snapshot_proto e) \<longrightarrow>
       encode_entity_snapshot_proto e = pb_message (entity_schema e) \<and>
       decode_entity_snapshot_proto (pb_message (entity_schema e)) = Some (Value e)) \<and>
    (packet_fits (encode_join_baseline b) \<longrightarrow>
       encode_join_baseline b = pb_message (join_baseline_schema b) \<and>
       decode_join_baseline (pb_message (join_baseline_schema b)) = Some (Value b)) \<and>
    (packet_fits (encode_input_cmd_proto i) \<longrightarrow>
       encode_input_cmd_proto i = pb_message (input_cmd_schema i) \<and>
       decode_input_cmd_proto (pb_message (input_cmd_schema i)) = Some (Value i)) \<and>
    (packet_fits (encode_snapshot_proto s) \<longrightarrow>
       encode_snapshot_proto s = pb_message (snapshot_schema s) \<and>
       decode_snapshot_proto (pb_message (snapshot_schema s)) = Some (Value s)) \<and>
    golden_main proto3_encoders = golden_fixture @ [CHR 0x0A]"
proof -
  have "golden_main proto3_encoders = golden_fixture @ [CHR 0x0A]"
    using golden_fixture_reproduced by (simp add: golden_main_def golden_proto3)
  moreover have "decode_server_welcome (pb_message (server_welcome_schema w)) = Some (Value (gd_welcome w))"
    using gd_welcome.lossless[OF server_welcome_fits, of "gd_welcome w"] by (simp only: welcome_pb)
  ultimately show ?thesis
    using hello_pb[of h] welcome_pb[of w] gd_entity.lossless[of e] gd_baseline.lossless[of b] gd_input.lossless[of i]
      gd_snapshot.lossless[of s]
    by (auto simp flip: encode_entity_pb encode_baseline_pb encode_input_pb encode_snapshot_pb)
qed

theorem godot_codec_is_proto3_witness:
  "\<exists>s. length (sp_entities s) = 1 \<and> encode_snapshot_proto s = pb_message (snapshot_schema s) \<and>
     decode_snapshot_proto (pb_message (snapshot_schema s)) = Some (Value s)"
proof -
  let ?s = "\<lparr>sp_tick = 300, sp_entities = [\<lparr>ep_entity_id = 1, ep_position = [0x3ff0000000000000, 0], ep_velocity = [0, 0]\<rparr>],
     sp_digest = 0x8000000000000001, sp_target_tick_floor = 301\<rparr>"
  have "packet_fits (encode_snapshot_proto ?s)" by (rule snapshot_fits) simp_all
  then show ?thesis
    using godot_codec_is_proto3[where s = ?s] by (intro exI[of _ ?s]) simp
qed

end
