(* ===== verification/GodotMatch.thy ===== *)
theory GodotMatch
  imports Together GodotClientSpec GoldenFixture
begin

text \<open>
  The Godot client against the server: the packets of a welcome take it from connecting to ready, and
  the first direction its scene sends is buffered. The server's encoder is third-party; it is assumed
  to write, for the messages concerned, the bytes of the client's own encoder, which is what the
  golden fixture establishes case by case.
\<close>

text \<open>What a frame of the Godot client finds of the reliable packets sent to its peer.\<close>

fun godot_event :: "service_result \<Rightarrow> gd_event option" where
  "godot_event (Inr (Some (Receive k channel packet))) = Some (EVENT_RECEIVE channel packet)"
| "godot_event _ = None"

definition godot_delivered :: "PeerID \<Rightarrow> sent list \<Rightarrow> gd_event list" where
  "godot_delivered peer sent = List.map_filter godot_event (delivered peer sent)"

lemma join_free_slot:
  assumes "server_reachable p enc c s" and "join p s = Done (s', wel)"
    and "p = Dev \<or> length (s_entity_spawn_order s') \<le> 255"
  obtains q where "hm_get (s_session_players s') (s_next_session_id s) = Some q"
    "hm_get (s_last_emitted_floor s') (s_next_session_id s) = Some (sw_target_tick_floor wel)"
    "\<And>t. slot (s_input_buffer s') q t = None" "server_reachable p enc c s'"
proof -
  obtain pid w eid where s': "s' = joined s pid w eid"
    and wel: "sw_target_tick_floor wel = w_tick w + sc_input_lead_ticks (s_config s)"
    by (rule join_Done[OF assms(2)]) simp
  have reach: "server_reachable p enc c s'"
    by (rule reachable_serve[OF assms(1), of EvJoin]) (simp add: assms(2))
  have few: "p = Dev \<or> length (s_entity_spawn_order s) \<le> 255" using assms(3) by (auto simp: s' joined_def)
  have "distinct (s_entity_spawn_order s')"
    using core_distinct server_reachable_core[OF reach assms(3)] by (auto simp: server_core_def)
  then have fresh: "pid \<notin> set (s_entity_spawn_order s)" by (simp add: s' joined_def)
  have "buffer_inv c s" using server_reachable_core(3)[OF assms(1) few] by (simp add: server_core_def)
  then have "slot (s_input_buffer s) pid t = None" for t using fresh unfolding buffer_inv_def by blast
  then have "slot (s_input_buffer s') pid t = None" for t by (simp add: s' joined_def)
  with reach show ?thesis by (intro that[of pid]) (simp_all add: s' joined_def wel)
qed

text \<open>A connecting client that finds a welcome and a baseline in one frame.\<close>

definition welcomed :: "NetworkClient \<Rightarrow> GdServerWelcome \<Rightarrow> JoinBaseline \<Rightarrow> NetworkClient" where
  "welcomed g welcome msg =
     emit (BaselineReceived msg) (emit (WelcomeReceived welcome)
       (g\<lparr>nc_welcome := Some welcome, nc_state := READY,
          nc_tick_floor := Some (gd_tick_floor_new (gsw_target_tick_floor welcome))\<rparr>))"

lemma welcomed_simps [simp]:
  "nc_welcome (welcomed g w b) = Some w" "gd_is_ready (welcomed g w b)" "nc_peer (welcomed g w b) = nc_peer g"
  "gd_tick_floor (welcomed g w b) = gsw_target_tick_floor w" "nc_tick_floor (welcomed g w b) \<noteq> None"
  "nc_input_seq (welcomed g w b) = nc_input_seq g"
  "nc_log (welcomed g w b) = nc_log g @ [WelcomeReceived w, BaselineReceived b]"
  by (simp_all add: welcomed_def gd_is_ready_def gd_tick_floor_def gd_tick_floor_new_def emit_def)

lemma process_welcome:
  assumes "nc_state g = CONNECTING" and "nc_connection g"
    and "decode_server_welcome wb = Some (Value w)" and "decode_join_baseline bb = Some (Value b)"
  shows "process [EVENT_RECEIVE CHANNEL_CONTROL wb, EVENT_RECEIVE CHANNEL_CONTROL bb] g = Some (Value (welcomed g w b))"
  using assms by (simp add: process_def handle_control_packet_def welcomed_def emit_def)

lemma scene_sends:
  assumes "gd_is_ready g" and "nc_peer g" and "nc_tick_floor g \<noteq> None"
    and "i = \<lparr>ic_tick = gd_tick_floor g, ic_input_seq = gis_seq (nc_input_seq g) + 1, ic_move_dir = to_vec move_dir\<rparr>"
  obtains g' where "on_move_dir_changed move_dir g = Value g'"
    "nc_log g' = nc_log g @ [PeerSend CHANNEL_REALTIME (encode_input_cmd_proto i) False, InputSent i]"
  using assms
  by (auto simp: on_move_dir_changed_def gd_send_input_def peer_send_def gd_advance_def gd_is_ready_def
      gd_tick_floor_def gd_max_def to_vec_def Let_def)

text \<open>What the scene's match state holds after a baseline: the entities of the server's world, by id.\<close>

definition holds_world :: "GdMatchState \<Rightarrow> World \<Rightarrow> bool" where
  "holds_world ms w \<longleftrightarrow> gms_latest_tick ms = w_tick w \<and>
     (\<forall>k e. gms_entities ms k = Some (EntitySnapshotProto_from e) \<longleftrightarrow>
        e \<in> set (bl_entities (baseline w)) \<and> es_entity_id e = k)"

lemma baseline_held:
  assumes "server_reachable p enc c s" and "p = Dev \<or> length (s_entity_spawn_order s) \<le> 255"
    and "nc_welcome g = Some welcome"
  shows "\<exists>ms. on_baseline_received g (baseline_proto s) ms0 = Value ms \<and> holds_world ms (s_world s) \<and>
    gms_controlled_entity_id ms = gsw_controlled_entity_id welcome"
proof -
  have "world_wf (s_world s)"
    using server_reachable_core(3)[OF assms(1,2)] by (simp add: server_core_def players_inv_def)
  then have ids: "map ch_entity_id (w_characters (s_world s)) = map of_nat [1..<Suc (length (w_characters (s_world s)))]"
    and few: "Suc (length (w_characters (s_world s))) < 2 ^ 64" unfolding world_wf_def by blast+
  have "distinct (map ch_entity_id (w_characters (s_world s)))"
    unfolding ids by (rule distinct_of_nat_upt) (use few in simp)
  moreover have "map ep_entity_id (jb_entities (baseline_proto s)) = map ch_entity_id (w_characters (s_world s))"
    by (simp add: baseline_proto_def JoinBaseline_from_def baseline_def sorted_entity_snapshots_def
        EntitySnapshotProto_from_def to_snapshot_def)
  ultimately have "distinct (map ep_entity_id (jb_entities (baseline_proto s)))" by simp
  note found = entities_of_iff[OF this]
  have "EntitySnapshotProto_from e \<in> set (jb_entities (baseline_proto s)) \<longleftrightarrow> e \<in> set (bl_entities (baseline (s_world s)))"
    for e by (auto simp: baseline_proto_def JoinBaseline_from_def entity.enc_inject)
  moreover have "ep_entity_id (EntitySnapshotProto_from e) = es_entity_id e" for e
    by (simp add: EntitySnapshotProto_from_def)
  ultimately show ?thesis using found
    by (simp add: on_baseline_received_def assms(3) apply_baseline_def holds_world_def)
       (simp add: baseline_proto_def JoinBaseline_from_def baseline_def)
qed

lemma join_adds_entity:
  assumes "join p s = Done (s', wel)"
  obtains e where "e \<in> set (bl_entities (baseline (s_world s')))" "es_entity_id e = sw_controlled_entity_id wel"
proof -
  obtain pid w eid where s': "s' = joined s pid w eid" "spawn_character p (s_world s) pid = Done (w, eid)"
    "sw_controlled_entity_id wel = eid"
    by (rule join_Done[OF assms]) simp
  have "Character_new eid pid \<in> set (w_characters w)" using spawned_characters[OF s'(2)] by simp
  then have "to_snapshot (Character_new eid pid) \<in> set (bl_entities (baseline (s_world s')))"
    by (simp add: s'(1) joined_def baseline_def sorted_entity_snapshots_def)
  then show ?thesis by (rule that) (simp add: s'(3) to_snapshot_def Character_new_def)
qed

text \<open>A server's baseline always fits into a packet: it has at most 255 entities.\<close>

lemma baseline_fits:
  assumes "server_reachable p enc c s" and "p = Dev \<or> length (s_entity_spawn_order s) \<le> 255"
  shows "packet_fits (encode_join_baseline (baseline_proto s))"
proof (rule join_baseline_fits)
  have "players_inv c s" using server_reachable_core(3)[OF assms] by (simp add: server_core_def)
  then have "length (w_characters (s_world s)) \<le> 255"
    by (simp add: players_inv_def) (metis length_map)
  then show "length (jb_entities (baseline_proto s)) \<le> 0xFFFF"
    by (simp add: baseline_proto_def JoinBaseline_from_def baseline_def sorted_entity_snapshots_def)
  show "\<forall>e \<in> set (jb_entities (baseline_proto s)). length (ep_position e) = 2 \<and> length (ep_velocity e) = 2"
    by (auto simp: baseline_proto_def JoinBaseline_from_def EntitySnapshotProto_from_def to_vec_def)
qed

text \<open>
  C34. The Godot client joins a match and plays: the packets with which the server welcomes its peer,
  found in one frame, take the client from connecting to ready with the floor the server has on record
  for the new session; the baseline makes the scene's match state exactly the server's world, with the
  character it controls in it; and whatever finite direction the keys then give, the scene sends one packet, and the server that receives it buffers that input for
  the tick of the floor.
\<close>

theorem godot_client_joins_and_plays:
  assumes "server_reachable p (snapshot_encode n) c (lp_server st)" and "peer_exists n peer"
    and "accept_and_welcome p n st peer = Done st'" and "join p (lp_server st) = Done (s', wel)"
    and "p = Dev \<or> length (s_entity_spawn_order s') \<le> 255"
    and "welcome_encode n wel = encode_server_welcome (gd_welcome wel)"
    and "baseline_encode n (baseline_proto s') = encode_join_baseline (baseline_proto s')"
    and "godot_reachable g" and "nc_state g = CONNECTING"
    and "i = \<lparr>ic_tick = sw_target_tick_floor wel, ic_input_seq = gis_seq (nc_input_seq g) + 1, ic_move_dir = to_vec move_dir\<rparr>"
    and "input_cmd_decode n (encode_input_cmd_proto i) = Some i"
    and "sc_input_lead_ticks c \<le> sc_max_future_ticks c" and "finite_vec2 move_dir"
  shows "\<exists>g' g''. process (godot_delivered peer (drop (length (lp_sent st)) (lp_sent st'))) g = Some (Value g') \<and>
    gd_is_ready g' \<and>
    nc_log g' = nc_log g @ [WelcomeReceived (gd_welcome wel), BaselineReceived (baseline_proto (lp_server st'))] \<and>
    (\<exists>ms. on_baseline_received g' (baseline_proto (lp_server st')) match_state_new = Value ms \<and>
       holds_world ms (s_world (lp_server st')) \<and> gms_controlled_entity_id ms = sw_controlled_entity_id wel \<and>
       gms_entities ms (gms_controlled_entity_id ms) \<noteq> None) \<and>
    hm_get (s_last_emitted_floor (lp_server st')) (s_next_session_id (lp_server st)) = Some (gd_tick_floor g') \<and>
    on_move_dir_changed move_dir g' = Value g'' \<and>
    nc_log g'' = nc_log g' @ [PeerSend CHANNEL_REALTIME (encode_input_cmd_proto i) False, InputSent i] \<and>
    (\<exists>st'' q. match_event p n st' (Receive peer CHANNEL_REALTIME (encode_input_cmd_proto i)) = Done st'' \<and>
       hm_get (s_session_players (lp_server st'')) (s_next_session_id (lp_server st)) = Some q \<and>
       slot (s_input_buffer (lp_server st'')) q (gd_tick_floor g') = Some (first_entry i))"
proof -
  let ?sid = "s_next_session_id (lp_server st)"
  obtain wel' where j: "join p (lp_server st) = Done (lp_server st', wel')"
    and peers: "lp_peer_sessions st' = hm_insert peer ?sid (lp_peer_sessions st)"
    and sent: "lp_sent st' = lp_sent st @ [SendTo peer CHANNEL_CONTROL (Reliable (welcome_encode n wel')),
      SendTo peer CHANNEL_CONTROL (Reliable (baseline_encode n (baseline_proto (lp_server st'))))]"
    by (rule accept_and_welcome_is_join[OF assms(3)]) (use assms(2) in simp)
  have same: "wel' = wel" "s' = lp_server st'" using j assms(4) by simp_all
  let ?s = "lp_server st'"
  have events: "godot_delivered peer (drop (length (lp_sent st)) (lp_sent st')) =
      [EVENT_RECEIVE CHANNEL_CONTROL (encode_server_welcome (gd_welcome wel)),
       EVENT_RECEIVE CHANNEL_CONTROL (encode_join_baseline (baseline_proto ?s))]"
    using assms(6,7) by (simp add: sent same godot_delivered_def map_filter_simps)
  obtain q where q: "hm_get (s_session_players ?s) ?sid = Some q"
    and flr: "hm_get (s_last_emitted_floor ?s) ?sid = Some (sw_target_tick_floor wel)"
    and free: "\<And>t. slot (s_input_buffer ?s) q t = None" and reach: "server_reachable p (snapshot_encode n) c ?s"
    using join_free_slot[OF assms(1,4,5)] same by metis
  have few: "p = Dev \<or> length (s_entity_spawn_order ?s) \<le> 255" using assms(5) same by simp
  have decoded: "decode_server_welcome (encode_server_welcome (gd_welcome wel)) = Some (Value (gd_welcome wel))"
    "decode_join_baseline (encode_join_baseline (baseline_proto ?s)) = Some (Value (baseline_proto ?s))"
    using baseline_fits[OF reach few] by (simp_all add: server_welcome_roundtrip server_welcome_fits join_baseline_roundtrip)
  have present: "nc_connection g" "nc_peer g"
    using reachable_objects[OF assms(8)] assms(9) by (simp_all add: objects_present_def)
  let ?g = "welcomed g (gd_welcome wel) (baseline_proto ?s)"
  have "process (godot_delivered peer (drop (length (lp_sent st)) (lp_sent st'))) g = Some (Value ?g)"
    unfolding events by (rule process_welcome[OF assms(9) present(1) decoded])
  moreover have floor_eq: "gd_tick_floor ?g = sw_target_tick_floor wel" by (simp add: gd_welcome_def)
  moreover obtain g'' where "on_move_dir_changed move_dir ?g = Value g''"
    "nc_log g'' = nc_log ?g @ [PeerSend CHANNEL_REALTIME (encode_input_cmd_proto i) False, InputSent i]"
    by (rule scene_sends[of ?g i]) (simp_all add: present assms(10) gd_welcome_def)
  moreover have i: "i = input_cmd (sw_target_tick_floor wel) (sw_target_tick_floor wel) (gis_seq (nc_input_seq g) + 1) move_dir"
    by (simp add: assms(10) input_cmd_def target_tick_def)
  have "sw_target_tick_floor wel \<le> w_tick (s_world ?s) + sc_max_future_ticks c"
    using receive_from_server[OF reach few q flr] lead_in_window[OF reach few assms(12)] by simp
  from client_input_accepted[OF reach few q flr this assms(12,13) free, of "gis_seq (nc_input_seq g) + 1"]
  obtain s'' r where recv: "receive_input p ?s ?sid i = Done (s'', r)" "is_accepted r" unfolding i by blast
  then have "match_event p n st' (Receive peer CHANNEL_REALTIME (encode_input_cmd_proto i)) = Done (st'\<lparr>lp_server := s''\<rparr>)"
    using assms(11) by (simp add: peers is_new_client_def CHANNEL_REALTIME_def CHANNEL_CONTROL_def)
  moreover have "slot (s_input_buffer s'') q (ic_tick i) = Some (first_entry i)"
    by (rule accepted_fills_slot[OF recv q free])
  moreover have "hm_get (s_session_players s'') ?sid = Some q"
    using recv(1) by (rule receive_input_Done) (use q in simp_all)
  moreover obtain ms where ms: "on_baseline_received ?g (baseline_proto ?s) match_state_new = Value ms" "holds_world ms (s_world ?s)"
      "gms_controlled_entity_id ms = sw_controlled_entity_id wel"
    using baseline_held[OF reach few, of ?g "gd_welcome wel" match_state_new] by (auto simp: gd_welcome_def)
  moreover obtain e where "e \<in> set (bl_entities (baseline (s_world ?s)))" "es_entity_id e = sw_controlled_entity_id wel"
    by (rule join_adds_entity[OF j]) (simp add: same)
  then have "gms_entities ms (gms_controlled_entity_id ms) \<noteq> None"
    using ms(2,3) by (auto simp: holds_world_def)
  ultimately show ?thesis
    using flr by (intro exI[of _ ?g] exI[of _ g'']) (auto simp: assms(10))
qed

theorem godot_client_joins_and_plays_witness:
  "\<exists>n (st :: loop_state) st' st'' g g' g'' i q. server_reachable Dev (snapshot_encode n) dflt (lp_server st) \<and>
     process (godot_delivered 3 (drop (length (lp_sent st)) (lp_sent st'))) g = Some (Value g') \<and> gd_is_ready g' \<and>
     on_move_dir_changed (f64_one, f64_zero) g' = Value g'' \<and>
     match_event Dev n st' (Receive 3 CHANNEL_REALTIME (encode_input_cmd_proto i)) = Done st'' \<and>
     slot (s_input_buffer (lp_server st'')) q (gd_tick_floor g') = Some (first_entry i)"
proof -
  obtain s0 st0 sid wel where start: "server_start dflt s0"
    and "connect_event Dev demo_net \<lparr>lp_server = s0, lp_peer_sessions = [], lp_sent = []\<rparr>
      (Receive 3 CHANNEL_CONTROL []) = Done st0"
    and j: "join Dev s0 = Done (lp_server st0, wel)"
    by (rule demo_connected)
  define i where "i = \<lparr>ic_tick = sw_target_tick_floor wel, ic_input_seq = 1, ic_move_dir = to_vec (f64_one, f64_zero)\<rparr>"
  define n where "n = demo_net\<lparr>welcome_encode := \<lambda>w. encode_server_welcome (gd_welcome w),
    baseline_encode := encode_join_baseline, input_cmd_decode := \<lambda>_. Some i\<rparr>"
  define g where "g = connect_to_server True True network_client_new"
  have "nc_state network_client_new = DISCONNECTED" by (simp add: network_client_new_def)
  then have g: "godot_reachable g" unfolding g_def by (rule connecting[OF created])
  have g': "nc_state g = CONNECTING" "gis_seq (nc_input_seq g) + 1 = 1"
    by (simp_all add: g_def connect_to_server_def network_client_new_def gd_input_seq_new_def)
  let ?st = "\<lparr>lp_server = s0, lp_peer_sessions = [], lp_sent = []\<rparr>"
  have reach: "server_reachable Dev (snapshot_encode n) dflt (lp_server ?st)"
    by (simp add: server_reachable.start[OF start])
  obtain st' where acc: "accept_and_welcome Dev n ?st 3 = Done st'"
    using j by (force simp: join_def accept_and_welcome_def outcome_simps Let_def)
  have peer: "peer_exists n 3" by (simp add: n_def demo_net_def)
  have j': "join Dev (lp_server ?st) = Done (lp_server st0, wel)" using j by simp
  have few: "Dev = Dev \<or> length (s_entity_spawn_order (lp_server st0)) \<le> 255" by simp
  have codec: "welcome_encode n wel = encode_server_welcome (gd_welcome wel)"
    "baseline_encode n (baseline_proto (lp_server st0)) = encode_join_baseline (baseline_proto (lp_server st0))"
    "input_cmd_decode n (encode_input_cmd_proto i) = Some i"
    by (simp_all add: n_def)
  have i: "i = \<lparr>ic_tick = sw_target_tick_floor wel, ic_input_seq = gis_seq (nc_input_seq g) + 1,
      ic_move_dir = to_vec (f64_one, f64_zero)\<rparr>"
    by (simp only: i_def g'(2))
  have room: "sc_input_lead_ticks dflt \<le> sc_max_future_ticks dflt" by (simp add: dflt_simps)
  have dir: "finite_vec2 (f64_one, f64_zero)" by (simp add: finite_vec2_def)
  from godot_client_joins_and_plays[OF reach peer acc j' few codec(1,2) g g'(1) i codec(3) room dir]
  obtain h h' st'' q where played: "process (godot_delivered 3 (drop (length (lp_sent ?st)) (lp_sent st'))) g = Some (Value h)"
    "gd_is_ready h" "on_move_dir_changed (f64_one, f64_zero) h = Value h'"
    "match_event Dev n st' (Receive 3 CHANNEL_REALTIME (encode_input_cmd_proto i)) = Done st''"
    "slot (s_input_buffer (lp_server st'')) q (gd_tick_floor h) = Some (first_entry i)"
    by (elim exE conjE) (rule that; assumption)
  show ?thesis by (intro exI conjI) (rule reach played)+
qed

end
