(* ===== verification/TestKit.thy ===== *)
theory TestKit
  imports Sim
begin

text \<open>
  What the translations of the repository's unit tests share. A \<^verbatim>\<open>#[test]\<close> function is a
  definition of type \<open>bool outcome\<close>: the conjunction of its assertions, or the panic that the code
  under test raised; it passes if it equals \<open>Done True\<close>. Tests run in the dev profile. Float
  literals are written as bit patterns.
\<close>

section \<open>Helpers of the tests\<close>

text \<open>The loop \<^verbatim>\<open>for tick in a..b { world.advance(tick, &inputs) }\<close>.\<close>

fun advance_all :: "Tick list \<Rightarrow> StepInput list \<Rightarrow> World \<Rightarrow> World outcome" where
  "advance_all [] inputs world = Done world"
| "advance_all (tick # ticks) inputs world =
     obind (advance Dev world tick inputs) (\<lambda>(world, _). advance_all ticks inputs world)"

definition f64_negate :: "f64 \<Rightarrow> f64" where
  "f64_negate x = x + 2 ^ 63"

definition f64_abs :: "f64 \<Rightarrow> f64" where
  "f64_abs x = f64_pack False (f64_mag x)"

text \<open>\<^verbatim>\<open>(x - y).abs() < 1e-10\<close>\<close>

definition f64_close :: "f64 \<Rightarrow> f64 \<Rightarrow> bool" where
  "f64_close x y \<longleftrightarrow> f64_gt 0x3ddb7cdfd9d7bdbb (f64_abs (f64_add x (f64_negate y)))"

definition vec2_eq :: "vec2 \<Rightarrow> vec2 \<Rightarrow> bool" where
  "vec2_eq v w \<longleftrightarrow> f64_eq (fst v) (fst w) \<and> f64_eq (snd v) (snd w)"

definition towards :: "PlayerId \<Rightarrow> vec2 \<Rightarrow> StepInput" where
  "towards player_id move_dir = \<lparr>si_player_id = player_id, si_move_dir = move_dir\<rparr>"

abbreviation right :: vec2 where "right \<equiv> (f64_one, f64_zero)"
abbreviation up :: vec2 where "up \<equiv> (f64_zero, f64_one)"
abbreviation origin :: vec2 where "origin \<equiv> (f64_zero, f64_zero)"

section \<open>Evaluation\<close>

text \<open>The floating-point operations that the tests perform, each computed once.\<close>

lemma eval_add_1:
  "f64_add 0x3fb5555555555555 0x3fb5555555555555 = 0x3fc5555555555555"
  "f64_add 0x3fc5555555555555 0x3fb5555555555555 = 0x3fd0000000000000"
  "f64_add 0x3fc5555555555555 0x3fc5555555555555 = 0x3fd5555555555555"
  "f64_add 0x3fd0000000000000 0x3fb5555555555555 = 0x3fd5555555555555"
  "f64_add 0x3fd0000000000000 0x3fd0000000000000 = 0x3fe0000000000000"
  "f64_add 0x3fd5555555555555 0x3fb5555555555555 = 0x3fdaaaaaaaaaaaaa"
  by (simp_all add: f64_eval)

lemma eval_add_2:
  "f64_add 0x3fd5555555555555 0x3fc5555555555555 = 0x3fe0000000000000"
  "f64_add 0x3fdaaaaaaaaaaaaa 0x3fb5555555555555 = 0x3fdfffffffffffff"
  "f64_add 0x3fdfffffffffffff 0x3fb5555555555555 = 0x3fe2aaaaaaaaaaaa"
  "f64_add 0x3fe2aaaaaaaaaaaa 0x3fb5555555555555 = 0x3fe5555555555555"
  "f64_add 0x3fe5555555555555 0x3fb5555555555555 = 0x3fe8000000000000"
  "f64_add 0x3fe8000000000000 0x3fb5555555555555 = 0x3feaaaaaaaaaaaab"
  by (simp_all add: f64_eval)

lemma eval_add_3:
  "f64_add 0x3ff0000000000000 0xbff0000000000000 = 0"
  by (simp_all add: f64_eval)

lemma eval_div:
  "f64_div 0 0x4000000000000000 = 0"
  "f64_div 0x3ff0000000000000 0x4000000000000000 = 0x3fe0000000000000"
  "f64_div 0x3ff0000000000000 0x403e000000000000 = 0x3fa1111111111111"
  "f64_div 0x3ff0000000000000 0x404e000000000000 = 0x3f91111111111111"
  "f64_div 0x4000000000000000 0x4000000000000000 = 0x3ff0000000000000"
  by (simp_all add: f64_eval)

lemma eval_mul_1:
  "f64_mul 0x3fe0000000000000 0x3fe0000000000000 = 0x3fd0000000000000"
  "f64_mul 0x3ff0000000000000 0x3ff0000000000000 = 0x3ff0000000000000"
  "f64_mul 0x3ff0000000000000 0x4014000000000000 = 0x4014000000000000"
  "f64_mul 0x4000000000000000 0x3fe0000000000000 = 0x3ff0000000000000"
  "f64_mul 0x4000000000000000 0x4000000000000000 = 0x4010000000000000"
  "f64_mul 0x4014000000000000 0x3f91111111111111 = 0x3fb5555555555555"
  by (simp_all add: f64_eval)

lemma eval_mul_2:
  "f64_mul 0x4014000000000000 0x3fa1111111111111 = 0x3fc5555555555555"
  "f64_mul 0x4024000000000000 0x4014000000000000 = 0x4049000000000000"
  "f64_mul 0x4049000000000000 0x3f91111111111111 = 0x3feaaaaaaaaaaaab"
  by (simp_all add: f64_eval)

lemma eval_of_u32:
  "f64_of_u32 10 = 0x4024000000000000"
  "f64_of_u32 30 = 0x403e000000000000"
  "f64_of_u32 60 = 0x404e000000000000"
  by (simp_all add: f64_eval)

lemma eval_sqrt:
  "f64_sqrt 0x3ff0000000000000 = 0x3ff0000000000000"
  "f64_sqrt 0x4010000000000000 = 0x4000000000000000"
  by (simp_all add: f64_eval)

text \<open>Operations with a zero operand are left to the general laws: evaluating them is slow.\<close>

lemma f64_add_commute: "f64_add x y = f64_add y x"
  by (auto simp: f64_add_def f64_add_at_def min.commute add.commute conj_commute f64_is_infinite_def
      intro: f64_eqI)

lemma zero_facts:
  "f64_is_finite x \<Longrightarrow> \<not> f64_neg x \<Longrightarrow> f64_add 0 x = x"
  "f64_is_finite x \<Longrightarrow> \<not> f64_neg x \<Longrightarrow> f64_add x 0 = x"
  "f64_is_finite x \<Longrightarrow> \<not> f64_neg x \<Longrightarrow> f64_mul 0 x = 0"
  using f64_add_zero_right[of x] f64_add_commute[of 0 x] f64_mul_zero_left[of x]
  by (simp_all add: f64_zero_def f64_pack_def)

lemma eval_neg_zero: "f64_add 0 0x8000000000000000 = 0"
  by (simp add: f64_eval)

lemmas float_facts = eval_add_1 eval_add_2 eval_add_3 eval_div eval_mul_1 eval_mul_2 eval_of_u32 eval_sqrt

text \<open>The digest over natural numbers, which the simplifier evaluates.\<close>

unbundle bit_operations_syntax

fun fnv_nat :: "nat \<Rightarrow> nat list \<Rightarrow> nat" where
  "fnv_nat s [] = s"
| "fnv_nat s (b # bs) = fnv_nat (((s XOR b) * 1099511628211) mod 18446744073709551616) bs"

definition le_nats :: "nat \<Rightarrow> nat list" where
  "le_nats n = map (\<lambda>i. n div 256 ^ i mod 256) [0..<8]"

lemma of_nat_mod_word: "(of_nat (n mod 18446744073709551616) :: u64) = of_nat n"
  by (simp add: word_of_nat_eq_iff take_bit_eq_mod)

lemma fnv_nat_state: "foldl fnv_byte (of_nat s) bs = of_nat (fnv_nat s (map unat bs))"
proof (induction bs arbitrary: s)
  case (Cons b bs)
  have "(of_nat s :: u64) XOR ucast b = of_nat (s XOR unat b)"
    by (simp add: of_nat_xor_eq)
  then have "fnv_byte (of_nat s) b = of_nat ((s XOR unat b) * 1099511628211)"
    by (simp add: fnv_byte_def FNV1A_PRIME_def)
  also have "\<dots> = of_nat (((s XOR unat b) * 1099511628211) mod 18446744073709551616)"
    by (simp only: of_nat_mod_word)
  finally show ?case by (simp add: Cons.IH)
qed simp

lemma digest_nat: "state_digest w = of_nat (fnv_nat 14695981039346656037 (map unat (world_bytes w)))"
  using fnv_nat_state[of 14695981039346656037 "world_bytes w"]
  by (simp add: digest_world_bytes fnv1a64_def)

lemma le_nats_eq: "map unat (to_le_bytes w) = le_nats (unat w)"
proof -
  have lt: "unat w < 18446744073709551616" using unsigned_less[where w = w and 'a = nat] by simp
  have "unat (ucast (drop_bit n w) :: 8 word) = unat w div 2 ^ n mod 256" for n
    using lt by (simp add: unsigned_ucast_eq unsigned_drop_bit_eq take_bit_eq_mod flip: drop_bit_eq_div)
  then show ?thesis by (simp add: to_le_bytes_def le_nats_def power_mult)
qed

lemma le_nats_unfold:
  "le_nats n = [n mod 256, n div 256 mod 256, n div 65536 mod 256, n div 16777216 mod 256,
     n div 4294967296 mod 256, n div 1099511627776 mod 256, n div 281474976710656 mod 256,
     n div 72057594037927936 mod 256]"
  by (simp add: le_nats_def upt_rec)

lemmas canonical_eval =
  canonicalize_f64_def f64_eq_def f64_is_nan_def f64_ord_def f64_mag_def f64_neg_def inf_mag_def f64_zero_def

lemmas digest_eval =
  digest_nat world_bytes_def character_bytes_def digest_fields_def le_nats_eq le_nats_unfold canonical_eval

text \<open>Reading and moving one character at a time.\<close>

lemmas motion_eval =
  apply_movement_def move_character_def clamp_magnitude_def f64_one_def f64_zero_def MOVE_SPEED_def
  f64_le_def f64_is_nan_def f64_is_finite_def f64_ord_def f64_mag_def f64_neg_def inf_mag_def

text \<open>One tick in the dev profile, when it does not panic.\<close>

lemma advance_eval:
  "t = w_tick w \<Longrightarrow> sorted (map si_player_id inputs) \<Longrightarrow> t < 0x1000 \<Longrightarrow>
     advance Dev w t inputs =
       Done ((fold apply_movement inputs w)\<lparr>w_tick := t + 1\<rparr>,
         \<lparr>sn_tick = t + 1,
          sn_entities = sorted_entity_snapshots ((fold apply_movement inputs w)\<lparr>w_tick := t + 1\<rparr>),
          sn_digest = state_digest ((fold apply_movement inputs w)\<lparr>w_tick := t + 1\<rparr>)\<rparr>)"
proof -
  assume a: "t = w_tick w" "sorted (map si_player_id inputs)" "t < 0x1000"
  then have "unat t < 2 ^ 64 - 1" by (intro tick_less_max[of t "0x1000"])
  with a show ?thesis by (simp add: advance_Done_iff)
qed

lemma advance_all_eval:
  "t = w_tick w \<Longrightarrow> sorted (map si_player_id inputs) \<Longrightarrow> t < 0x1000 \<Longrightarrow>
     advance_all (t # ts) inputs w = advance_all ts inputs ((fold apply_movement inputs w)\<lparr>w_tick := t + 1\<rparr>)"
  by (simp add: advance_eval)

lemmas setup_eval =
  World_new_def spawn_character_def checked_plus_def tick_range_def upt_rec Character_new_def to_snapshot_def
  baseline_def sorted_entity_snapshots_def vec2_eq_def

text \<open>Running the same computation twice gives the same result, if it gives one.\<close>

lemma run_twice:
  assumes "is_done m" and "\<And>x. f x x = Done True"
  shows "obind m (\<lambda>x. obind m (f x)) = Done True"
  using assms by (cases m) auto

end
