(* ===== verification/SimTests.thy ===== *)
theory SimTests
  imports TestKit
begin

text \<open>
  The unit tests of \<^verbatim>\<open>crates/sim/src/lib.rs\<close>, translated one by one and run on the model.
\<close>

lemmas sim_eval = setup_eval motion_eval Let_def float_facts zero_facts f64_eq_def

section \<open>Movement (T0.4, T0.17)\<close>

definition test_t0_04_wasd_deterministic_movement :: "bool outcome" where
  "test_t0_04_wasd_deterministic_movement =
     obind (World_new 0 60) (\<lambda>world.
     obind (spawn_character Dev world 0) (\<lambda>(world, _).
     obind (advance_all (tick_range 0 10) [towards 0 right] world) (\<lambda>world.
       let dt = f64_div f64_one (f64_of_u32 60);
           expected_x = f64_mul (f64_mul (f64_of_u32 10) MOVE_SPEED) dt;
           expected_y = f64_zero;
           snapshot = baseline world;
           entity = bl_entities snapshot ! 0
       in Done (length (bl_entities snapshot) = 1 \<and>
                f64_eq (fst (es_position entity)) expected_x \<and>
                f64_eq (snd (es_position entity)) expected_y))))"

lemma wasd_deterministic_movement_passes: "test_t0_04_wasd_deterministic_movement = Done True"
  by (simp add: test_t0_04_wasd_deterministic_movement_def towards_def advance_all_eval sim_eval
      del: advance_all.simps(2))

definition run_simulation :: "(EntitySnapshot list \<times> u64) outcome" where
  "run_simulation =
     obind (World_new 42 60) (\<lambda>world.
     obind (spawn_character Dev world 0) (\<lambda>(world, _).
     obind (spawn_character Dev world 1) (\<lambda>(world, _).
     obind (advance_all (tick_range 0 100) [towards 0 right, towards 1 up] world) (\<lambda>world.
       let b = baseline world in Done (bl_entities b, bl_digest b)))))"

definition test_t0_04_determinism_multiple_runs :: "bool outcome" where
  "test_t0_04_determinism_multiple_runs =
     obind run_simulation (\<lambda>(entities1, digest1).
     obind run_simulation (\<lambda>(entities2, digest2).
       Done (entities1 = entities2 \<and> digest1 = digest2)))"

lemma advance_all_total:
  "sorted (map si_player_id inputs) \<Longrightarrow> w_tick w = of_nat m \<Longrightarrow> m \<le> n \<Longrightarrow> n < 0x1000 \<Longrightarrow>
     \<exists>w'. advance_all (map of_nat [m..<n]) inputs w = Done w'"
proof (induction "n - m" arbitrary: m w)
  case (Suc d)
  then have m: "[m..<n] = m # [Suc m..<n]" "m < n" by (simp_all add: upt_conv_Cons)
  have "unat (of_nat m :: u64) = m" using m(2) Suc.prems by (intro unat_of_nat_small) simp
  then have "(of_nat m :: u64) < 0x1000" using m(2) Suc.prems by (simp add: word_less_nat_alt)
  with Suc.prems m show ?case
    by (simp add: advance_all_eval del: advance_all.simps(2))
      (rule Suc.hyps(1), use Suc.hyps(2) in \<open>simp_all add: add.commute\<close>)
qed simp

lemma determinism_multiple_runs_passes: "test_t0_04_determinism_multiple_runs = Done True"
proof -
  have total: "\<exists>w'. advance_all (map of_nat [0..<100]) [towards 0 right, towards 1 up] w = Done w'"
    if "w_tick w = 0" for w
    using advance_all_total[of "[towards 0 right, towards 1 up]" w 0 100] that by (simp add: towards_def)
  have "is_done run_simulation"
    using total by (simp add: run_simulation_def World_new_def spawn_character_def checked_plus_def
        tick_range_def Character_new_def Let_def is_done_iff obind_Done_iff)
  from run_twice[OF this] show ?thesis by (simp add: test_t0_04_determinism_multiple_runs_def split_def)
qed

fun entity_of :: "EntityId \<Rightarrow> EntitySnapshot list \<Rightarrow> EntitySnapshot option" where
  "entity_of i es = find (\<lambda>e. es_entity_id e = i) es"

definition test_t0_17_playerid_non_assumption :: "bool outcome" where
  "test_t0_17_playerid_non_assumption =
     obind (World_new 0 60) (\<lambda>world.
     let player_a = 17; player_b = 99 in
     obind (spawn_character Dev world player_a) (\<lambda>(world, entity_a).
     obind (spawn_character Dev world player_b) (\<lambda>(world, entity_b).
     let inputs = [towards player_a right, towards player_b up] in
     obind (advance Dev world 0 inputs) (\<lambda>(world, snapshot).
       let dt = f64_div f64_one (f64_of_u32 60);
           expected_movement = f64_mul MOVE_SPEED dt
       in Done (0 < entity_a \<and> 0 < entity_b \<and> entity_a \<noteq> entity_b \<and>
                sn_tick snapshot = 1 \<and> length (sn_entities snapshot) = 2 \<and>
                (case (entity_of entity_a (sn_entities snapshot), entity_of entity_b (sn_entities snapshot)) of
                   (Some a, Some b) \<Rightarrow>
                     f64_eq (fst (es_position a)) expected_movement \<and>
                     f64_eq (snd (es_position a)) f64_zero \<and>
                     f64_eq (fst (es_position b)) f64_zero \<and>
                     f64_eq (snd (es_position b)) expected_movement
                 | _ \<Rightarrow> False))))))"

lemma playerid_non_assumption_passes: "test_t0_17_playerid_non_assumption = Done True"
  by (simp add: test_t0_17_playerid_non_assumption_def towards_def advance_eval sim_eval)

section \<open>StateDigest (ADR-0007)\<close>

definition test_state_digest_deterministic :: "bool outcome" where
  "test_state_digest_deterministic =
     obind (World_new 0 60) (\<lambda>world1.
     obind (World_new 0 60) (\<lambda>world2.
     obind (spawn_character Dev world1 0) (\<lambda>(world1, _).
     obind (spawn_character Dev world2 0) (\<lambda>(world2, _).
     let before = state_digest world1 = state_digest world2 in
     obind (advance Dev world1 0 [towards 0 right]) (\<lambda>(world1, _).
     obind (advance Dev world2 0 [towards 0 right]) (\<lambda>(world2, _).
       Done (before \<and> state_digest world1 = state_digest world2)))))))"

lemma state_digest_deterministic_passes: "test_state_digest_deterministic = Done True"
  by (simp add: test_state_digest_deterministic_def towards_def advance_eval sim_eval)

definition test_state_digest_changes_with_state :: "bool outcome" where
  "test_state_digest_changes_with_state =
     obind (World_new 0 60) (\<lambda>world.
     obind (spawn_character Dev world 0) (\<lambda>(world, _).
     let digest_before = state_digest world in
     obind (advance Dev world 0 [towards 0 right]) (\<lambda>(world, _).
       Done (digest_before \<noteq> state_digest world))))"

lemma state_digest_changes_with_state_passes: "test_state_digest_changes_with_state = Done True"
proof -
  have "test_state_digest_changes_with_state = Done
      (state_digest \<lparr>w_tick = 0, w_tick_rate_hz = 60, w_dt_seconds = 0x3f91111111111111,
         w_characters = [\<lparr>ch_entity_id = 1, ch_player_id = 0, ch_position = (0, 0), ch_velocity = (0, 0)\<rparr>],
         w_next_entity_id = 2, w_seed = 0\<rparr> \<noteq>
       state_digest \<lparr>w_tick = 1, w_tick_rate_hz = 60, w_dt_seconds = 0x3f91111111111111,
         w_characters = [\<lparr>ch_entity_id = 1, ch_player_id = 0, ch_position = (0x3fb5555555555555, 0),
           ch_velocity = (MOVE_SPEED, 0)\<rparr>],
         w_next_entity_id = 2, w_seed = 0\<rparr>)"
    by (simp add: test_state_digest_changes_with_state_def towards_def advance_eval sim_eval)
  also have "\<dots> = Done True" by (simp add: digest_eval MOVE_SPEED_def)
  finally show ?thesis .
qed

definition test_f64_canonicalization :: "bool outcome" where
  "test_f64_canonicalization =
     (let nan1 = 0x7ff8000000000000; nan2 = 0x7ff0000000000001;
          neg_zero = 0x8000000000000000; neg_one = 0xbff0000000000000
      in Done (canonicalize_f64 neg_zero = canonicalize_f64 f64_zero \<and> canonicalize_f64 neg_zero = 0 \<and>
               canonicalize_f64 nan1 = canonicalize_f64 nan2 \<and>
               canonicalize_f64 nan1 = 0x7ff8000000000000 \<and>
               canonicalize_f64 f64_one = f64_one \<and> canonicalize_f64 neg_one = neg_one))"

lemma f64_canonicalization_passes: "test_f64_canonicalization = Done True"
  by (simp add: test_f64_canonicalization_def canonical_eval QUIET_NAN_BITS_def f64_one_def)

section \<open>World\<close>

definition test_world_new_starts_at_tick_zero :: "bool outcome" where
  "test_world_new_starts_at_tick_zero = obind (World_new 0 60) (\<lambda>world. Done (w_tick world = 0))"

definition test_world_tick_rate :: "bool outcome" where
  "test_world_tick_rate =
     obind (World_new 0 60) (\<lambda>world.
     obind (World_new 0 30) (\<lambda>world2.
       Done (w_tick_rate_hz world = 60 \<and> w_tick_rate_hz world2 = 30)))"

definition test_spawn_character_returns_unique_ids :: "bool outcome" where
  "test_spawn_character_returns_unique_ids =
     obind (World_new 0 60) (\<lambda>world.
     obind (spawn_character Dev world 0) (\<lambda>(world, id1).
     obind (spawn_character Dev world 1) (\<lambda>(world, id2).
     obind (spawn_character Dev world 2) (\<lambda>(world, id3).
       Done (id1 \<noteq> id2 \<and> id2 \<noteq> id3 \<and> id1 \<noteq> id3)))))"

definition test_baseline_matches_tick :: "bool outcome" where
  "test_baseline_matches_tick =
     obind (World_new 0 60) (\<lambda>world. Done (bl_tick (baseline world) = w_tick world))"

definition test_advance_increments_tick :: "bool outcome" where
  "test_advance_increments_tick =
     obind (World_new 0 60) (\<lambda>world.
     obind (spawn_character Dev world 0) (\<lambda>(world, _).
     let tick0 = w_tick world in
     obind (advance Dev world 0 []) (\<lambda>(world, snapshot).
     let tick1 = w_tick world in
     obind (advance Dev world 1 []) (\<lambda>(world, snapshot2).
       Done (tick0 = 0 \<and> tick1 = 1 \<and> sn_tick snapshot = 1 \<and>
             w_tick world = 2 \<and> sn_tick snapshot2 = 2)))))"

text \<open>This test is marked \<^verbatim>\<open>should_panic\<close>.\<close>

definition test_advance_panics_on_tick_mismatch :: "World outcome" where
  "test_advance_panics_on_tick_mismatch =
     obind (World_new 0 60) (\<lambda>world.
     obind (spawn_character Dev world 0) (\<lambda>(world, _).
     obind (advance Dev world 5 []) (\<lambda>(world, _). Done world)))"

definition test_entities_sorted_by_entity_id :: "bool outcome" where
  "test_entities_sorted_by_entity_id =
     obind (World_new 0 60) (\<lambda>world.
     obind (spawn_character Dev world 99) (\<lambda>(world, _).
     obind (spawn_character Dev world 50) (\<lambda>(world, _).
     obind (spawn_character Dev world 1) (\<lambda>(world, _).
       let es = bl_entities (baseline world)
       in Done (list_all (\<lambda>i. es_entity_id (es ! (i - 1)) < es_entity_id (es ! i)) [1..<length es])))))"

definition test_t0_05_advance_takes_explicit_tick :: "bool outcome" where
  "test_t0_05_advance_takes_explicit_tick =
     obind (World_new 0 60) (\<lambda>world.
     obind (spawn_character Dev world 0) (\<lambda>(world, _).
     obind (advance Dev world 0 []) (\<lambda>(world, snapshot). Done (sn_tick snapshot = 1))))"

lemma world_tests_pass:
  "test_world_new_starts_at_tick_zero = Done True"
  "test_world_tick_rate = Done True"
  "test_spawn_character_returns_unique_ids = Done True"
  "test_baseline_matches_tick = Done True"
  "test_advance_increments_tick = Done True"
  "test_advance_panics_on_tick_mismatch = Panic (TickMismatch 0 5)"
  "test_entities_sorted_by_entity_id = Done True"
  "test_t0_05_advance_takes_explicit_tick = Done True"
  by (simp_all add: test_world_new_starts_at_tick_zero_def test_world_tick_rate_def
      test_spawn_character_returns_unique_ids_def test_baseline_matches_tick_def
      test_advance_increments_tick_def test_advance_panics_on_tick_mismatch_def
      test_entities_sorted_by_entity_id_def test_t0_05_advance_takes_explicit_tick_def
      setup_eval Let_def advance_def)

definition test_movement_clamp_magnitude :: "bool outcome" where
  "test_movement_clamp_magnitude =
     (let v = clamp_magnitude (0x4000000000000000, f64_zero) f64_one;
          v2 = clamp_magnitude (0x3fe0000000000000, 0x3fe0000000000000) f64_one;
          v3 = clamp_magnitude (f64_zero, f64_zero) f64_one
      in Done (f64_close (fst v) f64_one \<and> f64_close (snd v) f64_zero \<and>
               vec2_eq v2 (0x3fe0000000000000, 0x3fe0000000000000) \<and> vec2_eq v3 (f64_zero, f64_zero)))"

lemma movement_clamp_magnitude_passes: "test_movement_clamp_magnitude = Done True"
  by (simp add: test_movement_clamp_magnitude_def sim_eval eval_neg_zero f64_close_def f64_negate_def f64_abs_def
      f64_pack_def f64_gt_def)

definition run_with_gaps :: "u64 outcome" where
  "run_with_gaps =
     obind (World_new 0 60) (\<lambda>world.
     obind (spawn_character Dev world 0) (\<lambda>(world, _).
     obind (advance_all (tick_range 0 10) [] world) (\<lambda>world. Done (state_digest world))))"

definition test_t0_12_empty_inputs_deterministic :: "bool outcome" where
  "test_t0_12_empty_inputs_deterministic =
     obind run_with_gaps (\<lambda>digest1. obind run_with_gaps (\<lambda>digest2. Done (digest1 = digest2)))"

lemma empty_inputs_deterministic_passes: "test_t0_12_empty_inputs_deterministic = Done True"
proof -
  have "is_done run_with_gaps"
    by (simp add: run_with_gaps_def setup_eval Let_def advance_all_eval del: advance_all.simps(2))
  from run_twice[OF this] show ?thesis by (simp add: test_t0_12_empty_inputs_deterministic_def)
qed

end
