(* ===== verification/ReplayTests.thy ===== *)
theory ReplayTests
  imports TestKit ServerReplay
begin

text \<open>
  The unit tests of \<^verbatim>\<open>crates/replay/src/lib.rs\<close>, translated one by one. Recordings of several
  ticks are run on the model; that the verifier accepts or refuses them follows from what is
  proved of the verifier.
\<close>

section \<open>Recording by hand\<close>

definition applied_at :: "Tick \<Rightarrow> PlayerId \<Rightarrow> vec2 \<Rightarrow> bool \<Rightarrow> AppliedInput" where
  "applied_at tick player_id move_dir is_fallback =
     \<lparr>ai_tick = tick, ai_player_id = player_id, ai_move_dir = move_dir, ai_is_fallback = is_fallback\<rparr>"

text \<open>The tests' loop: record the inputs of a tick, then advance the world by it.\<close>

fun record_ticks ::
  "(Tick \<Rightarrow> AppliedInput list) \<Rightarrow> (Tick \<Rightarrow> StepInput list) \<Rightarrow> Tick list \<Rightarrow> ReplayRecorder \<Rightarrow> World \<Rightarrow>
     (ReplayRecorder \<times> World) outcome" where
  "record_ticks applied inputs [] recorder world = Done (recorder, world)"
| "record_ticks applied inputs (tick # ticks) recorder world =
     (let recorder = fold record_input (applied tick) recorder in
      obind (advance Dev world tick (inputs tick)) (\<lambda>(world, _).
        record_ticks applied inputs ticks recorder world))"

lemma record_ticks_eq:
  "(\<And>t. sorted (map si_player_id (inputs t))) \<Longrightarrow> w_tick w = of_nat m \<Longrightarrow> m \<le> n \<Longrightarrow> n < 0x1000 \<Longrightarrow>
     record_ticks applied inputs (map of_nat [m..<n]) r w =
       Done (fold record_input (concat (map applied (map of_nat [m..<n]))) r,
         play inputs (map of_nat [m..<n]) w)"
proof (induction "n - m" arbitrary: m r w)
  case (Suc d)
  then have m: "[m..<n] = m # [Suc m..<n]" "m < n" by (simp_all add: upt_conv_Cons)
  have "unat (of_nat m :: u64) = m" using m(2) Suc.prems by (intro unat_of_nat_small) simp
  then have "(of_nat m :: u64) < 0x1000" using m(2) Suc.prems by (simp add: word_less_nat_alt)
  then have "advance Dev w (of_nat m) (inputs (of_nat m)) =
      Done (step_world (inputs (of_nat m)) w,
        \<lparr>sn_tick = of_nat m + 1, sn_entities = sorted_entity_snapshots (step_world (inputs (of_nat m)) w),
         sn_digest = state_digest (step_world (inputs (of_nat m)) w)\<rparr>)"
    using Suc.prems by (simp add: advance_eval step_world_def)
  moreover have "w_tick (step_world (inputs (of_nat m)) w) = of_nat (Suc m)"
    using Suc.prems(2) by (simp add: step_world_def add.commute)
  moreover have "d = n - Suc m" using Suc.hyps(2) by simp
  ultimately show ?case
    using Suc.hyps(1)[of "Suc m" "step_world (inputs (of_nat m)) w"] Suc.prems m by (simp add: play_def)
qed (simp add: play_def)

lemma two_players:
  "obind (World_new seed 60) (\<lambda>w. obind (spawn_character Dev w 0) (\<lambda>(w, e1).
     obind (spawn_character Dev w 1) (\<lambda>(w, e2). f w e1 e2))) =
   f (spawned (fresh_world seed 60) [0, 1]) 1 2"
  by (simp add: World_new_eq spawn_character_def checked_plus_def fresh_world_def Character_new_def Let_def)

lemma one_player:
  "obind (World_new seed 60) (\<lambda>w. obind (spawn_character Dev w 0) (\<lambda>(w, e). f w e)) =
   f (spawned (fresh_world seed 60) [0]) 1"
  by (simp add: World_new_eq spawn_character_def checked_plus_def fresh_world_def Character_new_def Let_def)

lemma spawned_tick [simp]: "w_tick (spawned w ps) = w_tick w"
  by (induction ps arbitrary: w) simp_all

text \<open>A quantifier over the ticks of a short recording, as a list.\<close>

lemma ticks_below: "(\<forall>t < c. P t) \<longleftrightarrow> list_all P (tick_range 0 c)" for c :: u64
  by (simp add: list_all_iff set_tick_range)

section \<open>The test artifact\<close>

definition test_config :: ReplayConfig where
  "test_config =
     \<lparr>rc_seed = 42, rc_tick_rate_hz = 60, rc_rng_algorithm = ''none'', rc_test_mode = False,
      rc_test_player_ids = []\<rparr>"

definition create_test_artifact :: "ReplayArtifact outcome" where
  "create_test_artifact =
     (let recorder = ReplayRecorder_new test_config in
      obind (World_new 42 60) (\<lambda>world.
      obind (spawn_character Dev world 0) (\<lambda>(world, entity1).
      obind (spawn_character Dev world 1) (\<lambda>(world, entity2).
      let recorder = record_spawn 0 entity1 recorder;
          recorder = record_spawn 1 entity2 recorder;
          recorder = record_baseline (baseline world) recorder
      in obind (record_ticks (\<lambda>tick. [applied_at tick 0 right False, applied_at tick 1 up False])
                  (\<lambda>tick. [towards 0 right, towards 1 up]) (tick_range 0 10) recorder world)
           (\<lambda>(recorder, world).
              Done (recorder_finalize recorder (state_digest world) (w_tick world) ''complete''))))))"

text \<open>What the loop leaves in the recorder, for any inputs.\<close>

definition recorded :: "ReplayConfig \<Rightarrow> PlayerId list \<Rightarrow> AppliedInput list \<Rightarrow> ReplayRecorder" where
  "recorded config ps as =
     \<lparr>rr_config = config, rr_entity_spawn_order = ps, rr_player_entity_mapping = number_from 1 ps,
      rr_initial_baseline = Some (baseline (spawned (fresh_world (rc_seed config) (rc_tick_rate_hz config)) ps)),
      rr_inputs = as, rr_build_fingerprint = None\<rparr>"

lemma recorded_verifies:
  assumes "complete_stream ps c as" and "distinct ps" and "0 < rc_tick_rate_hz config"
    and "list_all (\<lambda>t. inputs_at as t = inputs t) (tick_range 0 c)"
    and "vo_current_build opts = None"
  shows "verify_replay p
      (recorder_finalize (recorded config ps as)
        (state_digest (play inputs (tick_range 0 c) (spawned (fresh_world (rc_seed config) (rc_tick_rate_hz config)) ps)))
        c reason) opts = Done (Inr ())"
proof -
  have same: "played (recorded config ps as) ps c =
      play inputs (tick_range 0 c) (spawned (fresh_world (rc_seed config) (rc_tick_rate_hz config)) ps)"
    unfolding played_def by (simp add: recorded_def) (rule play_cong, use assms(4) in \<open>simp add: list_all_iff\<close>)
  show ?thesis
    unfolding same[symmetric]
    by (rule faithful_recording_verifies)
       (use assms in \<open>simp_all add: faithful_recording_def recorded_def build_compatible_def split: option.split\<close>)
qed

definition two_inputs :: "Tick \<Rightarrow> AppliedInput list" where
  "two_inputs tick = [applied_at tick 0 right False, applied_at tick 1 up False]"

definition test_artifact :: ReplayArtifact where
  "test_artifact =
     recorder_finalize (recorded test_config [0, 1] (concat (map two_inputs (tick_range 0 10))))
       (state_digest (play (\<lambda>_. [towards 0 right, towards 1 up]) (tick_range 0 10)
         (spawned (fresh_world 42 60) [0, 1]))) 10 ''complete''"

lemmas recording_eval =
  recorded_def ReplayRecorder_new_def record_spawn_def record_baseline_def fold_record_input number_from_def
  upt_rec Let_def

lemma record_ticks_upto:
  assumes "\<And>t. sorted (map si_player_id (inputs t))" and "n < 0x1000"
  shows "record_ticks applied inputs (tick_range 0 (of_nat n)) r (spawned (fresh_world seed hz) ps) =
    Done (fold record_input (concat (map applied (tick_range 0 (of_nat n)))) r,
      play inputs (tick_range 0 (of_nat n)) (spawned (fresh_world seed hz) ps))"
proof -
  have "unat (of_nat n :: u64) = n" using assms(2) by (intro unat_of_nat_small) simp
  then have "tick_range 0 (of_nat n) = map of_nat [0..<n]" by (simp add: tick_range_def)
  then show ?thesis using record_ticks_eq[OF assms(1), of "spawned (fresh_world seed hz) ps" 0 n] assms(2) by simp
qed

lemma play_tick: "w_tick (play inputs ts w) = w_tick w + of_nat (length ts)"
  by (induction ts arbitrary: w) (simp_all add: play_def step_world_def)

lemma create_test_artifact_eq: "create_test_artifact = Done test_artifact"
  using record_ticks_upto[of "\<lambda>_. [towards 0 right, towards 1 up]" 10 two_inputs]
  by (simp add: create_test_artifact_def two_players test_artifact_def play_tick recording_eval
      two_inputs_def[abs_def] test_config_def towards_def length_tick_range del: spawned.simps)

lemma test_artifact_verifies: "vo_current_build opts = None \<Longrightarrow> verify_replay p test_artifact opts = Done (Inr ())"
  unfolding test_artifact_def
  using recorded_verifies[of "[0, 1]" 10 "concat (map two_inputs (tick_range 0 10))" test_config
      "\<lambda>_. [towards 0 right, towards 1 up]" opts p]
  by (simp add: complete_stream_def ticks_below test_config_def tick_range_def upt_rec two_inputs_def
      applied_at_def inputs_at_def to_step_input_def towards_def)

section \<open>The tests\<close>

abbreviation lenient :: VerifyOptions where
  "lenient \<equiv> \<lparr>vo_strict_build_check = False, vo_current_build = None\<rparr>"

definition test_t0_08_replay_artifact_has_required_fields :: "bool outcome" where
  "test_t0_08_replay_artifact_has_required_fields =
     obind create_test_artifact (\<lambda>artifact. Done
       (ra_replay_format_version artifact = 1 \<and> ra_initial_baseline artifact \<noteq> None \<and>
        ra_seed artifact = 42 \<and> ra_rng_algorithm artifact \<noteq> [] \<and> ra_tick_rate_hz artifact = 60 \<and>
        ra_state_digest_algo_id artifact = ''statedigest-v0-fnv1a64-le-f64canon-eidasc-posvel'' \<and>
        length (ra_entity_spawn_order artifact) = 2 \<and>
        length (ra_player_entity_mapping artifact) = 2 \<and>
        ra_tuning_parameters artifact \<noteq> [] \<and> length (ra_inputs artifact) = 20 \<and>
        ra_checkpoint_tick artifact = 10 \<and> ra_end_reason artifact = ''complete''))"

lemma replay_artifact_has_required_fields_passes:
  "test_t0_08_replay_artifact_has_required_fields = Done True"
  by (simp add: test_t0_08_replay_artifact_has_required_fields_def create_test_artifact_eq test_artifact_def
      recorder_finalize_def recorded_def test_config_def STATE_DIGEST_ALGO_ID_def number_from_def
      tick_range_def two_inputs_def upt_rec)

definition test_t0_09_replay_verification_passes :: "bool outcome" where
  "test_t0_09_replay_verification_passes =
     obind create_test_artifact (\<lambda>artifact.
     obind (verify_replay Dev artifact lenient) (\<lambda>result. Done (result = Inr ())))"

lemma replay_verification_passes_passes: "test_t0_09_replay_verification_passes = Done True"
  by (simp add: test_t0_09_replay_verification_passes_def create_test_artifact_eq test_artifact_verifies)

fun is_anchor_mismatch :: "VerifyError + unit \<Rightarrow> bool" where
  "is_anchor_mismatch (Inl (InitializationAnchorMismatch _ _)) = True"
| "is_anchor_mismatch _ = False"

definition test_t0_10_initialization_anchor_failure :: "bool outcome" where
  "test_t0_10_initialization_anchor_failure =
     obind create_test_artifact (\<lambda>artifact.
     let artifact = artifact\<lparr>ra_initial_baseline :=
           map_option (\<lambda>b. b\<lparr>jb_digest := jb_digest b XOR 0xDEADBEEF\<rparr>) (ra_initial_baseline artifact)\<rparr>
     in obind (verify_replay Dev artifact lenient) (\<lambda>result. Done (is_anchor_mismatch result)))"

lemma xor_changes: "x XOR n = x \<longleftrightarrow> n = 0" for x n :: u64
  using xor_left_cancel[of x n 0] by simp

text \<open>The baseline's digest is looked at only after the stream and the spawns have been checked.\<close>

lemma changed_anchor_rejected:
  assumes "verify_replay p a opts = Done (Inr ())" and "fits_memory a"
    and "ra_initial_baseline a = Some b" and "d \<noteq> jb_digest b"
  shows "verify_replay p (a\<lparr>ra_initial_baseline := Some (b\<lparr>jb_digest := d\<rparr>)\<rparr>) opts =
    Done (Inl (InitializationAnchorMismatch d (jb_digest b)))"
proof -
  let ?b = "b\<lparr>jb_digest := d\<rparr>"
  let ?a = "a\<lparr>ra_initial_baseline := Some ?b\<rparr>"
  obtain as where acc: "check_build a opts = Inr ()" "0 < ra_tick_rate_hz a" "stream_valid a b"
    "outcome_reproduced a b as"
    using assms(1,3) unfolding verify_replay_accepts_iff[OF assms(2)] by auto
  have mem: "fits_memory ?a" using assms(2) by (simp add: fits_memory_def)
  have chk: "check_build ?a opts = Inr ()" using acc(1) by (simp add: check_build_def)
  have valid: "stream_valid ?a ?b"
    using acc(3) by (simp add: stream_valid_def artifact_players_def input_count_def)
  have start: "start_world ?a = start_world a" by (simp add: start_world_def)
  have agree: "spawns_agree (player_entity_map ?a) 1 (ra_entity_spawn_order ?a)"
    and digest: "state_digest (start_world a) = jb_digest b"
    using acc(4) by (simp_all add: outcome_reproduced_def player_entity_map_def)
  have "verify_replay p ?a opts = verify_from p ?a ?b (start_world ?a)"
    by (rule verify_replay_eq(1)[OF mem chk _ valid _ agree]) (use acc(2) in simp_all)
  also have "\<dots> = Done (Inl (InitializationAnchorMismatch d (jb_digest b)))"
    using start_world_wf[OF acc(2) assms(2)] assms(4) by (simp add: verify_from_eq start digest)
  finally show ?thesis .
qed

lemma initialization_anchor_failure_passes: "test_t0_10_initialization_anchor_failure = Done True"
proof -
  have "fits_memory test_artifact" by (simp add: fits_memory_def test_artifact_def recorded_def)
  moreover obtain b where b: "ra_initial_baseline test_artifact = Some b"
    by (simp add: test_artifact_def recorded_def)
  moreover have "jb_digest b XOR 0xDEADBEEF \<noteq> jb_digest b"
    by (simp add: xor_changes)
  ultimately have "verify_replay Dev
      (test_artifact\<lparr>ra_initial_baseline := Some (b\<lparr>jb_digest := jb_digest b XOR 0xDEADBEEF\<rparr>)\<rparr>) lenient =
      Done (Inl (InitializationAnchorMismatch (jb_digest b XOR 0xDEADBEEF) (jb_digest b)))"
    using changed_anchor_rejected[OF test_artifact_verifies] by simp
  then show ?thesis by (simp add: test_t0_10_initialization_anchor_failure_def create_test_artifact_eq b)
qed

definition test_t0_12_lki_determinism :: "bool outcome" where
  "test_t0_12_lki_determinism =
     (let recorder = ReplayRecorder_new ReplayConfig_default;
          is_fallback = (\<lambda>tick. tick mod 3 = 0);
          dir = (\<lambda>tick. if is_fallback tick then origin else right)
      in obind (World_new 0 60) (\<lambda>world.
      obind (spawn_character Dev world 0) (\<lambda>(world, entity1).
      let recorder = record_spawn 0 entity1 recorder;
          recorder = record_baseline (baseline world) recorder
      in obind (record_ticks (\<lambda>tick. [applied_at tick 0 (dir tick) (is_fallback tick)])
                  (\<lambda>tick. [towards 0 (dir tick)]) (tick_range 0 10) recorder world)
           (\<lambda>(recorder, world).
             let artifact = recorder_finalize recorder (state_digest world) (w_tick world) ''complete''
             in obind (verify_replay Dev artifact lenient) (\<lambda>result. Done (result = Inr ()))))))"

text \<open>A recording with one or two players, as the loop leaves it, is accepted.\<close>

lemma recorded_by_loop:
  "fold record_input as
     (record_baseline (baseline (spawned (fresh_world (rc_seed config) (rc_tick_rate_hz config)) [0]))
       (record_spawn 0 1 (ReplayRecorder_new config))) = recorded config [0] as"
  "fold record_input as
     (record_baseline (baseline (spawned (fresh_world (rc_seed config) (rc_tick_rate_hz config)) [0, 1]))
       (record_spawn 1 2 (record_spawn 0 1 (ReplayRecorder_new config)))) = recorded config [0, 1] as"
  by (simp_all add: recording_eval del: spawned.simps)

lemma lki_determinism_passes: "test_t0_12_lki_determinism = Done True"
proof -
  let ?dir = "\<lambda>tick :: u64. if tick mod 3 = 0 then origin else right"
  let ?applied = "\<lambda>tick. [applied_at tick 0 (?dir tick) (tick mod 3 = 0)]"
  let ?as = "concat (map ?applied (tick_range 0 10))" and ?c = ReplayConfig_default
  let ?w = "play (\<lambda>tick. [towards 0 (?dir tick)]) (tick_range 0 10) (spawned (fresh_world 0 60) [0])"
  have "verify_replay Dev (recorder_finalize (recorded ?c [0] ?as) (state_digest ?w) 10 ''complete'') lenient =
      Done (Inr ())"
    using recorded_verifies[of "[0]" 10 ?as ?c "\<lambda>tick. [towards 0 (?dir tick)]" lenient Dev]
    by (simp add: complete_stream_def ticks_below ReplayConfig_default_def tick_range_def upt_rec
        applied_at_def inputs_at_def to_step_input_def towards_def)
  then show ?thesis
    using record_ticks_upto[of "\<lambda>tick. [towards 0 (?dir tick)]" 10 ?applied]
      recorded_by_loop(1)[of ?as ?c]
    by (simp add: test_t0_12_lki_determinism_def one_player play_tick Let_def ReplayConfig_default_def
        towards_def length_tick_range del: spawned.simps)
qed

definition test_t0_12a_noncanonical_input_order :: "bool outcome" where
  "test_t0_12a_noncanonical_input_order =
     (let recorder = ReplayRecorder_new ReplayConfig_default
      in obind (World_new 0 60) (\<lambda>world.
      obind (spawn_character Dev world 0) (\<lambda>(world, entity1).
      obind (spawn_character Dev world 1) (\<lambda>(world, entity2).
      let recorder = record_spawn 0 entity1 recorder;
          recorder = record_spawn 1 entity2 recorder;
          recorder = record_baseline (baseline world) recorder
      in obind (record_ticks (\<lambda>tick. [applied_at tick 1 up False, applied_at tick 0 right False])
                  (\<lambda>tick. [towards 0 right, towards 1 up]) (tick_range 0 5) recorder world)
           (\<lambda>(recorder, world).
             let artifact = recorder_finalize recorder (state_digest world) (w_tick world) ''complete''
             in obind (verify_replay Dev artifact lenient) (\<lambda>result. Done (result = Inr ())))))))"

lemma noncanonical_input_order_passes: "test_t0_12a_noncanonical_input_order = Done True"
proof -
  let ?applied = "\<lambda>tick. [applied_at tick 1 up False, applied_at tick 0 right False]"
  let ?as = "concat (map ?applied (tick_range 0 5))" and ?c = ReplayConfig_default
  let ?w = "play (\<lambda>_. [towards 0 right, towards 1 up]) (tick_range 0 5) (spawned (fresh_world 0 60) [0, 1])"
  have "verify_replay Dev (recorder_finalize (recorded ?c [0, 1] ?as) (state_digest ?w) 5 ''complete'') lenient =
      Done (Inr ())"
    using recorded_verifies[of "[0, 1]" 5 ?as ?c "\<lambda>_. [towards 0 right, towards 1 up]" lenient Dev]
    by (simp add: complete_stream_def ticks_below ReplayConfig_default_def tick_range_def upt_rec
        applied_at_def inputs_at_def to_step_input_def towards_def)
  then show ?thesis
    using record_ticks_upto[of "\<lambda>_. [towards 0 right, towards 1 up]" 5 ?applied]
      recorded_by_loop(2)[of ?as ?c]
    by (simp add: test_t0_12a_noncanonical_input_order_def two_players play_tick Let_def ReplayConfig_default_def
        towards_def length_tick_range del: spawned.simps)
qed

definition test_applied_input_conversion :: "bool outcome" where
  "test_applied_input_conversion =
     (let input = applied_at 100 5 (0x3fe0000000000000, 0xbfe0000000000000) True
      in Done (AppliedInput_try_from (AppliedInputProto_from input) = Inr input))"

lemma applied_input_conversion_passes: "test_applied_input_conversion = Done True"
  by (simp add: test_applied_input_conversion_def AppliedInputProto_from_def AppliedInput_try_from_def applied_at_def)

fun is_stream_invalid :: "VerifyError + unit \<Rightarrow> bool" where
  "is_stream_invalid (Inl (InputStreamInvalid _)) = True"
| "is_stream_invalid _ = False"

definition test_input_stream_validation_missing :: "bool outcome" where
  "test_input_stream_validation_missing =
     obind create_test_artifact (\<lambda>artifact.
     let artifact = artifact\<lparr>ra_inputs :=
           filter (\<lambda>i. \<not> (aip_tick i = 5 \<and> aip_player_id i = 0)) (ra_inputs artifact)\<rparr>
     in obind (verify_replay Dev artifact VerifyOptions_default) (\<lambda>result. Done (is_stream_invalid result)))"

definition test_input_stream_validation_duplicate :: "bool outcome" where
  "test_input_stream_validation_duplicate =
     obind create_test_artifact (\<lambda>artifact.
     let artifact = artifact\<lparr>ra_inputs := ra_inputs artifact @
           [\<lparr>aip_tick = 5, aip_player_id = 0, aip_move_dir = [f64_one, f64_zero], aip_is_fallback = False\<rparr>]\<rparr>
     in obind (verify_replay Dev artifact VerifyOptions_default) (\<lambda>result. Done (is_stream_invalid result)))"

lemma first_error_Some: "first_error f xs = Some e \<Longrightarrow> \<exists>x \<in> set xs. f x = Some e"
  by (induction xs) (auto split: option.splits)

lemma bad_stream_rejected:
  assumes "check_build a opts = Inr ()" and "ra_initial_baseline a = Some b" and "\<not> stream_valid a b"
  shows "\<exists>reason. verify_replay p a opts = Done (Inl (InputStreamInvalid reason))"
proof -
  have "validate_input_stream a \<noteq> Inr ()" using assms(2,3) by (simp add: validate_input_stream_iff)
  then obtain e where e: "validate_input_stream a = Inl e" by (cases "validate_input_stream a") auto
  then have "\<exists>reason. e = InputStreamInvalid reason"
    using assms(2)
    by (auto simp: validate_input_stream_def Let_def check_pair_def check_member_def missing_input_def
        duplicate_input_def outside_range_def unknown_player_def
        split: option.splits if_splits dest!: first_error_Some)
  with e assms(1) show ?thesis by (auto simp: verify_replay_def)
qed

lemma broken_stream_passes:
  assumes "input_count (test_artifact\<lparr>ra_inputs := is'\<rparr>) 0 5 \<noteq> 1"
  shows "\<exists>reason. verify_replay Dev (test_artifact\<lparr>ra_inputs := is'\<rparr>) VerifyOptions_default =
    Done (Inl (InputStreamInvalid reason))"
proof -
  let ?a = "test_artifact\<lparr>ra_inputs := is'\<rparr>"
  obtain b where b: "ra_initial_baseline ?a = Some b" and "jb_tick b = 0"
    by (simp add: test_artifact_def recorded_def JoinBaseline_from_def baseline_def)
  moreover have "0 \<in> set (artifact_players ?a)" "ra_checkpoint_tick ?a = 10"
    by (simp_all add: artifact_players_def test_artifact_def recorder_finalize_def recorded_def number_from_def upt_rec)
  ultimately have "\<not> stream_valid ?a b"
    using assms by (auto simp: stream_valid_def intro!: bexI[of _ 0] exI[of _ 5])
  moreover have "check_build ?a VerifyOptions_default = Inr ()"
    by (simp add: check_build_def test_artifact_def recorder_finalize_def recorded_def)
  ultimately show ?thesis using bad_stream_rejected b by blast
qed

lemma input_stream_validation_passes:
  "test_input_stream_validation_missing = Done True"
  "test_input_stream_validation_duplicate = Done True"
proof -
  let ?missing = "filter (\<lambda>i. \<not> (aip_tick i = 5 \<and> aip_player_id i = 0)) (ra_inputs test_artifact)"
    and ?double = "ra_inputs test_artifact @
      [\<lparr>aip_tick = 5, aip_player_id = 0, aip_move_dir = [f64_one, f64_zero], aip_is_fallback = False\<rparr>]"
  have inputs: "ra_inputs test_artifact = map AppliedInputProto_from (concat (map two_inputs (tick_range 0 10)))"
    by (simp add: test_artifact_def recorded_def)
  have "input_count (test_artifact\<lparr>ra_inputs := ?missing\<rparr>) 0 5 = 0"
    by (simp add: input_count_def filter_empty_conv)
  moreover have "input_count (test_artifact\<lparr>ra_inputs := ?double\<rparr>) 0 5 = 2"
    by (simp add: input_count_def inputs tick_range_def upt_rec two_inputs_def applied_at_def AppliedInputProto_from_def)
  ultimately show "test_input_stream_validation_missing = Done True"
    and "test_input_stream_validation_duplicate = Done True"
    using broken_stream_passes[of ?missing] broken_stream_passes[of ?double]
    by (auto simp: test_input_stream_validation_missing_def test_input_stream_validation_duplicate_def
        create_test_artifact_eq)
qed

end
