(* ===== verification/InputTests.thy ===== *)
theory InputTests
  imports TestKit Validation
begin

text \<open>
  The unit tests of \<^verbatim>\<open>crates/server/src/input_buffer.rs\<close> and \<^verbatim>\<open>validation.rs\<close>, translated one by
  one and run on the model.
\<close>

section \<open>Input buffer\<close>

definition has_entry :: "InputBuffer \<Rightarrow> PlayerId \<Rightarrow> Tick \<Rightarrow> bool" where
  "has_entry ib player_id tick = (hm_get (ib_buffer ib) (player_id, tick) \<noteq> None)"

definition make_input :: "Tick \<Rightarrow> u64 \<Rightarrow> f64 \<Rightarrow> f64 \<Rightarrow> InputCmdProto" where
  "make_input tick seq x y = \<lparr>ic_tick = tick, ic_input_seq = seq, ic_move_dir = [x, y]\<rparr>"

text \<open>A statement \<^verbatim>\<open>buffer.try_buffer(player, input);\<close> whose result is not used.\<close>

definition buffered :: "PlayerId \<Rightarrow> InputCmdProto \<Rightarrow> InputBuffer \<Rightarrow> InputBuffer" where
  "buffered player_id input ib = snd (try_buffer ib player_id input)"

definition test_first_input_accepted :: "bool outcome" where
  "test_first_input_accepted =
     obind (InputBuffer_new ValidationConfig_default) (\<lambda>buffer.
       let (result, buffer) = try_buffer buffer 0 (make_input 5 1 f64_one f64_zero)
       in Done (result = BufAccepted False \<and> has_entry buffer 0 5))"

definition test_higher_seq_replaces :: "bool outcome" where
  "test_higher_seq_replaces =
     obind (InputBuffer_new ValidationConfig_default) (\<lambda>buffer.
       let buffer = buffered 0 (make_input 5 1 f64_one f64_zero) buffer;
           buffer = buffered 0 (make_input 5 2 f64_zero f64_one) buffer
       in Done (case fst (take_input buffer 0 5) of
                  None \<Rightarrow> False
                | Some taken \<Rightarrow> ic_input_seq taken = 2 \<and> ic_move_dir taken = [f64_zero, f64_one]))"

definition test_lower_seq_ignored :: "bool outcome" where
  "test_lower_seq_ignored =
     obind (InputBuffer_new ValidationConfig_default) (\<lambda>buffer.
       let buffer = buffered 0 (make_input 5 5 f64_one f64_zero) buffer;
           buffer = buffered 0 (make_input 5 3 f64_zero f64_one) buffer
       in Done (case fst (take_input buffer 0 5) of
                  None \<Rightarrow> False
                | Some taken \<Rightarrow> ic_input_seq taken = 5 \<and> ic_move_dir taken = [f64_one, f64_zero]))"

definition test_equal_seq_causes_tie :: "bool outcome" where
  "test_equal_seq_causes_tie =
     obind (InputBuffer_new ValidationConfig_default) (\<lambda>buffer.
       let buffer = buffered 0 (make_input 5 5 f64_one f64_zero) buffer;
           buffer = buffered 0 (make_input 5 5 f64_zero f64_one) buffer
       in Done (fst (take_input buffer 0 5) = None))"

definition test_tie_cleared_by_higher_seq :: "bool outcome" where
  "test_tie_cleared_by_higher_seq =
     obind (InputBuffer_new \<lparr>vc_max_future_ticks = 120, vc_input_rate_limit_per_sec = 180, vc_tick_rate_hz = 60\<rparr>)
       (\<lambda>buffer.
         let buffer = buffered 0 (make_input 5 5 f64_one f64_zero) buffer;
             buffer = buffered 0 (make_input 5 5 f64_zero f64_one) buffer;
             buffer = buffered 0 (make_input 5 8 0x3fe0000000000000 0x3fe0000000000000) buffer
         in Done (case fst (take_input buffer 0 5) of None \<Rightarrow> False | Some taken \<Rightarrow> ic_input_seq taken = 8))"

fun offer_counting :: "u64 list \<Rightarrow> InputBuffer \<Rightarrow> nat \<Rightarrow> nat \<Rightarrow> nat \<times> nat" where
  "offer_counting [] buffer accepted dropped = (accepted, dropped)"
| "offer_counting (seq # seqs) buffer accepted dropped =
     (let (result, buffer) = try_buffer buffer 0 (make_input 5 seq f64_one f64_zero)
      in if result = RateLimited then offer_counting seqs buffer accepted (dropped + 1)
         else offer_counting seqs buffer (accepted + 1) dropped)"

definition test_rate_limiting :: "bool outcome" where
  "test_rate_limiting =
     obind (InputBuffer_new \<lparr>vc_max_future_ticks = 120, vc_input_rate_limit_per_sec = 120, vc_tick_rate_hz = 60\<rparr>)
       (\<lambda>buffer.
         let (accepted, dropped) = offer_counting [1, 2, 3, 4, 5] buffer 0 0
         in Done (accepted = 2 \<and> dropped = 3))"

text \<open>\<^verbatim>\<open>powi(2)\<close> is written as the square.\<close>

definition test_magnitude_clamping :: "bool outcome" where
  "test_magnitude_clamping =
     obind (InputBuffer_new ValidationConfig_default) (\<lambda>buffer.
       let (result, buffer) = try_buffer buffer 0 (make_input 5 1 0x4000000000000000 f64_zero)
       in Done (result = BufAccepted True \<and>
                (case fst (take_input buffer 0 5) of
                   None \<Rightarrow> False
                 | Some taken \<Rightarrow> f64_close (f64_sqrt (dir_mag_sq (ic_move_dir taken))) f64_one)))"

definition test_eviction :: "bool outcome" where
  "test_eviction =
     obind (InputBuffer_new ValidationConfig_default) (\<lambda>buffer.
       let buffer = buffered 0 (make_input 5 1 f64_one f64_zero) buffer;
           buffer = buffered 0 (make_input 10 1 f64_one f64_zero) buffer;
           buffer = buffered 0 (make_input 15 1 f64_one f64_zero) buffer;
           buffer = evict_before buffer 10
       in Done (\<not> has_entry buffer 0 5 \<and> has_entry buffer 0 10 \<and> has_entry buffer 0 15))"

definition test_t0_11_future_input_buffered :: "bool outcome" where
  "test_t0_11_future_input_buffered =
     obind (InputBuffer_new ValidationConfig_default) (\<lambda>buffer.
       let buffer = buffered 0 (make_input 5 1 f64_one f64_zero) buffer;
           there = has_entry buffer 0 5;
           (now, buffer) = take_input buffer 0 0;
           (later, buffer) = take_input buffer 0 5
       in Done (there \<and> now = None \<and> later \<noteq> None))"

definition test_t0_13_inputseq_tie_uses_lki :: "bool outcome" where
  "test_t0_13_inputseq_tie_uses_lki =
     obind (InputBuffer_new ValidationConfig_default) (\<lambda>buffer.
       let buffer = buffered 0 (make_input 5 10 f64_one f64_zero) buffer;
           buffer = buffered 0 (make_input 5 10 f64_zero f64_one) buffer
       in Done (fst (take_input buffer 0 5) = None))"

lemmas magnitude_eval =
  float_facts zero_facts f64_gt_def f64_one_def f64_zero_def f64_read_eval

text \<open>The directions of the tests and what clamping does to them.\<close>

lemma clamp_facts:
  "needs_magnitude_clamp [f64_one, f64_zero] = False"
  "needs_magnitude_clamp [f64_zero, f64_one] = False"
  "needs_magnitude_clamp [0x3fe0000000000000, 0x3fe0000000000000] = False"
  "needs_magnitude_clamp [0x4000000000000000, f64_zero] = True"
  "buffer_clamp_magnitude [0x4000000000000000, f64_zero] = [f64_one, f64_zero]"
  by (simp_all add: needs_magnitude_clamp_def buffer_clamp_magnitude_def dir_mag_sq_def magnitude_eval)

lemma limit_facts: "\<not> (4 :: u32) \<le> 1" "\<not> (3 :: u32) \<le> 1" "\<not> (2 :: u32) \<le> 1"
  by (simp_all add: word_le_nat_alt)

lemmas buffer_eval =
  InputBuffer_new_def ValidationConfig_default_def div_ceil_def has_entry_def make_input_def buffered_def
  try_buffer_def take_input_def evict_before_def select_input_def clamp_input_def clamp_facts limit_facts
  hashmap_eval Let_def

lemma selection_tests_pass:
  "test_first_input_accepted = Done True"
  "test_higher_seq_replaces = Done True"
  "test_lower_seq_ignored = Done True"
  "test_equal_seq_causes_tie = Done True"
  "test_tie_cleared_by_higher_seq = Done True"
  by (simp_all add: test_first_input_accepted_def test_higher_seq_replaces_def test_lower_seq_ignored_def
      test_equal_seq_causes_tie_def test_tie_cleared_by_higher_seq_def buffer_eval)

lemma buffer_tests_pass:
  "test_rate_limiting = Done True"
  "test_eviction = Done True"
  "test_t0_11_future_input_buffered = Done True"
  "test_t0_13_inputseq_tie_uses_lki = Done True"
  by (simp_all add: test_rate_limiting_def test_eviction_def
      test_t0_11_future_input_buffered_def test_t0_13_inputseq_tie_uses_lki_def buffer_eval)

lemma magnitude_clamping_passes: "test_magnitude_clamping = Done True"
  by (simp add: test_magnitude_clamping_def buffer_eval)
    (simp add: dir_mag_sq_def magnitude_eval f64_close_def f64_negate_def f64_abs_def f64_pack_def)

section \<open>Validation\<close>

definition make_valid_input :: "Tick \<Rightarrow> u64 \<Rightarrow> InputCmdProto" where
  "make_valid_input tick seq = \<lparr>ic_tick = tick, ic_input_seq = seq, ic_move_dir = [f64_one, f64_zero]\<rparr>"

definition cmd_dir :: "u64 \<Rightarrow> f64 list \<Rightarrow> InputCmdProto" where
  "cmd_dir seq dir = \<lparr>ic_tick = 5, ic_input_seq = seq, ic_move_dir = dir\<rparr>"

definition NAN :: f64 where "NAN = 0x7ff8000000000000"
definition INFINITY :: f64 where "INFINITY = 0x7ff0000000000000"
definition NEG_INFINITY :: f64 where "NEG_INFINITY = 0xfff0000000000000"

text \<open>The result of one call on a fresh buffer.\<close>

definition validated :: "ValidationConfig \<Rightarrow> InputCmdProto \<Rightarrow> Tick \<Rightarrow> Tick \<Rightarrow> ValidationResult outcome" where
  "validated config input current_tick target_tick_floor =
     obind (InputBuffer_new config) (\<lambda>buffer.
     obind (validate_input Dev input current_tick target_tick_floor buffer 0) (\<lambda>(result, _). Done result))"

definition test_nan_rejection :: "bool outcome" where
  "test_nan_rejection =
     obind (validated ValidationConfig_default (cmd_dir 1 [NAN, f64_zero]) 0 0) (\<lambda>result.
       Done (result = DroppedNanInf))"

definition test_inf_rejection :: "bool outcome" where
  "test_inf_rejection =
     obind (validated ValidationConfig_default (cmd_dir 1 [f64_zero, INFINITY]) 0 0) (\<lambda>result.
       Done (result = DroppedNanInf))"

definition test_below_floor_rejection :: "bool outcome" where
  "test_below_floor_rejection =
     obind (validated ValidationConfig_default (make_valid_input 5 1) 0 10) (\<lambda>result.
       Done (case result of DroppedBelowFloor _ _ \<Rightarrow> True | _ \<Rightarrow> False))"

definition test_late_rejection :: "bool outcome" where
  "test_late_rejection =
     obind (validated ValidationConfig_default (make_valid_input 5 1) 10 0) (\<lambda>result.
       Done (case result of DroppedLate _ _ \<Rightarrow> True | _ \<Rightarrow> False))"

definition test_too_future_rejection :: "bool outcome" where
  "test_too_future_rejection =
     obind (validated (ValidationConfig_default\<lparr>vc_max_future_ticks := 10\<rparr>) (make_valid_input 100 1) 0 0)
       (\<lambda>result. Done (case result of DroppedTooFuture _ _ \<Rightarrow> True | _ \<Rightarrow> False))"

definition test_valid_input_accepted :: "bool outcome" where
  "test_valid_input_accepted =
     obind (validated ValidationConfig_default (make_valid_input 5 1) 0 0) (\<lambda>result.
       Done (is_accepted result))"

fun validate_all :: "InputCmdProto list \<Rightarrow> InputBuffer \<Rightarrow> InputBuffer outcome" where
  "validate_all [] buffer = Done buffer"
| "validate_all (input # inputs) buffer =
     obind (validate_input Dev input 0 0 buffer 0) (\<lambda>(_, buffer). validate_all inputs buffer)"

definition test_t0_07_malformed_inputs_no_crash :: "bool outcome" where
  "test_t0_07_malformed_inputs_no_crash =
     obind (InputBuffer_new ValidationConfig_default) (\<lambda>buffer.
     obind (validate_all
       [cmd_dir 1 [], cmd_dir 2 [f64_one], cmd_dir 3 [NAN, NAN], cmd_dir 4 [NEG_INFINITY, NEG_INFINITY],
        cmd_dir 5 [0x7fe1ccf385ebc8a0, 0x7fe1ccf385ebc8a0]] buffer) (\<lambda>buffer. Done True))"

lemmas validation_eval =
  validated_def validate_input_def dir_malformed_def make_valid_input_def cmd_dir_def checked_plus_def
  NAN_def INFINITY_def NEG_INFINITY_def

lemma validation_tests_pass:
  "test_nan_rejection = Done True"
  "test_inf_rejection = Done True"
  "test_below_floor_rejection = Done True"
  "test_late_rejection = Done True"
  "test_too_future_rejection = Done True"
  "test_valid_input_accepted = Done True"
  by (simp_all add: test_nan_rejection_def test_inf_rejection_def test_below_floor_rejection_def
      test_late_rejection_def test_too_future_rejection_def test_valid_input_accepted_def
      validation_eval buffer_eval magnitude_eval)

lemma malformed_inputs_no_crash_passes: "test_t0_07_malformed_inputs_no_crash = Done True"
proof -
  have valid: "\<exists>b'. validate_all is b = Done b'" for "is" b
  proof (induction "is" arbitrary: b)
    case (Cons i "is")
    obtain r b' where "validate_input Dev i 0 0 b 0 = Done (r, b')"
      using validate_input_total[of Dev 0 b i 0 0] unsigned_less[of "vc_max_future_ticks (ib_config b)"] by auto
    with Cons.IH[of b'] show ?case by simp
  qed simp
  have "\<exists>b. InputBuffer_new ValidationConfig_default = Done b"
    by (simp add: InputBuffer_new_def ValidationConfig_default_def div_ceil_def)
  with valid show ?thesis
    unfolding test_t0_07_malformed_inputs_no_crash_def by (metis obind.simps(1))
qed

end
