(* ===== verification/ServerTests.thy ===== *)
theory ServerTests
  imports InputTests ServerInv
begin

text \<open>
  The unit tests of \<^verbatim>\<open>crates/server/src/lib.rs\<close>, translated one by one and run on the model, for
  any protobuf encoder \<open>enc\<close>.
\<close>

section \<open>Evaluation\<close>

text \<open>The loop \<^verbatim>\<open>for _ in 0..n { server.step(); }\<close>.\<close>

fun steps :: "(SnapshotProto \<Rightarrow> bytes) \<Rightarrow> nat \<Rightarrow> Server \<Rightarrow> Server outcome" where
  "steps enc 0 s = Done s"
| "steps enc (Suc n) s = obind (step Dev enc s) (\<lambda>(s, _). steps enc n s)"

text \<open>A tick in the dev profile, when it does not panic, as an update of the state.\<close>

lemma step_eval:
  assumes "w_tick (s_world s) < 0x1000" and "sc_input_lead_ticks (s_config s) = 1"
  shows "step Dev enc s =
    (case collect_applied (w_tick (s_world s)) (s_entity_spawn_order s) (s_input_buffer s)
        (s_last_known_intent s) of (applied, buffer, lki) \<Rightarrow>
     let tick = w_tick (s_world s) + 1;
         world = (fold apply_movement (sort_key si_player_id (map to_step_input applied)) (s_world s))
                   \<lparr>w_tick := tick\<rparr>;
         snapshot = \<lparr>sn_tick = tick, sn_entities = sorted_entity_snapshots world,
                     sn_digest = state_digest world\<rparr>;
         flr = tick + 1;
         s1 = record_first_baseline s
     in Done (s1\<lparr>s_input_buffer := evict_before buffer tick,
                 s_last_known_intent := lki,
                 s_replay_recorder := fold record_input applied (s_replay_recorder s1),
                 s_world := world,
                 s_last_emitted_floor :=
                   fold (\<lambda>sid. hm_insert sid flr) (hm_keys (s_sessions s)) (s_last_emitted_floor s)\<rparr>,
              snapshot, flr, enc (snapshot_proto snapshot flr)))"
proof -
  have "unat (w_tick (s_world s)) < 0x1000" using assms(1) by (simp add: word_less_nat_alt)
  then have "unat (w_tick (s_world s) + 1) + 1 < 2 ^ 64" by (simp add: unat_plus_fits)
  then show ?thesis
    using assms
    by (simp add: step_def record_first_baseline_def advance_eval Let_def checked_plus_fits split_beta)
qed

lemmas tick_eval =
  step_eval choose_input_def normalize_dir_def take_input_def evict_before_def
  record_first_baseline_def record_baseline_def record_input_def to_step_input_def motion_eval
  float_facts zero_facts

lemmas new_server_eval =
  Server_new_def ServerConfig_default_def TICK_RATE_HZ_def MAX_FUTURE_TICKS_def INPUT_LEAD_TICKS_def
  INPUT_RATE_LIMIT_PER_SEC_def MATCH_DURATION_TICKS_def CONNECT_TIMEOUT_MS_def DEFAULT_MAX_SESSIONS_def
  InputBuffer_new_def div_ceil_def ReplayRecorder_new_def

lemmas session_eval =
  accept_session_def welcome_for_def disconnect_session_def assign_player_id_def record_spawn_def Session_new_def
  session_count_def hashmap_eval setup_eval Let_def

section \<open>Sessions\<close>

definition test_t0_01_two_client_handshake :: "bool outcome" where
  "test_t0_01_two_client_handshake =
     obind (Server_new ServerConfig_default) (\<lambda>server.
     obind (accept_session Dev server) (\<lambda>(server, session1, player1, entity1).
     let count1 = session_count server in
     obind (welcome_for Dev server session1) (\<lambda>(server, welcome1).
     obind (accept_session Dev server) (\<lambda>(server, session2, player2, entity2).
     let count2 = session_count server in
     obind (welcome_for Dev server session2) (\<lambda>(server, welcome2).
       Done (player1 = 0 \<and> 0 < entity1 \<and> count1 = 1 \<and>
             sw_target_tick_floor welcome1 = INPUT_LEAD_TICKS \<and> sw_tick_rate_hz welcome1 = TICK_RATE_HZ \<and>
             sw_player_id welcome1 = 0 \<and> sw_controlled_entity_id welcome1 = entity1 \<and>
             player2 = 1 \<and> 0 < entity2 \<and> entity1 \<noteq> entity2 \<and> count2 = 2 \<and>
             sw_target_tick_floor welcome2 = INPUT_LEAD_TICKS \<and> sw_player_id welcome2 = 1 \<and>
             sw_controlled_entity_id welcome2 = entity2))))))"

lemma two_client_handshake_passes: "test_t0_01_two_client_handshake = Done True"
  by (simp add: test_t0_01_two_client_handshake_def new_server_eval session_eval)

definition test_t0_02_join_baseline :: "bool outcome" where
  "test_t0_02_join_baseline =
     obind (Server_new ServerConfig_default) (\<lambda>server.
     obind (accept_session Dev server) (\<lambda>(server, _).
     obind (accept_session Dev server) (\<lambda>(server, _).
       let b = baseline_proto server
       in Done (jb_tick b = 0 \<and> length (jb_entities b) = 2 \<and> jb_digest b \<noteq> 0))))"

lemma join_baseline_passes: "test_t0_02_join_baseline = Done True"
  by (simp add: test_t0_02_join_baseline_def new_server_eval session_eval baseline_proto_def JoinBaseline_from_def)
    (simp add: digest_eval)

definition test_player_id_not_reused_after_disconnect :: "bool outcome" where
  "test_player_id_not_reused_after_disconnect =
     obind (Server_new ServerConfig_default) (\<lambda>server.
     obind (accept_session Dev server) (\<lambda>(server, session0, player0, _).
     obind (accept_session Dev server) (\<lambda>(server, _, player1, _).
     let server = disconnect_session server session0 in
     obind (accept_session Dev server) (\<lambda>(server, _, player2, _).
       Done ((player0, player1) = (0, 1) \<and> player2 = 2)))))"

lemma player_id_not_reused_after_disconnect_passes: "test_player_id_not_reused_after_disconnect = Done True"
  by (simp add: test_player_id_not_reused_after_disconnect_def new_server_eval session_eval)

definition test_accept_session_supports_more_than_two :: "bool outcome" where
  "test_accept_session_supports_more_than_two =
     obind (Server_new ServerConfig_default) (\<lambda>server.
     obind (accept_session Dev server) (\<lambda>(server, _, player0, _).
     obind (accept_session Dev server) (\<lambda>(server, _, player1, _).
     obind (accept_session Dev server) (\<lambda>(server, _, player2, _).
       Done ([player0, player1, player2] = [0, 1, 2] \<and> session_count server = 3)))))"

lemma accept_session_supports_more_than_two_passes: "test_accept_session_supports_more_than_two = Done True"
  by (simp add: test_accept_session_supports_more_than_two_def new_server_eval session_eval)

definition test_t0_16_connection_timeout :: "bool outcome" where
  "test_t0_16_connection_timeout =
     obind (Server_new ServerConfig_default) (\<lambda>server.
     let count0 = session_count server in
     obind (accept_session Dev server) (\<lambda>(server, _).
       Done (CONNECT_TIMEOUT_MS = 30000 \<and> count0 = 0 \<and> session_count server = 1)))"

lemma connection_timeout_passes: "test_t0_16_connection_timeout = Done True"
  by (simp add: test_t0_16_connection_timeout_def new_server_eval session_eval)

section \<open>Ticks\<close>

definition test_t0_05a_tick_floor_relationship :: "(SnapshotProto \<Rightarrow> bytes) \<Rightarrow> bool outcome" where
  "test_t0_05a_tick_floor_relationship enc =
     obind (Server_new ServerConfig_default) (\<lambda>server.
     obind (accept_session Dev server) (\<lambda>(server, _).
     obind (accept_session Dev server) (\<lambda>(server, _).
     obind (step Dev enc server) (\<lambda>(server, snapshot, flr, _).
     obind (step Dev enc server) (\<lambda>(server, snapshot2, floor2, _).
       Done (sn_tick snapshot = 1 \<and> flr = 1 + INPUT_LEAD_TICKS \<and>
             sn_tick snapshot2 = 2 \<and> floor2 = 2 + INPUT_LEAD_TICKS))))))"

lemma tick_floor_relationship_passes: "test_t0_05a_tick_floor_relationship enc = Done True"
  by (simp add: test_t0_05a_tick_floor_relationship_def new_server_eval session_eval tick_eval)

definition test_single_session_can_start_and_step :: "(SnapshotProto \<Rightarrow> bytes) \<Rightarrow> bool outcome" where
  "test_single_session_can_start_and_step enc =
     obind (Server_new ServerConfig_default) (\<lambda>server.
     obind (accept_session Dev server) (\<lambda>(server, session1, _, entity1).
     obind (welcome_for Dev server session1) (\<lambda>(server, welcome).
     obind (step Dev enc server) (\<lambda>(server, snapshot, _, _).
       Done (sw_target_tick_floor welcome = INPUT_LEAD_TICKS \<and> length (sn_entities snapshot) = 1 \<and>
             es_entity_id (sn_entities snapshot ! 0) = entity1)))))"

lemma single_session_can_start_and_step_passes: "test_single_session_can_start_and_step enc = Done True"
  by (simp add: test_single_session_can_start_and_step_def new_server_eval session_eval tick_eval)

definition find_position :: "EntityId \<Rightarrow> Snapshot \<Rightarrow> vec2 option" where
  "find_position entity snapshot =
     map_option es_position (find (\<lambda>e. es_entity_id e = entity) (sn_entities snapshot))"

definition test_t0_14_disconnect_handling :: "(SnapshotProto \<Rightarrow> bytes) \<Rightarrow> bool outcome" where
  "test_t0_14_disconnect_handling enc =
     obind (Server_new ServerConfig_default) (\<lambda>server.
     obind (accept_session Dev server) (\<lambda>(server, session1, _, entity1).
     obind (accept_session Dev server) (\<lambda>(server, _).
     obind (welcome_for Dev server session1) (\<lambda>(server, _).
     obind (receive_input Dev server session1
       \<lparr>ic_tick = INPUT_LEAD_TICKS, ic_input_seq = 1, ic_move_dir = [f64_one, f64_zero]\<rparr>) (\<lambda>(server, _).
     obind (step Dev enc server) (\<lambda>(server, _).
     obind (step Dev enc server) (\<lambda>(server, snapshot_before, _).
     let server = disconnect_session server session1;
         left = session_count server;
         ended = should_end_match server in
     obind (step Dev enc server) (\<lambda>(server, snapshot_after, _).
       Done (case (find_position entity1 snapshot_before, find_position entity1 snapshot_after) of
               (Some pos_before, Some pos_after) \<Rightarrow>
                 \<not> vec2_eq pos_before (f64_zero, f64_zero) \<and> left = 1 \<and> ended = None \<and>
                 vec2_eq pos_after pos_before
             | _ \<Rightarrow> False)))))))))"

lemma disconnect_handling_passes: "test_t0_14_disconnect_handling enc = Done True"
  by (simp add: test_t0_14_disconnect_handling_def new_server_eval session_eval tick_eval receive_input_def
      validate_input_def dir_malformed_def try_buffer_def clamp_input_def clamp_facts[unfolded f64_one_def f64_zero_def]
      f64_is_infinite_def should_end_match_def find_position_def f64_eq_def)

text \<open>\<^verbatim>\<open>assert!(server.should_end_match().is_none()); server.step();\<close> repeated.\<close>

fun steps_while_running :: "(SnapshotProto \<Rightarrow> bytes) \<Rightarrow> nat \<Rightarrow> Server \<Rightarrow> (bool \<times> Server) outcome" where
  "steps_while_running enc 0 s = Done (True, s)"
| "steps_while_running enc (Suc n) s =
     (if should_end_match s \<noteq> None then Done (False, s)
      else obind (step Dev enc s) (\<lambda>(s, _). steps_while_running enc n s))"

text \<open>\<^verbatim>\<open>while server.should_end_match().is_none() { server.step(); }\<close>, with fuel.\<close>

fun step_to_end :: "(SnapshotProto \<Rightarrow> bytes) \<Rightarrow> nat \<Rightarrow> Server \<Rightarrow> Server outcome" where
  "step_to_end enc 0 s = Done s"
| "step_to_end enc (Suc n) s =
     (if should_end_match s \<noteq> None then Done s
      else obind (step Dev enc s) (\<lambda>(s, _). step_to_end enc n s))"

section \<open>Idle ticks\<close>

text \<open>What \<open>n\<close> ticks change on a server whose input buffer is empty.\<close>

definition ticked :: "nat \<Rightarrow> Server \<Rightarrow> Server \<Rightarrow> bool" where
  "ticked n s s' \<longleftrightarrow>
     w_tick (s_world s') = w_tick (s_world s) + of_nat n \<and>
     s_config s' = s_config s \<and> s_sessions s' = s_sessions s \<and> s_session_players s' = s_session_players s \<and>
     s_entity_spawn_order s' = s_entity_spawn_order s \<and> s_input_buffer s' = s_input_buffer s \<and>
     (0 < n \<longrightarrow> (\<forall>sid \<in> set (hm_keys (s_sessions s)).
        hm_get (s_last_emitted_floor s') sid = Some (w_tick (s_world s') + 1))) \<and>
     (\<exists>as. rr_inputs (s_replay_recorder s') = rr_inputs (s_replay_recorder s) @ as \<and>
        length as = n * length (s_entity_spawn_order s)) \<and>
     rr_config (s_replay_recorder s') = rr_config (s_replay_recorder s) \<and>
     rr_entity_spawn_order (s_replay_recorder s') = rr_entity_spawn_order (s_replay_recorder s) \<and>
     (0 < n \<longrightarrow> s_baseline_recorded s') \<and>
     (if s_baseline_recorded s
      then rr_initial_baseline (s_replay_recorder s') = rr_initial_baseline (s_replay_recorder s)
      else 0 < n \<longrightarrow> rr_initial_baseline (s_replay_recorder s') \<noteq> None) \<and>
     (n = 0 \<longrightarrow> s' = s)"

definition idle_at :: "nat \<Rightarrow> Server \<Rightarrow> bool" where
  "idle_at m s \<longleftrightarrow> distinct (s_entity_spawn_order s) \<and> w_tick (s_world s) = of_nat m \<and>
     sc_input_lead_ticks (s_config s) = 1 \<and> ib_buffer (s_input_buffer s) = []"

lemma take_empty: "ib_buffer b = [] \<Longrightarrow> fold (\<lambda>q b. snd (take_input b q t)) ps b = b"
  by (induction ps) (simp_all add: take_input_def hashmap_eval)

lemma step_idle:
  assumes "idle_at m s" and "m < 0x1000"
  obtains s' snap fl bs where "step Dev enc s = Done (s', snap, fl, bs)" "ticked 1 s s'" "idle_at (Suc m) s'"
proof -
  have "unat (of_nat m :: u64) = m" using assms(2) by (intro unat_of_nat_small) simp
  then have small: "w_tick (s_world s) < 0x1000"
    using assms by (simp add: idle_at_def word_less_nat_alt)
  obtain s' snap fl bs where st: "step Dev enc s = Done (s', snap, fl, bs)"
    using assms(1) small by (simp add: idle_at_def step_eval split_beta Let_def)
  have dist: "distinct (s_entity_spawn_order s)" using assms(1) by (simp add: idle_at_def)
  note after = step_Done[OF dist st]
  have buffer: "s_input_buffer s' = s_input_buffer s"
    using assms(1) by (simp add: after(14) take_empty idle_at_def evict_before_def hashmap_eval)
  have floors: "\<forall>sid \<in> set (hm_keys (s_sessions s)).
      hm_get (s_last_emitted_floor s') sid = Some (w_tick (s_world s') + 1)"
    using assms(1) by (simp add: after(3,16) hm.get_insert_loop idle_at_def)
  have "ticked 1 s s'"
    unfolding ticked_def using after buffer floors
    by (auto simp: step_applied_def intro!: exI[of _ "step_applied s"])
  moreover have "idle_at (Suc m) s'"
    using assms(1) after buffer by (simp add: idle_at_def add.commute)
  ultimately show thesis by (rule that[OF st])
qed

lemma ticked_Suc:
  assumes "ticked 1 s s'" and "ticked n s' s''"
  shows "ticked (Suc n) s s''"
proof (cases n)
  case 0
  with assms show ?thesis by (simp add: ticked_def)
next
  case (Suc k)
  obtain as bs where "rr_inputs (s_replay_recorder s') = rr_inputs (s_replay_recorder s) @ as"
    "rr_inputs (s_replay_recorder s'') = rr_inputs (s_replay_recorder s') @ bs"
    "length as = length (s_entity_spawn_order s)" "length bs = n * length (s_entity_spawn_order s)"
    using assms by (auto simp: ticked_def)
  then have "\<exists>cs. rr_inputs (s_replay_recorder s'') = rr_inputs (s_replay_recorder s) @ cs \<and>
      length cs = Suc n * length (s_entity_spawn_order s)"
    by (intro exI[of _ "as @ bs"]) simp
  with assms Suc show ?thesis unfolding ticked_def by (simp add: add.assoc split: if_splits)
qed

lemma ticked_0: "ticked 0 s s"
  by (simp add: ticked_def)

lemma steps_idle:
  "idle_at m s \<Longrightarrow> m + n \<le> 0x1000 \<Longrightarrow> \<exists>s'. steps enc n s = Done s' \<and> ticked n s s' \<and> idle_at (m + n) s'"
proof (induction n arbitrary: m s)
  case (Suc n)
  obtain s1 snap fl bs where s1: "step Dev enc s = Done (s1, snap, fl, bs)" "ticked 1 s s1" "idle_at (Suc m) s1"
    using step_idle[OF Suc.prems(1), of enc thesis] Suc.prems(2) by simp
  from Suc.IH[OF s1(3)] Suc.prems(2) s1 ticked_Suc[OF s1(2)] show ?case by auto
qed (simp add: ticked_0)

lemma running_steps:
  "idle_at m s \<Longrightarrow> m + n \<le> unat (sc_match_duration_ticks (s_config s)) \<Longrightarrow> m + n \<le> 0x1000 \<Longrightarrow>
     steps_while_running enc n s = obind (steps enc n s) (\<lambda>s'. Done (True, s')) \<and>
     step_to_end enc n s = steps enc n s"
proof (induction n arbitrary: m s)
  case (Suc n)
  obtain s1 snap fl bs where s1: "step Dev enc s = Done (s1, snap, fl, bs)" "ticked 1 s s1" "idle_at (Suc m) s1"
    using step_idle[OF Suc.prems(1), of enc thesis] Suc.prems(3) by simp
  have "unat (of_nat m :: u64) = m" using Suc.prems(3) by (intro unat_of_nat_small) simp
  then have "should_end_match s = None"
    using Suc.prems(1,2) by (simp add: should_end_match_def idle_at_def word_le_nat_alt)
  moreover have "s_config s1 = s_config s" using s1(2) by (simp add: ticked_def)
  ultimately show ?case using Suc.IH[OF s1(3)] Suc.prems(2,3) s1(1) by simp
qed simp

text \<open>A server with two players, before its first tick.\<close>

definition two_joined :: "ServerConfig \<Rightarrow> (Server \<times> SessionId \<times> PlayerId \<times> PlayerId) outcome" where
  "two_joined config =
     obind (Server_new config) (\<lambda>server.
     obind (accept_session Dev server) (\<lambda>(server, session1, player1, _).
     obind (accept_session Dev server) (\<lambda>(server, _, player2, _).
       Done (server, session1, player1, player2))))"

lemma two_joined_eval:
  assumes "sc_input_lead_ticks config = 1" and "sc_max_sessions config = 16" and "sc_tick_rate_hz config = 30"
    and "sc_input_rate_limit_per_sec config = 120" and "sc_test_player_ids config = ids"
    and "ids = None \<or> ids = Some [17, 99]"
  obtains s q1 q2 where "two_joined config = Done (s, 1, q1, q2)" "idle_at 0 s" "s_config s = config"
    "s_entity_spawn_order s = [q1, q2]" "hm_get (s_session_players s) 1 = Some q1"
    "1 \<in> set (hm_keys (s_sessions s))" "rr_inputs (s_replay_recorder s) = []"
    "\<not> s_baseline_recorded s" "rr_entity_spawn_order (s_replay_recorder s) = [q1, q2]"
    "rc_test_mode (rr_config (s_replay_recorder s)) = sc_test_mode config"
    "rc_tick_rate_hz (rr_config (s_replay_recorder s)) = 30"
    "rc_test_player_ids (rr_config (s_replay_recorder s)) = (case ids of None \<Rightarrow> [] | Some i \<Rightarrow> i)"
    "[q1, q2] = (case ids of None \<Rightarrow> [0, 1] | Some i \<Rightarrow> i)"
    "s_input_buffer s = \<lparr>ib_config = \<lparr>vc_max_future_ticks = sc_max_future_ticks config,
       vc_input_rate_limit_per_sec = 120, vc_tick_rate_hz = 30\<rparr>, ib_buffer = [], ib_per_tick_limit = 4\<rparr>"
proof -
  obtain s q1 q2 where s: "two_joined config = Done (s, 1, q1, q2)" "idle_at 0 s \<and> s_config s = config \<and>
    s_entity_spawn_order s = [q1, q2] \<and> hm_get (s_session_players s) 1 = Some q1 \<and>
    1 \<in> set (hm_keys (s_sessions s)) \<and> rr_inputs (s_replay_recorder s) = [] \<and>
    \<not> s_baseline_recorded s \<and> rr_entity_spawn_order (s_replay_recorder s) = [q1, q2] \<and>
    rc_test_mode (rr_config (s_replay_recorder s)) = sc_test_mode config \<and>
    rc_tick_rate_hz (rr_config (s_replay_recorder s)) = 30 \<and>
    rc_test_player_ids (rr_config (s_replay_recorder s)) = (case ids of None \<Rightarrow> [] | Some i \<Rightarrow> i) \<and>
    [q1, q2] = (case ids of None \<Rightarrow> [0, 1] | Some i \<Rightarrow> i) \<and>
    s_input_buffer s = \<lparr>ib_config = \<lparr>vc_max_future_ticks = sc_max_future_ticks config,
       vc_input_rate_limit_per_sec = 120, vc_tick_rate_hz = 30\<rparr>, ib_buffer = [], ib_per_tick_limit = 4\<rparr>"
    using assms(6)
  proof
    assume "ids = None"
    then show thesis using assms that by (simp add: two_joined_def new_server_eval session_eval idle_at_def)
  next
    assume "ids = Some [17, 99]"
    then show thesis using assms that by (simp add: two_joined_def new_server_eval session_eval idle_at_def)
  qed
  then show thesis using that by metis
qed

definition test_t0_15_match_termination :: "(SnapshotProto \<Rightarrow> bytes) \<Rightarrow> bool outcome" where
  "test_t0_15_match_termination enc =
     obind (two_joined (ServerConfig_default\<lparr>sc_match_duration_ticks := 10\<rparr>)) (\<lambda>(server, _).
     obind (steps_while_running enc 10 server) (\<lambda>(running, server).
       Done (running \<and> should_end_match server = Some Complete)))"

lemma match_termination_passes: "test_t0_15_match_termination enc = Done True"
proof -
  let ?c = "ServerConfig_default\<lparr>sc_match_duration_ticks := 10\<rparr>"
  obtain s q1 q2 where s: "two_joined ?c = Done (s, 1, q1, q2)" "idle_at 0 s" "s_config s = ?c"
    by (rule two_joined_eval[of ?c None]) (simp_all add: new_server_eval)
  obtain s' where s': "steps enc 10 s = Done s'" "ticked 10 s s'"
    using steps_idle[OF s(2), of 10 enc] by auto
  have "steps_while_running enc 10 s = Done (True, s')"
    using running_steps[OF s(2), of 10 enc] s(3) s'(1) by simp
  then show ?thesis
    using s s'(2) by (simp add: test_t0_15_match_termination_def ticked_def should_end_match_def idle_at_def)
qed

definition test_t0_17_playerid_test_mode :: "(SnapshotProto \<Rightarrow> bytes) \<Rightarrow> bool outcome" where
  "test_t0_17_playerid_test_mode enc =
     obind (two_joined (ServerConfig_default\<lparr>sc_test_mode := True, sc_test_player_ids := Some [17, 99],
       sc_match_duration_ticks := 10\<rparr>)) (\<lambda>(server, _, player1, player2).
     obind (steps enc 5 server) (\<lambda>server.
       let artifact = server_finalize server Complete
       in Done (player1 = 17 \<and> player2 = 99 \<and> ra_test_mode artifact \<and>
                ra_test_player_ids artifact = [17, 99] \<and> ra_entity_spawn_order artifact = [17, 99])))"

lemmas finalize_eval = server_finalize_def recorder_finalize_def

lemma playerid_test_mode_passes: "test_t0_17_playerid_test_mode enc = Done True"
proof -
  let ?c = "ServerConfig_default\<lparr>sc_test_mode := True, sc_test_player_ids := Some [17, 99],
    sc_match_duration_ticks := 10\<rparr>"
  obtain s q1 q2 where s: "two_joined ?c = Done (s, 1, q1, q2)" "idle_at 0 s"
    "rr_entity_spawn_order (s_replay_recorder s) = [q1, q2]"
    "rc_test_mode (rr_config (s_replay_recorder s)) = sc_test_mode ?c"
    "rc_test_player_ids (rr_config (s_replay_recorder s)) = [17, 99]" "q1 = 17" "q2 = 99"
    by (rule two_joined_eval[of ?c "Some [17, 99]"]) (simp_all add: new_server_eval)
  obtain s' where "steps enc 5 s = Done s'" "ticked 5 s s'"
    using steps_idle[OF s(2), of 5 enc] by auto
  then show ?thesis
    using s by (auto simp: test_t0_17_playerid_test_mode_def ticked_def finalize_eval)
qed

text \<open>The test decodes what \<^verbatim>\<open>step\<close> encoded with the same library.\<close>

definition test_t0_18_floor_coherency_broadcast ::
  "(SnapshotProto \<Rightarrow> bytes) \<Rightarrow> (bytes \<Rightarrow> SnapshotProto option) \<Rightarrow> bool outcome" where
  "test_t0_18_floor_coherency_broadcast enc dec =
     obind (Server_new ServerConfig_default) (\<lambda>server.
     obind (accept_session Dev server) (\<lambda>(server, _).
     obind (accept_session Dev server) (\<lambda>(server, _).
     obind (step Dev enc server) (\<lambda>(server, _, floor1, bytes1).
     obind (step Dev enc server) (\<lambda>(server, _, floor2, bytes2).
       Done (case (dec bytes1, dec bytes2) of
               (Some snapshot1, Some snapshot2) \<Rightarrow>
                 sp_target_tick_floor snapshot1 = floor1 \<and> sp_target_tick_floor snapshot2 = floor2 \<and>
                 floor1 < floor2
             | _ \<Rightarrow> False))))))"

lemma floor_coherency_broadcast_passes:
  assumes "\<And>m. dec (enc m) = Some m"
  shows "test_t0_18_floor_coherency_broadcast enc dec = Done True"
  by (simp add: test_t0_18_floor_coherency_broadcast_def new_server_eval session_eval tick_eval assms snapshot_proto_def)

definition test_t0_12_lki_fallback :: "(SnapshotProto \<Rightarrow> bytes) \<Rightarrow> bool outcome" where
  "test_t0_12_lki_fallback enc =
     obind (Server_new (ServerConfig_default\<lparr>sc_match_duration_ticks := 10\<rparr>)) (\<lambda>server.
     obind (accept_session Dev server) (\<lambda>(server, _).
     obind (accept_session Dev server) (\<lambda>(server, _).
     obind (step Dev enc server) (\<lambda>(server, snapshot1, _).
       let artifact = server_finalize server Complete
       in Done (list_all (\<lambda>e. vec2_eq (es_position e) (f64_zero, f64_zero)) (sn_entities snapshot1) \<and>
                list_all aip_is_fallback (ra_inputs artifact))))))"

lemma lki_fallback_passes: "test_t0_12_lki_fallback enc = Done True"
  by (simp add: test_t0_12_lki_fallback_def new_server_eval session_eval tick_eval finalize_eval
      AppliedInputProto_from_def f64_eq_def)

definition test_replay_artifact_generation :: "(SnapshotProto \<Rightarrow> bytes) \<Rightarrow> bool outcome" where
  "test_replay_artifact_generation enc =
     obind (two_joined (ServerConfig_default\<lparr>sc_match_duration_ticks := 5\<rparr>)) (\<lambda>(server, _).
     obind (step_to_end enc 5 server) (\<lambda>server.
       let artifact = server_finalize server Complete
       in Done (should_end_match server \<noteq> None \<and>
                ra_replay_format_version artifact = 1 \<and> ra_initial_baseline artifact \<noteq> None \<and>
                ra_tick_rate_hz artifact = TICK_RATE_HZ \<and> ra_checkpoint_tick artifact = 5 \<and>
                ra_end_reason artifact = ''complete'' \<and> length (ra_inputs artifact) = 10)))"

lemma replay_artifact_generation_passes: "test_replay_artifact_generation enc = Done True"
proof -
  let ?c = "ServerConfig_default\<lparr>sc_match_duration_ticks := 5\<rparr>"
  obtain s q1 q2 where s: "two_joined ?c = Done (s, 1, q1, q2)" "idle_at 0 s" "s_config s = ?c"
    "s_entity_spawn_order s = [q1, q2]" "rr_inputs (s_replay_recorder s) = []" "\<not> s_baseline_recorded s"
    "rc_tick_rate_hz (rr_config (s_replay_recorder s)) = 30"
    by (rule two_joined_eval[of ?c None]) (simp_all add: new_server_eval)
  obtain s' where s': "steps enc 5 s = Done s'" "ticked 5 s s'"
    using steps_idle[OF s(2), of 5 enc] by auto
  have "step_to_end enc 5 s = Done s'"
    using running_steps[OF s(2), of 5 enc] s(3) s'(1) by simp
  then show ?thesis
    using s s'(2)
    by (auto simp: test_replay_artifact_generation_def ticked_def finalize_eval should_end_match_def idle_at_def
        TICK_RATE_HZ_def)
qed

definition test_t0_13a_floor_enforcement_recovery :: "(SnapshotProto \<Rightarrow> bytes) \<Rightarrow> bool outcome" where
  "test_t0_13a_floor_enforcement_recovery enc =
     obind (two_joined (ServerConfig_default\<lparr>sc_match_duration_ticks := 20\<rparr>)) (\<lambda>(server, session1, _).
     obind (welcome_for Dev server session1) (\<lambda>(server, welcome1).
     let initial_floor = sw_target_tick_floor welcome1 in
     obind (steps enc 5 server) (\<lambda>server.
     let current_floor = 5 + INPUT_LEAD_TICKS in
     obind (receive_input Dev server session1
       \<lparr>ic_tick = 2, ic_input_seq = 1, ic_move_dir = [f64_one, f64_zero]\<rparr>) (\<lambda>(server, stale).
     obind (receive_input Dev server session1
       \<lparr>ic_tick = current_floor, ic_input_seq = 2, ic_move_dir = [f64_one, f64_zero]\<rparr>) (\<lambda>(server, valid).
       Done (initial_floor = INPUT_LEAD_TICKS \<and>
             (case stale of DroppedBelowFloor _ _ \<Rightarrow> True | _ \<Rightarrow> False) \<and> is_accepted valid))))))"

lemma right_well_formed: "\<not> dir_malformed [f64_one, f64_zero]"
  by (simp add: dir_malformed_def f64_read_eval f64_one_def f64_zero_def)

lemma floor_enforcement_recovery_passes: "test_t0_13a_floor_enforcement_recovery enc = Done True"
proof -
  let ?c = "ServerConfig_default\<lparr>sc_match_duration_ticks := 20\<rparr>"
  obtain s q1 q2 where s: "two_joined ?c = Done (s, 1, q1, q2)" "idle_at 0 s" "s_config s = ?c"
    "hm_get (s_session_players s) 1 = Some q1" "1 \<in> set (hm_keys (s_sessions s))"
    "s_input_buffer s = \<lparr>ib_config = \<lparr>vc_max_future_ticks = sc_max_future_ticks ?c,
       vc_input_rate_limit_per_sec = 120, vc_tick_rate_hz = 30\<rparr>, ib_buffer = [], ib_per_tick_limit = 4\<rparr>"
    by (rule two_joined_eval[of ?c None]) (simp_all add: new_server_eval)
  from s(5) obtain ses where ses: "hm_get (s_sessions s) 1 = Some ses" by (auto simp: hm.keys_get)
  define s1 where "s1 = s\<lparr>s_last_emitted_floor := hm_insert 1 1 (s_last_emitted_floor s)\<rparr>"
  have greeted: "\<exists>wel. welcome_for Dev s 1 = Done (s1, wel) \<and> sw_target_tick_floor wel = 1"
    using s(2,3) ses by (simp add: welcome_for_def s1_def idle_at_def checked_plus_def new_server_eval)
  have idle: "idle_at 0 s1" using s(2) by (simp add: s1_def idle_at_def)
  obtain s' where s': "steps enc 5 s1 = Done s'" "ticked 5 s1 s'"
    using steps_idle[OF idle, of 5 enc] by auto
  then have later: "w_tick (s_world s') = 5" "hm_get (s_session_players s') 1 = Some q1"
    "hm_get (s_last_emitted_floor s') 1 = Some 6" "s_input_buffer s' = s_input_buffer s"
    using s(2,4,5) by (simp_all add: ticked_def s1_def idle_at_def)
  then show ?thesis
    using s greeted later s'(1)
    by (auto simp: test_t0_13a_floor_enforcement_recovery_def receive_input_def validate_input_def
        right_well_formed checked_plus_def new_server_eval try_buffer_def hm_get_def clamp_input_def clamp_facts Let_def)
qed

end
