(* ===== verification/EdgeTests.thy ===== *)
theory EdgeTests
  imports TestKit Client
begin

text \<open>
  The unit tests of \<^verbatim>\<open>crates/wire/src/lib.rs\<close> that are about conversions (those of the codec are in
  \<open>WireTests\<close>), and those of \<^verbatim>\<open>crates/client/src\<close>, translated one by one.
\<close>

section \<open>Wire conversions\<close>

definition test_snapshot_proto_to_sim_conversion :: "bool outcome" where
  "test_snapshot_proto_to_sim_conversion =
     (let proto = \<lparr>sp_tick = 7,
            sp_entities = [\<lparr>ep_entity_id = 1, ep_position = [0x3ff8000000000000, 0xc004000000000000],
                            ep_velocity = [0x4014000000000000, 0]\<rparr>],
            sp_digest = 0x1234, sp_target_tick_floor = 8\<rparr>
      in Done (case Snapshot_try_from proto of
                 Inl _ \<Rightarrow> False
               | Inr snapshot \<Rightarrow>
                   sn_tick snapshot = 7 \<and> sn_digest snapshot = 0x1234 \<and>
                   vec2_eq (es_position (sn_entities snapshot ! 0)) (0x3ff8000000000000, 0xc004000000000000)))"

definition test_snapshot_proto_to_sim_conversion_rejects_malformed_position :: "bool outcome" where
  "test_snapshot_proto_to_sim_conversion_rejects_malformed_position =
     (let proto = \<lparr>sp_tick = 7,
            sp_entities = [\<lparr>ep_entity_id = 1, ep_position = [0x3ff8000000000000],
                            ep_velocity = [0x4014000000000000, 0]\<rparr>],
            sp_digest = 0, sp_target_tick_floor = 0\<rparr>
      in Done (case Snapshot_try_from proto of Inl _ \<Rightarrow> True | Inr _ \<Rightarrow> False))"

lemma conversion_tests_pass:
  "test_snapshot_proto_to_sim_conversion = Done True"
  "test_snapshot_proto_to_sim_conversion_rejects_malformed_position = Done True"
  by (simp_all add: test_snapshot_proto_to_sim_conversion_def
      test_snapshot_proto_to_sim_conversion_rejects_malformed_position_def Snapshot_try_from_def
      EntitySnapshot_try_from_def vec2_of_def vec2_eq_def f64_eq_def f64_read_eval)

section \<open>Client\<close>

definition test_cli_005_input_seq_is_strictly_monotonic :: "bool outcome" where
  "test_cli_005_input_seq_is_strictly_monotonic =
     obind (seq_advance Dev InputSeqGen_new) (\<lambda>(seq_gen, first).
     obind (seq_advance Dev seq_gen) (\<lambda>(seq_gen, second).
     obind (seq_advance Dev seq_gen) (\<lambda>(seq_gen, third).
       Done (first = 1 \<and> second = 2 \<and> third = 3))))"

definition test_cli_006_target_tick_clamps_to_floor :: "bool outcome" where
  "test_cli_006_target_tick_clamps_to_floor =
     Done (target_tick 5 3 = 5 \<and> target_tick 5 5 = 5 \<and> target_tick 5 10 = 10)"

definition test_cli_007_is_newer_keeps_highest_tick :: "bool outcome" where
  "test_cli_007_is_newer_keeps_highest_tick =
     Done (is_newer None 5 \<and> is_newer (Some 5) 6 \<and> \<not> is_newer (Some 5) 5 \<and> \<not> is_newer (Some 5) 3)"

definition test_cli_004_floor_is_monotonic_non_decreasing :: "bool outcome" where
  "test_cli_004_floor_is_monotonic_non_decreasing =
     (let flr = from_welcome 1; a = floor_get flr;
          flr = observe 5 flr; b = floor_get flr;
          flr = observe 3 flr; c = floor_get flr;
          flr = observe 5 flr; d = floor_get flr;
          flr = observe 10 flr; e = floor_get flr
      in Done (a = 1 \<and> b = 5 \<and> c = 5 \<and> d = 5 \<and> e = 10))"

lemma client_tests_pass:
  "test_cli_005_input_seq_is_strictly_monotonic = Done True"
  "test_cli_006_target_tick_clamps_to_floor = Done True"
  "test_cli_007_is_newer_keeps_highest_tick = Done True"
  "test_cli_004_floor_is_monotonic_non_decreasing = Done True"
  by (simp_all add: test_cli_005_input_seq_is_strictly_monotonic_def InputSeqGen_new_def checked_plus_def
      test_cli_006_target_tick_clamps_to_floor_def target_tick_def
      test_cli_007_is_newer_keeps_highest_tick_def is_newer_def
      test_cli_004_floor_is_monotonic_non_decreasing_def from_welcome_def Let_def)

end
