(* ===== verification/WireTests.thy ===== *)
theory WireTests
  imports TestKit GodotCodec
begin

text \<open>
  The round-trip tests of \<^verbatim>\<open>crates/wire/src/lib.rs\<close>. The codec under test is \<^verbatim>\<open>prost\<close>, a third-party
  crate: a test takes \<^verbatim>\<open>encode_to_vec\<close> and \<^verbatim>\<open>decode\<close> as arguments and passes exactly when that codec
  returns an equal message; three of them also run on the codec of the Godot client. Messages are
  compared as the derived \<^verbatim>\<open>PartialEq\<close> does, floats with the equality of floats.
\<close>

section \<open>Derived equality\<close>

definition InputCmdProto_eq :: "InputCmdProto \<Rightarrow> InputCmdProto \<Rightarrow> bool" where
  "InputCmdProto_eq a b \<longleftrightarrow>
     ic_tick a = ic_tick b \<and> ic_input_seq a = ic_input_seq b \<and> list_all2 f64_eq (ic_move_dir a) (ic_move_dir b)"

definition EntitySnapshotProto_eq :: "EntitySnapshotProto \<Rightarrow> EntitySnapshotProto \<Rightarrow> bool" where
  "EntitySnapshotProto_eq a b \<longleftrightarrow>
     ep_entity_id a = ep_entity_id b \<and> list_all2 f64_eq (ep_position a) (ep_position b) \<and>
     list_all2 f64_eq (ep_velocity a) (ep_velocity b)"

definition SnapshotProto_eq :: "SnapshotProto \<Rightarrow> SnapshotProto \<Rightarrow> bool" where
  "SnapshotProto_eq a b \<longleftrightarrow>
     sp_tick a = sp_tick b \<and> list_all2 EntitySnapshotProto_eq (sp_entities a) (sp_entities b) \<and>
     sp_digest a = sp_digest b \<and> sp_target_tick_floor a = sp_target_tick_floor b"

definition JoinBaseline_eq :: "JoinBaseline \<Rightarrow> JoinBaseline \<Rightarrow> bool" where
  "JoinBaseline_eq a b \<longleftrightarrow>
     jb_tick a = jb_tick b \<and> list_all2 EntitySnapshotProto_eq (jb_entities a) (jb_entities b) \<and>
     jb_digest a = jb_digest b"

definition AppliedInputProto_eq :: "AppliedInputProto \<Rightarrow> AppliedInputProto \<Rightarrow> bool" where
  "AppliedInputProto_eq a b \<longleftrightarrow>
     aip_tick a = aip_tick b \<and> aip_player_id a = aip_player_id b \<and>
     list_all2 f64_eq (aip_move_dir a) (aip_move_dir b) \<and> aip_is_fallback a = aip_is_fallback b"

definition TuningParameter_eq :: "TuningParameter \<Rightarrow> TuningParameter \<Rightarrow> bool" where
  "TuningParameter_eq a b \<longleftrightarrow> tp_key a = tp_key b \<and> f64_eq (tp_value a) (tp_value b)"

definition ReplayArtifact_eq :: "ReplayArtifact \<Rightarrow> ReplayArtifact \<Rightarrow> bool" where
  "ReplayArtifact_eq a b \<longleftrightarrow>
     ra_replay_format_version a = ra_replay_format_version b \<and>
     rel_option JoinBaseline_eq (ra_initial_baseline a) (ra_initial_baseline b) \<and>
     ra_seed a = ra_seed b \<and> ra_rng_algorithm a = ra_rng_algorithm b \<and>
     ra_tick_rate_hz a = ra_tick_rate_hz b \<and> ra_state_digest_algo_id a = ra_state_digest_algo_id b \<and>
     ra_entity_spawn_order a = ra_entity_spawn_order b \<and>
     ra_player_entity_mapping a = ra_player_entity_mapping b \<and>
     list_all2 TuningParameter_eq (ra_tuning_parameters a) (ra_tuning_parameters b) \<and>
     list_all2 AppliedInputProto_eq (ra_inputs a) (ra_inputs b) \<and>
     ra_build_fingerprint a = ra_build_fingerprint b \<and> ra_final_digest a = ra_final_digest b \<and>
     ra_checkpoint_tick a = ra_checkpoint_tick b \<and> ra_end_reason a = ra_end_reason b \<and>
     ra_test_mode a = ra_test_mode b \<and> ra_test_player_ids a = ra_test_player_ids b"

section \<open>The tests\<close>

definition test_client_hello_roundtrip ::
  "(ClientHello \<Rightarrow> bytes) \<Rightarrow> (bytes \<Rightarrow> ClientHello option) \<Rightarrow> bool outcome" where
  "test_client_hello_roundtrip encode_to_vec decode =
     (let msg = ClientHello; encoded = encode_to_vec msg
      in Done (case decode encoded of None \<Rightarrow> False | Some decoded \<Rightarrow> msg = decoded))"

definition test_server_welcome_roundtrip ::
  "(ServerWelcome \<Rightarrow> bytes) \<Rightarrow> (bytes \<Rightarrow> ServerWelcome option) \<Rightarrow> bool outcome" where
  "test_server_welcome_roundtrip encode_to_vec decode =
     (let msg = \<lparr>sw_target_tick_floor = 5, sw_tick_rate_hz = 60, sw_player_id = 1, sw_controlled_entity_id = 42\<rparr>;
          encoded = encode_to_vec msg
      in Done (case decode encoded of None \<Rightarrow> False | Some decoded \<Rightarrow> msg = decoded))"

definition test_input_cmd_roundtrip ::
  "(InputCmdProto \<Rightarrow> bytes) \<Rightarrow> (bytes \<Rightarrow> InputCmdProto option) \<Rightarrow> bool outcome" where
  "test_input_cmd_roundtrip encode_to_vec decode =
     (let msg = \<lparr>ic_tick = 100, ic_input_seq = 50, ic_move_dir = [0x3fe69fbe76c8b439, 0x3fe69fbe76c8b439]\<rparr>;
          encoded = encode_to_vec msg
      in Done (case decode encoded of None \<Rightarrow> False | Some decoded \<Rightarrow> InputCmdProto_eq msg decoded))"

definition test_snapshot_roundtrip ::
  "(SnapshotProto \<Rightarrow> bytes) \<Rightarrow> (bytes \<Rightarrow> SnapshotProto option) \<Rightarrow> bool outcome" where
  "test_snapshot_roundtrip encode_to_vec decode =
     (let msg =
        \<lparr>sp_tick = 100,
         sp_entities = [\<lparr>ep_entity_id = 1, ep_position = [0x4025000000000000, 0x4034800000000000],
                         ep_velocity = [f64_one, f64_zero]\<rparr>],
         sp_digest = 0xdeadbeef, sp_target_tick_floor = 101\<rparr>;
          encoded = encode_to_vec msg
      in Done (case decode encoded of None \<Rightarrow> False | Some decoded \<Rightarrow> SnapshotProto_eq msg decoded))"

definition test_replay_artifact_roundtrip ::
  "(ReplayArtifact \<Rightarrow> bytes) \<Rightarrow> (bytes \<Rightarrow> ReplayArtifact option) \<Rightarrow> bool outcome" where
  "test_replay_artifact_roundtrip encode_to_vec decode =
     (let msg =
        \<lparr>ra_replay_format_version = 1,
         ra_initial_baseline = Some \<lparr>jb_tick = 0, jb_entities = [], jb_digest = 0\<rparr>,
         ra_seed = 42, ra_rng_algorithm = ''ChaCha8Rng'', ra_tick_rate_hz = 60,
         ra_state_digest_algo_id = ''statedigest-v0-fnv1a64-le-f64canon-eidasc-posvel'',
         ra_entity_spawn_order = [0, 1],
         ra_player_entity_mapping =
           [\<lparr>pem_player_id = 0, pem_entity_id = 1\<rparr>, \<lparr>pem_player_id = 1, pem_entity_id = 2\<rparr>],
         ra_tuning_parameters = [\<lparr>tp_key = ''move_speed'', tp_value = 0x4014000000000000\<rparr>],
         ra_inputs = [],
         ra_build_fingerprint = Some
           \<lparr>bf_binary_sha256 = ''abc123'', bf_target_triple = ''x86_64-pc-windows-msvc'',
            bf_profile = ''release'', bf_git_commit = ''deadbeef''\<rparr>,
         ra_final_digest = 0xfeedface, ra_checkpoint_tick = 3600, ra_end_reason = ''complete'',
         ra_test_mode = False, ra_test_player_ids = []\<rparr>;
          encoded = encode_to_vec msg
      in Done (case decode encoded of None \<Rightarrow> False | Some decoded \<Rightarrow> ReplayArtifact_eq msg decoded))"

definition test_t0_19_wire_crate_exists :: "bool outcome" where
  "test_t0_19_wire_crate_exists = Done True"

section \<open>They pass on a lossless codec\<close>

lemma float_literals:
  "f64_eq 0x3fe69fbe76c8b439 0x3fe69fbe76c8b439" "f64_eq 0x4025000000000000 0x4025000000000000"
  "f64_eq 0x4034800000000000 0x4034800000000000" "f64_eq 0x4014000000000000 0x4014000000000000"
  "f64_eq f64_one f64_one" "f64_eq f64_zero f64_zero"
  by (simp_all add: f64_eq_def f64_read_eval f64_one_def f64_zero_def)

lemmas message_eq =
  InputCmdProto_eq_def EntitySnapshotProto_eq_def SnapshotProto_eq_def JoinBaseline_eq_def
  AppliedInputProto_eq_def TuningParameter_eq_def ReplayArtifact_eq_def float_literals

lemma wire_tests_pass:
  "(\<And>m. decode_h (encode_h m) = Some m) \<Longrightarrow> test_client_hello_roundtrip encode_h decode_h = Done True"
  "(\<And>m. decode_w (encode_w m) = Some m) \<Longrightarrow> test_server_welcome_roundtrip encode_w decode_w = Done True"
  "(\<And>m. decode_i (encode_i m) = Some m) \<Longrightarrow> test_input_cmd_roundtrip encode_i decode_i = Done True"
  "(\<And>m. decode_s (encode_s m) = Some m) \<Longrightarrow> test_snapshot_roundtrip encode_s decode_s = Done True"
  "(\<And>m. decode_r (encode_r m) = Some m) \<Longrightarrow> test_replay_artifact_roundtrip encode_r decode_r = Done True"
  "test_t0_19_wire_crate_exists = Done True"
  by (simp_all add: test_client_hello_roundtrip_def test_server_welcome_roundtrip_def
      test_input_cmd_roundtrip_def test_snapshot_roundtrip_def test_replay_artifact_roundtrip_def
      test_t0_19_wire_crate_exists_def message_eq)

text \<open>A codec that drops the floor of a snapshot fails the test.\<close>

lemma snapshot_test_fails:
  "test_snapshot_roundtrip (\<lambda>_. []) (\<lambda>_. Some s) = Done True \<Longrightarrow> sp_target_tick_floor s = 101"
  by (simp add: test_snapshot_roundtrip_def SnapshotProto_eq_def)

section \<open>On the Godot codec\<close>

definition unwrapped :: "'m gd option \<Rightarrow> 'm option" where
  "unwrapped r = (case r of Some (Value m) \<Rightarrow> Some m | _ \<Rightarrow> None)"

lemma godot_codec_passes:
  "test_client_hello_roundtrip encode_client_hello (\<lambda>bs. Some (decode_client_hello bs)) = Done True"
  "test_input_cmd_roundtrip encode_input_cmd_proto (\<lambda>bs. unwrapped (decode_input_cmd_proto bs)) = Done True"
  "test_snapshot_roundtrip encode_snapshot_proto (\<lambda>bs. unwrapped (decode_snapshot_proto bs)) = Done True"
proof -
  show "test_client_hello_roundtrip encode_client_hello (\<lambda>bs. Some (decode_client_hello bs)) = Done True"
    by (simp add: test_client_hello_roundtrip_def decode_client_hello_def)
  show "test_input_cmd_roundtrip encode_input_cmd_proto (\<lambda>bs. unwrapped (decode_input_cmd_proto bs)) = Done True"
    unfolding test_input_cmd_roundtrip_def Let_def
    by (subst input_cmd_roundtrip) (simp_all add: unwrapped_def message_eq packet_fits_def encode_eval)
  show "test_snapshot_roundtrip encode_snapshot_proto (\<lambda>bs. unwrapped (decode_snapshot_proto bs)) = Done True"
    unfolding test_snapshot_roundtrip_def Let_def
    by (subst snapshot_roundtrip)
      (simp_all add: unwrapped_def message_eq float_literals[unfolded f64_one_def f64_zero_def] packet_fits_def
        f64_one_def f64_zero_def encode_eval)
qed

end
