(* ===== verification/Spec2Isabelle.thy ===== *)
theory Spec2Isabelle
  imports Movement ServerSpec PlayerIds ServerRefine TickLoopSpec ClientSpec ServerMain Net Pacing Together GodotMatch
    SimTests ReplayTests ServerTests EdgeTests WireTests
begin

text \<open>
  A verification development for Flowstate (\<^verbatim>\<open>crates/\<close>), a deterministic multiplayer game slice: a
  simulation core, the server that runs matches over an ENet transport, the replay artifact a match
  leaves behind with its verifier, a test client, and the network side of the Godot client.

  \<^bold>\<open>The program and its parts.\<close> Clients send \<^verbatim>\<open>InputCmdProto\<close> messages; the Server Edge validates
  and buffers them, one slot per player and tick, and at each tick applies exactly one input per
  player to the world, records it, and broadcasts the new snapshot with the tick floor that clients
  must target. After \<^verbatim>\<open>match_duration_ticks\<close> the recorder yields an artifact, and \<^verbatim>\<open>verify_replay\<close>
  accepts it if replaying the inputs reproduces its digest.

  \<^bold>\<open>Theories, in the order of the code.\<close>
  \<^item> \<open>Prelude\<close>: machine integers, build profile, panics and errors as values, and \<open>monotone_system\<close>,
    the contract of a component driven by events. \<open>HashMap\<close>: \<^verbatim>\<open>std::collections::HashMap\<close> with its
    laws as the locale \<open>hash_map\<close>.
  \<^item> \<open>F64\<close>, \<open>F64_Facts\<close>, \<open>F64_Bounds\<close>: binary64 on bit patterns, computed exactly, proved to round
    the real result to nearest, ties to even; and the bounds the movement code relies on.
  \<^item> \<open>Sim\<close>, \<open>Movement\<close> (\<^verbatim>\<open>sim/src/lib.rs\<close>): \<open>World\<close>, \<open>Character\<close>, spawning, \<open>advance\<close>, digest.
  \<^item> \<open>Wire\<close> (\<^verbatim>\<open>wire/src\<close>): the messages and their conversions.
  \<^item> \<open>InputBuffer\<close>, \<open>Validation\<close> (\<^verbatim>\<open>server/src/input_buffer.rs\<close>, \<^verbatim>\<open>validation.rs\<close>).
  \<^item> \<open>Replay\<close>, \<open>ReplayIO\<close> (\<^verbatim>\<open>replay/src/lib.rs\<close>): recorder, verifier, build fingerprint, files.
  \<^item> \<open>Server\<close> (\<^verbatim>\<open>server/src/lib.rs\<close>, \<^verbatim>\<open>session.rs\<close>) with its invariants \<open>ServerInv\<close>, what follows from
    them in \<open>ServerProps\<close>, \<open>ServerMotion\<close>, \<open>ServerReplay\<close>, \<open>PlayerIds\<close> (numbering past the 256th join), concrete runs \<open>ServerDemo\<close> and the
    properties \<open>ServerSpec\<close>. \<open>MatchSpec\<close>: the match the server is meant to run, one seat per player and a
    clock, with no tables; \<open>ServerRefine\<close>: the server refines it, event by event.
  \<^item> \<open>Transport\<close>: ENet as its users see it. \<open>TickLoop\<close>, \<open>TickLoopInv\<close>, \<open>TickLoopSpec\<close>
    (\<^verbatim>\<open>server/src/tick_loop.rs\<close>) and its wall-clock pacing \<open>Pacing\<close>, \<open>Net\<close> (\<^verbatim>\<open>server/src/net.rs\<close>),
    \<open>ServerMain\<close> (\<^verbatim>\<open>server/src/main.rs\<close>).
  \<^item> \<open>Client\<close>, \<open>ClientSpec\<close> (\<^verbatim>\<open>client/src\<close>). \<open>Together\<close>, this theory: client and server together.
  \<^item> \<open>GodotWire\<close>, \<open>GodotCodec\<close>: the hand-written codec of the Godot client (\<^verbatim>\<open>client/net/wire\<close> in the
    repository's root), with script faults and endless loops as results, and what it preserves.
    \<open>Proto3\<close>: the proto3 wire format and the schemas that \<^verbatim>\<open>wire/src/lib.rs\<close> declares.
    \<open>GoldenBytes\<close> (\<^verbatim>\<open>client/examples/g0_2_golden_bytes.rs\<close>): the program that prints the server's encodings
    of eleven messages; \<open>GoldenFixture\<close>: its output as checked into the repository, and the codec against the schemas.
  \<^item> \<open>GodotClient\<close>, \<open>GodotClientSpec\<close> (\<^verbatim>\<open>client/net\<close>, \<^verbatim>\<open>client/match\<close>, handlers of \<^verbatim>\<open>client/scenes\<close>),
    \<open>GodotMatch\<close>: that client against the server.
  \<^item> \<open>TestKit\<close>, \<open>SimTests\<close>, \<open>InputTests\<close>, \<open>ReplayTests\<close>, \<open>ServerTests\<close>, \<open>EdgeTests\<close>, \<open>WireTests\<close>: the unit
    tests of the crates, translated one by one and proved to pass on the model, so that the model is held
    to what the authors expect of the code, floating-point results to the last bit included.

  \<^bold>\<open>How code maps to model.\<close> A struct is a record whose fields carry a prefix (\<^verbatim>\<open>World.tick\<close> is
  \<open>w_tick\<close>), an enum a datatype, a method a definition that returns the updated state. Integers are
  words of their width; \<open>+\<close> on them goes through \<open>checked_plus\<close>, which panics in the \<open>Dev\<close> profile and
  wraps in \<open>Release\<close>. Whatever may panic returns an \<open>outcome\<close>, a \<^verbatim>\<open>Result\<close> is a sum with \<open>Inl\<close> for
  \<^verbatim>\<open>Err\<close>. A \<^verbatim>\<open>HashMap\<close> is an association list whose order stands for the unspecified iteration
  order.

  \<^bold>\<open>What is shown.\<close> Digest: it is FNV-1a of a canonical byte string. World: \<open>advance\<close> moves exactly
  the addressed characters, panics exactly when stated, ignores the order of inputs, keeps velocities
  and positions bounded. Input path: exactly which inputs are accepted, which one a tick uses, and
  that re-clamping makes the result depend on arrival order. Replay: exactly what the verifier
  accepts and when it panics. Server: its tables agree in every reachable state, ids, floors and the
  buffer are as stated, a tick applies one input per player, matches end on time, recorded matches
  verify unless someone joined late; and every run does what the abstract match does, panics
  included, whatever the interleaving of the clients. Player ids are unique exactly up to the 256th join. Tick loop: within
  the peer limit and the supply of player ids, a run never panics; it reports a timeout exactly if no hello is heard
  in time, and else plays its match to the end, and its ticks keep the schedule. Client: it never targets below its
  floor and keeps the newest snapshot. Together: the server's welcome gives the client the server's world and
  floor, and the input of a client that keeps up is never refused. Binary: exactly which file a run leaves, also
  when writing it fails. Godot: its codec is lossless and writes, for every message, the proto3 encoding of the declared
  schema, which also reproduces the golden fixture byte for byte; but one packet makes its decoders loop
  forever. The client uses no null reference, behaves in a match as the Rust test client does, and
  against a server whose encoder agrees with its own it joins, holds the server's world and has its first
  input buffered.

  \<^bold>\<open>Reachability and bounds.\<close> \<open>server_reachable\<close> quantifies over all finite sequences of joins, inputs,
  leaves and steps. Most theorems about the release profile bound the number of joins by 255, where the
  8-bit player id wraps; without the bound \<open>release_reuses_player_id\<close> shows what happens. ENet is a
  finite script of answers to \<^verbatim>\<open>service()\<close>, arbitrary in content and length, idle once it is used up; a
  timeout is the number of polls that fit before the deadline, also arbitrary. The tick loop needs no
  fuel: it terminates by the remaining match duration. The Godot decoders may not terminate: they are
  partial functions, and \<open>None\<close> is a decoder that never returns. The events of a frame are a finite list.

  \<^bold>\<open>Parameters.\<close> The protobuf codec (\<^verbatim>\<open>prost\<close>), ENet (\<^verbatim>\<open>rusty_enet\<close>), SHA-256 and the operating system
  are third-party: they are arguments of the definitions that call them. Where a theorem needs a codec
  to decode what it encoded, it says so for the messages concerned.

  \<^bold>\<open>Not modelled.\<close> Log and console output, the integration tests, and of the Godot client its
  scenes beyond the signal handlers, views, keyboard polling and test scripts, which are engine calls, and
  what the engine does after a script error: the model stops there. The bit pattern of a NaN that arithmetic yields is not
  specified by Rust; the model returns the canonical one.
\<close>

section \<open>Client and server together\<close>

text \<open>What a client makes of a broadcast: the snapshot it was encoded from, with its floor.\<close>

lemma snapshot_of_broadcast: "Snapshot_try_from (snapshot_proto sn flr) = Inr sn"
proof -
  have "snapshot_proto sn flr = (SnapshotProto_from sn)\<lparr>sp_target_tick_floor := flr\<rparr>"
    by (simp add: snapshot_proto_def SnapshotProto_from_def EntitySnapshotProto_from_def)
  then show ?thesis by (simp add: Snapshot_try_from_def SnapshotProto_from_def entity.collect_enc)
qed

lemma broadcast_candidate:
  assumes "Receive k CHANNEL_REALTIME data \<in> set (arrived events)"
    and "snapshot_decode m data = Some (snapshot_proto sn flr)"
  shows "(sn, flr) \<in> set (candidates m events)"
proof -
  have "snapshot_of_event m (Receive k CHANNEL_REALTIME data) = Some (sn, flr)"
    using assms(2) snapshot_of_broadcast[of sn flr] by (simp add: snapshot_proto_def)
  then have "\<exists>ev \<in> set (arrived events). snapshot_of_event m ev = Some (sn, flr)"
    using assms(1) by blast
  then show ?thesis by (force simp: candidates_def List.map_filter_def image_iff)
qed

text \<open>
  C32. One round trip of the game: the server ticks and broadcasts; the client polls, whatever else
  the network delivered with it as long as that is older, and then sends an input for any desired
  tick up to the end of the acceptance window. Then the client holds exactly the server's world
  state and the floor the server has on record, and the server, on receiving the packet, buffers the
  input for the tick the client targeted: no input of a client that keeps up is ever refused.
\<close>

theorem polled_client_input_buffered:
  assumes "server_reachable p (snapshot_encode n) c s0" and "p = Dev \<or> length (s_entity_spawn_order s0) \<le> 255"
    and "should_end_match s0 = None" and "step p (snapshot_encode n) s0 = Done (lp_server st, sn, flr, data)"
    and "hm_get (lp_peer_sessions st) peer = Some sid" and "hm_get (s_session_players s0) sid = Some q"
    and "Receive k CHANNEL_REALTIME data \<in> set (arrived (ch_events (tc_host cl)))"
    and "\<forall>(sn', flr') \<in> set (candidates m (ch_events (tc_host cl))). (sn', flr') = (sn, flr) \<or> sn_tick sn' < sn_tick sn"
    and "client_poll_snapshot m cl = (cl', Inr res)" and "client_tick_floor cl \<le> flr"
    and "snapshot_decode m data = Some (snapshot_proto sn flr)"
    and "seq_advance p (tc_input_seq cl) = Done (gen, k')" and "ch_sends (tc_host cl') = Queued host_peer # answers"
    and "i = \<lparr>ic_tick = max desired_tick flr, ic_input_seq = k', ic_move_dir = to_vec move_dir\<rparr>"
    and "input_cmd_decode n (input_encode m i) = Some i"
    and "desired_tick \<le> w_tick (s_world (lp_server st)) + sc_max_future_ticks c"
    and "sc_input_lead_ticks c \<le> sc_max_future_ticks c" and "finite_vec2 move_dir"
    and "slot (s_input_buffer (lp_server st)) q (ic_tick i) = None"
  shows "res = Some sn \<and> tc_snapshot cl' = Some sn \<and> sn_entities sn = bl_entities (baseline (s_world (lp_server st))) \<and>
    sn_digest sn = state_digest (s_world (lp_server st)) \<and>
    hm_get (s_last_emitted_floor (lp_server st)) sid = Some (client_tick_floor cl') \<and>
    (\<exists>cl''. client_send_input p m desired_tick move_dir cl' = Done (cl'', Inr ()) \<and>
       ch_sent (tc_host cl'') = ch_sent (tc_host cl') @
         [SendTo host_peer CHANNEL_REALTIME (Unreliable (input_encode m i)), Flush]) \<and>
    (\<exists>st'. match_event p n st (Receive peer CHANNEL_REALTIME (input_encode m i)) = Done st' \<and>
       slot (s_input_buffer (lp_server st')) q (ic_tick i) = Some (first_entry i))"
proof -
  let ?s = "lp_server st" and ?evs = "ch_events (tc_host cl)"
  note core0 = server_reachable_core[OF assms(1,2)]
  have dist: "distinct (s_entity_spawn_order s0)"
    using core_distinct[OF core0(1)] core0(3) by (simp add: server_core_def)
  note after = step_Done[OF dist assms(4)]
  have reach: "server_reachable p (snapshot_encode n) c ?s"
    by (rule reachable_serve[OF assms(1), of EvStep]) (simp add: assms(3,4))
  have small: "p = Dev \<or> length (s_entity_spawn_order ?s) \<le> 255" using assms(2) after(12) by simp
  have ses: "hm_get (s_session_players ?s) sid = Some q" using assms(6) after(11) by simp
  have "(sn, flr) \<in> set (candidates m ?evs)" by (rule broadcast_candidate[OF assms(7,11)])
  moreover note polled = poll_newest[OF assms(9)]
  ultimately obtain s where s: "res = Some s" by (cases res) auto
  with polled obtain f where f: "(s, f) \<in> set (candidates m ?evs)" "tc_snapshot cl' = Some s"
    "tc_tick_floor cl' = max (tc_tick_floor cl) (TickFloor f)" "sn_tick sn \<le> sn_tick s"
    using \<open>(sn, flr) \<in> _\<close> by fastforce
  with assms(8) have eq: "s = sn" "f = flr" by fastforce+
  have flr': "client_tick_floor cl' = flr"
    using f(3) eq(2) assms(10) by (cases "tc_tick_floor cl") (simp add: client_tick_floor_def max_def less_eq_TickFloor_def)
  have known: "hm_get (s_sessions s0) sid \<noteq> None"
    using core0(3) assms(6) by (auto simp: server_core_def sessions_inv_def)
  have emitted: "hm_get (s_last_emitted_floor ?s) sid = Some (client_tick_floor cl')"
    using flr' after(16) known by (simp add: hm.get_insert_loop hm.keys_get)
  have gen': "tc_input_seq cl' = tc_input_seq cl" using poll_frame[of cl m] assms(9) by simp
  have i: "i = input_cmd (client_tick_floor cl') desired_tick k' move_dir"
    by (simp add: assms(14) input_cmd_def target_tick_def flr')
  have "slot (s_input_buffer ?s) q (target_tick (client_tick_floor cl') desired_tick) = None"
    using assms(19) i by (simp add: input_cmd_def)
  from client_input_accepted[OF reach small ses emitted assms(16-18) this, of k']
  obtain s' r where recv: "receive_input p ?s sid i = Done (s', r)" "is_accepted r" unfolding i by blast
  have "match_event p n st (Receive peer CHANNEL_REALTIME (input_encode m i)) = Done (st\<lparr>lp_server := s'\<rparr>)"
    using assms(5,15) recv by (simp add: is_new_client_def CHANNEL_REALTIME_def CHANNEL_CONTROL_def)
  moreover have "slot (s_input_buffer s') q (ic_tick i) = Some (first_entry i)"
    by (rule accepted_fills_slot[OF recv ses assms(19)])
  moreover have "\<exists>cl''. client_send_input p m desired_tick move_dir cl' = Done (cl'', Inr ()) \<and>
       ch_sent (tc_host cl'') = ch_sent (tc_host cl') @
         [SendTo host_peer CHANNEL_REALTIME (Unreliable (input_encode m i)), Flush]"
    using assms(12,13) by (simp add: client_send_input_def gen' send_input_def next_answer_def Let_def i)
  ultimately show ?thesis
    using s f(2) eq after(4) emitted by (simp add: baseline_def)
qed

theorem polled_client_input_buffered_witness:
  "\<exists>n m st st' cl cl' sn i. server_reachable Dev (snapshot_encode n) dflt (lp_server st) \<and>
     client_poll_snapshot m cl = (cl', Inr (Some sn)) \<and> sn_digest sn = state_digest (s_world (lp_server st)) \<and>
     match_event Dev n st (Receive 3 CHANNEL_REALTIME (input_encode m i)) = Done st' \<and>
     slot (s_input_buffer (lp_server st')) 0 (ic_tick i) = Some (first_entry i)"
proof -
  let ?enc = "\<lambda>_ :: SnapshotProto. [] :: bytes"
  obtain s0 where s0: "server_reachable Dev ?enc dflt s0" "hm_get (s_session_players s0) 1 = Some 0"
    "w_tick (s_world s0) = 1" "s_entity_spawn_order s0 = [0]" "s_config s0 = dflt"
    "\<forall>t. t \<noteq> 1 \<longrightarrow> slot (s_input_buffer s0) 0 t = None"
    by (rule one_client_moving)
  have small: "Dev = Dev \<or> length (s_entity_spawn_order s0) \<le> 255" by simp
  note core = server_reachable_core[OF s0(1) small]
  have running: "should_end_match s0 = None" using s0(3,5) by (simp add: dflt_running)
  obtain s sn flr data where st: "step Dev ?enc s0 = Done (s, sn, flr, data)"
    using step_total[OF core running] by blast
  have dist: "distinct (s_entity_spawn_order s0)" using s0(4) by simp
  note after = step_Done[OF dist st]
  have tick: "w_tick (s_world s) = 2" "flr = 3" using after(2,3) s0(3,5) by (simp_all add: dflt_simps)
  have wf: "buffer_wf (s_input_buffer s0)" using core(3) by (simp add: server_core_def buffer_inv_def)
  have free: "slot (s_input_buffer s) 0 3 = None"
    using stepped_buffer(1)[OF wf, where t = 1 and ps = "[0]" and t' = 2 and r = 0 and u = 3]
      after(14) s0(3,4,6) tick(1) by simp
  have data: "data = []" using after(5) by simp
  define i where "i = \<lparr>ic_tick = max 0 (3 :: u64), ic_input_seq = 1, ic_move_dir = to_vec (f64_one, f64_zero)\<rparr>"
  define n where "n = demo_net\<lparr>input_cmd_decode := \<lambda>_. Some i\<rparr>"
  define m where "m = demo_client_net\<lparr>snapshot_decode := \<lambda>_. Some (snapshot_proto sn 3)\<rparr>"
  define cl where "cl = demo_client\<lparr>tc_host := \<lparr>ch_events = [Inr (Some (Receive 0 CHANNEL_REALTIME []))],
    ch_sends = [Queued 0], ch_sent = []\<rparr>, tc_tick_floor := TickFloor 1\<rparr>"
  define st1 where "st1 = \<lparr>lp_server = s, lp_peer_sessions = [(3, 1)], lp_sent = []\<rparr>"
  have n: "snapshot_encode n = ?enc" by (simp add: n_def demo_net_def)
  have cands: "candidates m (ch_events (tc_host cl)) = [(sn, 3)]"
    using snapshot_of_broadcast[of sn 3]
    by (simp add: candidates_def cl_def m_def map_filter_simps snapshot_proto_def)
  obtain cl' where poll: "client_poll_snapshot m cl = (cl', Inr (Some sn))" "ch_sends (tc_host cl') = [Queued 0]"
    using snapshot_of_broadcast[of sn 3]
    by (simp add: client_poll_snapshot_def cl_def m_def take_newer_def is_newer_def snapshot_proto_def
        observe_tick_floor_def)
  have gen: "seq_advance Dev (tc_input_seq cl) = Done (InputSeqGen 1, 1)"
    by (simp add: cl_def demo_client_def checked_plus_def)
  have dir: "finite_vec2 (f64_one, f64_zero)" by (simp add: finite_vec2_def)
  have reach: "server_reachable Dev ?enc dflt s"
    by (rule reachable_serve[OF s0(1), of EvStep]) (simp add: running st)
  have step': "step Dev (snapshot_encode n) s0 = Done (lp_server st1, sn, flr, data)"
    using st n by (simp add: st1_def)
  have got: "Receive 0 CHANNEL_REALTIME data \<in> set (arrived (ch_events (tc_host cl)))"
    by (simp add: cl_def data)
  have older: "\<forall>(sn', flr') \<in> set (candidates m (ch_events (tc_host cl))). (sn', flr') = (sn, flr) \<or> sn_tick sn' < sn_tick sn"
    unfolding cands by (simp add: tick(2))
  have behind: "client_tick_floor cl \<le> flr" by (simp add: cl_def client_tick_floor_def tick(2))
  have decodes: "snapshot_decode m data = Some (snapshot_proto sn flr)" by (simp add: m_def tick(2))
  have i: "i = \<lparr>ic_tick = max 0 flr, ic_input_seq = 1, ic_move_dir = to_vec (f64_one, f64_zero)\<rparr>"
    by (simp add: i_def tick(2))
  have codec: "input_cmd_decode n (input_encode m i) = Some i" by (simp add: n_def)
  have room: "0 \<le> w_tick (s_world (lp_server st1)) + sc_max_future_ticks dflt"
    "sc_input_lead_ticks dflt \<le> sc_max_future_ticks dflt" by (simp_all add: dflt_simps)
  have slot: "slot (s_input_buffer (lp_server st1)) 0 (ic_tick i) = None"
    using free by (simp add: st1_def i_def)
  have peer: "hm_get (lp_peer_sessions st1) 3 = Some 1" by (simp add: st1_def hm_get_def)
  note result = polled_client_input_buffered[OF s0(1)[folded n] small running step' peer s0(2) got older poll(1)
      behind decodes gen poll(2) i codec room dir slot]
  have served: "lp_server st1 = s" by (simp add: st1_def)
  from result poll(1) reach show ?thesis unfolding n[symmetric] served[symmetric] by blast
qed

text \<open>
  C33. The handshake end to end: if the codecs agree on the two messages, the packets with which the
  server welcomes a peer make the client's \<open>connect\<close> succeed with the floor that the server has on
  record for the new session, and \<open>recv_baseline\<close> return exactly the state of the server's world,
  its digest included.
\<close>

theorem handshake_delivers_world:
  assumes "accept_and_welcome p n st peer = Done st'" and "peer_exists n peer"
    and "join p (lp_server st) = Done (s', wel)"
    and "welcome_decode m (welcome_encode n wel) = Some wel"
    and "baseline_decode m (baseline_encode n (baseline_proto s')) = Some (baseline_proto s')"
    and "ch_events h = Inr (Some (Connect 0)) # delivered peer (drop (length (lp_sent st)) (lp_sent st'))"
    and "ch_sends h = Queued 0 # answers"
  shows "\<exists>cl cl'. client_connect m None (Suc polls) h = Inr cl \<and>
    client_recv_baseline m (Suc polls) cl = (cl', Inr (baseline (s_world (lp_server st')))) \<and>
    hm_get (s_last_emitted_floor (lp_server st')) (s_next_session_id (lp_server st)) =
      Some (client_tick_floor cl')"
proof -
  obtain wel' where j: "join p (lp_server st) = Done (lp_server st', wel')"
    and sent: "lp_sent st' = lp_sent st @ [SendTo peer CHANNEL_CONTROL (Reliable (welcome_encode n wel')),
      SendTo peer CHANNEL_CONTROL (Reliable (baseline_encode n (baseline_proto (lp_server st'))))]"
    by (rule accept_and_welcome_is_join[OF assms(1)]) (use assms(2) in simp)
  have same: "wel' = wel" "s' = lp_server st'" using j assms(3) by simp_all
  obtain pid w eid where srv: "lp_server st' = joined (lp_server st) pid w eid"
    and wel: "sw_target_tick_floor wel = w_tick w + sc_input_lead_ticks (s_config (lp_server st))"
    by (rule join_Done[OF assms(3)]) (use same in simp)
  have emitted: "hm_get (s_last_emitted_floor (lp_server st')) (s_next_session_id (lp_server st)) =
      Some (sw_target_tick_floor wel)"
    by (simp add: srv joined_def wel)
  have decoded_base: "Baseline_try_from (baseline_proto (lp_server st')) = Inr (baseline (s_world (lp_server st')))"
    by (simp add: baseline_proto_def baseline.dec_enc)
  have ev: "ch_events h = [Inr (Some (Connect 0)),
      Inr (Some (Receive 0 CHANNEL_CONTROL (welcome_encode n wel))),
      Inr (Some (Receive 0 CHANNEL_CONTROL (baseline_encode n (baseline_proto (lp_server st')))))]"
    using assms(6) by (simp add: sent same(1))
  show ?thesis
    using assms(4,5,7) emitted decoded_base
    by (simp add: same(2) client_connect_def connection_connect_def ev next_answer_def client_recv_baseline_def
        client_tick_floor_def from_welcome_def)
qed

theorem handshake_delivers_world_witness:
  "\<exists>st st' m h cl cl'. accept_and_welcome Dev demo_net st 3 = Done st' \<and>
     client_connect m None 1 h = Inr cl \<and>
     client_recv_baseline m 1 cl = (cl', Inr (baseline (s_world (lp_server st'))))"
proof -
  obtain s0 st' sid wel where "connect_event Dev demo_net \<lparr>lp_server = s0, lp_peer_sessions = [], lp_sent = []\<rparr>
      (Receive 3 CHANNEL_CONTROL []) = Done st'"
    and j: "join Dev s0 = Done (lp_server st', wel)"
    by (rule demo_connected)
  let ?st = "\<lparr>lp_server = s0, lp_peer_sessions = [], lp_sent = []\<rparr>"
  have acc: "accept_and_welcome Dev demo_net ?st 3 = Done st'"
    using \<open>connect_event _ _ _ _ = _\<close> by (simp add: is_new_client_def demo_net_def)
  define m where "m = demo_client_net\<lparr>welcome_decode := \<lambda>_. Some wel,
    baseline_decode := \<lambda>_. Some (baseline_proto (lp_server st'))\<rparr>"
  define h where "h = \<lparr>ch_events = Inr (Some (Connect 0)) # delivered 3 (drop (length (lp_sent ?st)) (lp_sent st')),
    ch_sends = [Queued 0], ch_sent = []\<rparr>"
  have "peer_exists demo_net 3" by (simp add: demo_net_def)
  from handshake_delivers_world[OF acc this, of "lp_server st'" wel m h "[]" 0] j
  have "\<exists>cl cl'. client_connect m None 1 h = Inr cl \<and>
      client_recv_baseline m 1 cl = (cl', Inr (baseline (s_world (lp_server st'))))"
    by (auto simp: m_def h_def)
  with acc show ?thesis by blast
qed

section \<open>The server binary\<close>

text \<open>
  C40. What a run of the server binary leaves behind, with a transport that keeps its peer limit and at most
  255 hello packets. If the address cannot be bound or no pass before the connect deadline hears a hello, it
  exits with 1 and changes no file. Otherwise it plays a match to tick 1800 and, if the parent
  directory and the file can be created and the path is fresh, writes the encoded artifact there: it
  exits with 0 exactly if all of it could be written, and \<open>read_replay\<close> then returns that artifact; if
  writing fails half way, it exits with 1 and leaves the truncated file. No other
  file and no existing file is ever changed. The artifact never carries a build fingerprint, so that
  every build passes the verifier's build check.
\<close>

theorem server_main_archives_match:
  assumes "within_peer_limit ServerConfig_default script" and "hellos n script \<le> 255"
  shows "if bind_error = None \<and> hello_in_time n polls script
    then \<exists>s. server_reachable p (snapshot_encode n) ServerConfig_default s \<and> w_tick (s_world s) = 1800 \<and>
       0 < length (s_entity_spawn_order s) \<and>
       (let artifact = server_finalize s Complete; path = replay_path now
        in server_main p n bind_error polls script enc env now fs =
             (if fe_mkdir env path \<noteq> None \<or> fs path \<noteq> None \<or> fe_create env path \<noteq> None then (1, fs)
              else case fe_write env path of
                Some (e, written) \<Rightarrow> (1, fs(path \<mapsto> take written (enc artifact)))
              | None \<Rightarrow> (0, fs(path \<mapsto> enc artifact))) \<and>
           (fe_read env path = None \<longrightarrow> (\<forall>dec. dec (enc artifact) = Inr artifact \<longrightarrow>
              read_replay dec env (fs(path \<mapsto> enc artifact)) path = Inr artifact)) \<and>
           ra_build_fingerprint artifact = None \<and> (\<forall>opts. check_build artifact opts = Inr ()))
    else server_main p n bind_error polls script enc env now fs = (1, fs)"
proof (cases "bind_error = None \<and> hello_in_time n polls script")
  case True
  have rate: "0 < sc_tick_rate_hz dflt" and room: "hellos n script \<le> id_room dflt"
    using assms(2) by (simp_all add: dflt_simps id_room_def)
  obtain s sent where run: "run p n None polls script dflt = Done (Inr (server_finalize s Complete, sent))"
    and s: "server_reachable p (snapshot_encode n) dflt s" "w_tick (s_world s) = sc_match_duration_ticks dflt"
      "s_build_fingerprint s = None" "0 < length (s_entity_spawn_order s)" "length (s_entity_spawn_order s) \<le> 255"
    using run_total[OF dflt_ok rate assms(1) room, of polls p] True assms(2) by (auto dest: order_trans)
  let ?a = "server_finalize s Complete" and ?path = "replay_path now"
  have "recorder_inv dflt s"
    using server_reachable_core(3)[OF s(1)] s(5) by (simp add: server_core_def)
  then have none: "ra_build_fingerprint ?a = None"
    using s(3) by (simp add: recorder_inv_def server_finalize_def recorder_finalize_def)
  have "server_main p n bind_error polls script enc env now fs =
      (if fe_mkdir env ?path \<noteq> None \<or> fs ?path \<noteq> None \<or> fe_create env ?path \<noteq> None then (1, fs)
       else case fe_write env ?path of
         Some (e, written) \<Rightarrow> (1, fs(?path \<mapsto> take written (enc ?a)))
       | None \<Rightarrow> (0, fs(?path \<mapsto> enc ?a)))"
    using True run by (auto simp: server_main_def write_replay_def Let_def split: option.split)
  moreover have "w_tick (s_world s) = 1800" using s(2) by (simp add: dflt_simps)
  moreover have "check_build ?a opts = Inr ()" for opts by (simp add: check_build_def none)
  moreover have "read_replay dec env (fs(?path \<mapsto> enc ?a)) ?path = Inr ?a"
    if "fe_read env ?path = None" "dec (enc ?a) = Inr ?a" for dec
    using that by (simp add: read_replay_def)
  ultimately show ?thesis unfolding if_P[OF True] Let_def using s(1,4) none by blast
next
  case False
  have "server_main p n bind_error polls script enc env now fs = (1, fs)"
  proof (cases bind_error)
    case None
    have rate: "0 < sc_tick_rate_hz dflt" and room: "hellos n script \<le> id_room dflt"
      using assms(2) by (simp_all add: dflt_simps id_room_def)
    then show ?thesis
      using run_total[OF dflt_ok rate assms(1) room, of polls p] False None by (simp add: server_main_def)
  qed (simp add: server_main_def run_def dflt_simps)
  then show ?thesis unfolding if_not_P[OF False] .
qed

definition demo_disk :: "(io_error \<times> nat) option \<Rightarrow> fs_env" where
  "demo_disk failure = \<lparr>fe_mkdir = \<lambda>_. None, fe_create = \<lambda>_. None, fe_write = \<lambda>_. failure, fe_read = \<lambda>_. None\<rparr>"

theorem server_main_archives_match_witness:
  "let main = (\<lambda>failure. server_main Release demo_net None 3 [Inr (Some (Receive 3 CHANNEL_CONTROL []))]
       (\<lambda>_. [1, 2]) (demo_disk failure) (Some 7) (\<lambda>_. None))
   in fst (main None) = 0 \<and> snd (main None) ''replays/replay_7.replay'' = Some [1, 2] \<and>
     fst (main (Some (TimedOut [], 1))) = 1 \<and> snd (main (Some (TimedOut [], 1))) ''replays/replay_7.replay'' = Some [1]"
proof -
  let ?script = "[Inr (Some (Receive 3 CHANNEL_CONTROL []))]"
  have ok: "within_peer_limit ServerConfig_default ?script" "hellos demo_net ?script \<le> 255"
    by (simp_all add: dflt_simps within_peer_limit_def demo_net_def)
  have "hello_in_time demo_net 3 ?script" by (simp add: demo_net_def numeral_eq_Suc)
  moreover have "replay_path (Some 7) = ''replays/replay_7.replay''"
    by (simp add: replay_path_def decimal_def digits_eval digit_chars)
  moreover note server_main_archives_match[OF ok, where bind_error = None and polls = 3 and p = Release
      and env = "demo_disk None" and now = "Some 7" and fs = "\<lambda>_. None" and enc = "\<lambda>_. [1, 2]"]
    server_main_archives_match[OF ok, where bind_error = None and polls = 3 and p = Release
      and env = "demo_disk (Some (TimedOut [], 1))" and now = "Some 7" and fs = "\<lambda>_. None" and enc = "\<lambda>_. [1, 2]"]
  ultimately show ?thesis by (auto simp: Let_def demo_disk_def)
qed

end
